(* ===== verification/Prelude.thy ===== *)
theory Prelude
  imports "HOL-Library.Word"
begin

text \<open>
  Shared vocabulary of the development: the collections that the component theories fill
  with their facts, and generic lemmas on lists, maps and 32-bit words that several
  components use.

  Conventions of every theory above this one. A Go function that can fail returns
  its results together with an \<open>error option\<close> (\<open>None\<close> is \<open>nil\<close>), or a sum when the
  other results are zero values on failure. A computation that can panic returns an
  \<open>option\<close>, \<open>None\<close> being the panic. State that Go keeps behind a pointer is passed and
  returned explicitly.
\<close>

named_theorems go_defs \<open>definitions that only wrap or project a value\<close>
named_theorems stream_simps \<open>how loops over streams evaluate\<close>
named_theorems store_simps \<open>how event stores react to their operations\<close>

section \<open>Lengths as 32-bit versions\<close>

text \<open>
  The code converts slice lengths with \<open>version.Version(len(xs))\<close>, a truncation to 32 bits.
  Below $2^{32}$ the conversion is faithful, and it always commutes with concatenation.
\<close>

lemma unat_len32: "n < 2 ^ 32 \<Longrightarrow> unat (word_of_nat n :: 32 word) = n"
  by (simp add: unsigned_of_nat take_bit_nat_eq_self)

lemma uint_len32: "n < 2 ^ 32 \<Longrightarrow> uint (word_of_nat n :: 32 word) = int n"
  by (simp add: uint_nat unat_len32)

lemma len32_eq_iff:
  "m < 2 ^ 32 \<Longrightarrow> n < 2 ^ 32 \<Longrightarrow> (word_of_nat m = (word_of_nat n :: 32 word)) \<longleftrightarrow> m = n"
  by (metis unat_len32)

lemma len32_eq_0_iff: "n < 2 ^ 32 \<Longrightarrow> (word_of_nat n = (0 :: 32 word)) \<longleftrightarrow> n = 0"
  using len32_eq_iff [of n 0] by simp

lemma len32_less_iff:
  "m < 2 ^ 32 \<Longrightarrow> n < 2 ^ 32 \<Longrightarrow> (word_of_nat m < (word_of_nat n :: 32 word)) \<longleftrightarrow> m < n"
  by (simp add: word_less_nat_alt unat_len32)

lemmas len32_simps = unat_len32 len32_eq_iff len32_eq_0_iff len32_less_iff

section \<open>Lists and maps\<close>

text \<open>Reading a Go map of slices: a missing key reads as the nil slice.\<close>

definition slice_at :: "('k \<rightharpoonup> 'a list) \<Rightarrow> 'k \<Rightarrow> 'a list" where
  "slice_at m k = (case m k of None \<Rightarrow> [] | Some xs \<Rightarrow> xs)"

lemma slice_at_upd [simp]: "slice_at (m(k \<mapsto> xs)) = (slice_at m)(k := xs)"
  by (simp add: slice_at_def fun_eq_iff)

lemma slice_at_empty [simp]: "slice_at Map.empty k = []"
  by (simp add: slice_at_def)

end
