(* ===== verification/Version.thy ===== *)
theory Version
  imports Prelude
begin

text \<open>
  Package \<open>version\<close> (files \<open>version/version.go\<close>, \<open>version/check.go\<close>): event stream versions,
  the selector of a stream read, the optimistic concurrency checks of an append and the
  conflict they report.
\<close>

text \<open>\<open>type Version uint32\<close>: arithmetic wraps.\<close>

type_synonym Version = "32 word"

record Selector =
  From :: Version

definition SelectFromBeginning :: Selector where
  "SelectFromBeginning = \<lparr>From = 0\<rparr>"

text \<open>
  \<open>Check\<close> is sealed by its unexported method, so its values are the two variants.
\<close>

datatype Check = CheckAny | CheckExact Version

definition Any :: Check where
  "Any = CheckAny"

record ConflictError =
  Expected :: Version
  Actual :: Version

text \<open>\<open>strconv.Itoa\<close> of a number that is not negative.\<close>

definition digit :: "nat \<Rightarrow> char" where
  "digit n = char_of (48 + n)"

fun Itoa :: "nat \<Rightarrow> string" where
  "Itoa n = (if n < 10 then [digit n] else Itoa (n div 10) @ [digit (n mod 10)])"

declare Itoa.simps [simp del]

definition ConflictError_Error :: "ConflictError \<Rightarrow> string" where
  "ConflictError_Error e = ''version.Check: conflict detected; expected stream version: '' @ Itoa (unat (Expected e)) @
     '', actual: '' @ Itoa (unat (Actual e))"

end
