(* ===== verification/Go_Errors.thy ===== *)
theory Go_Errors
  imports Version
begin

text \<open>
  Go errors as the repository uses them: package-level values made by \<open>errors.New\<close>, the
  struct \<open>version.ConflictError\<close>, wrapping with \<open>fmt.Errorf\<close> and \<open>%w\<close>, \<open>errors.Join\<close>, and the
  searches \<open>errors.Is\<close> and \<open>errors.As\<close>.

  \<^item> \<open>Sentinel\<close> is a value of \<open>errors.New\<close>. Go compares such values by identity; every one of
    the repository has its own message, so the message stands for the identity.
  \<^item> \<open>Errorf f es\<close> is \<open>fmt.Errorf\<close> with format \<open>f\<close>, kept verbatim, and \<open>es\<close> the operands of its
    \<open>%w\<close> verbs in order (none for an error that wraps nothing). Operands of other verbs only
    change the text and are not kept.
\<close>

datatype error =
    Sentinel string
  | Conflict ConflictError
  | Errorf string "error list"
  | Join "error list"

text \<open>
  \<open>errors.Is(err, target)\<close> walks the tree of wrapped errors depth first and compares each node
  with the target. A node made by \<open>fmt.Errorf\<close> or \<open>errors.Join\<close> is a pointer to a fresh value and
  is equal to no target built elsewhere.
\<close>

fun errors_Is :: "error \<Rightarrow> error \<Rightarrow> bool" where
  "errors_Is (Sentinel s) target = (target = Sentinel s)"
| "errors_Is (Conflict c) target = (target = Conflict c)"
| "errors_Is (Errorf f es) target = list_ex (\<lambda>e. errors_Is e target) es"
| "errors_Is (Join es) target = list_ex (\<lambda>e. errors_Is e target) es"

text \<open>
  \<open>errors.As(err, &conflictErr)\<close>: the first \<open>ConflictError\<close> of the same walk.
\<close>

fun errors_As :: "error \<Rightarrow> ConflictError option"
  and errors_As_list :: "error list \<Rightarrow> ConflictError option" where
  "errors_As (Sentinel s) = None"
| "errors_As (Conflict c) = Some c"
| "errors_As (Errorf f es) = errors_As_list es"
| "errors_As (Join es) = errors_As_list es"
| "errors_As_list [] = None"
| "errors_As_list (e # es) = (case errors_As e of Some c \<Rightarrow> Some c | None \<Rightarrow> errors_As_list es)"

text \<open>\<open>errors.Join\<close> drops nil errors and is nil when nothing is left.\<close>

definition errors_Join :: "error option list \<Rightarrow> error option" where
  "errors_Join errs =
     (let es = List.map_filter (\<lambda>e. e) errs in if es = [] then None else Some (Join es))"

text \<open>
  \<open>errors.Is\<close> on error values that may be nil: with a nil operand it only compares.
\<close>

definition errors_Is_opt :: "error option \<Rightarrow> error option \<Rightarrow> bool" where
  "errors_Is_opt err target =
     (case (err, target) of (Some e, Some t) \<Rightarrow> errors_Is e t | _ \<Rightarrow> err = target)"

lemma errors_Is_wrap [simp]: "errors_Is (Errorf f [e]) t = errors_Is e t"
  by simp

lemma errors_As_wrap [simp]: "errors_As (Errorf f [e]) = errors_As e"
  by (simp split: option.splits)

lemma errors_Is_opt_simps [simp]:
  "errors_Is_opt (Some e) (Some t) = errors_Is e t"
  "errors_Is_opt None (Some t) = False"
  "errors_Is_opt (Some e) None = False"
  "errors_Is_opt None None = True"
  by (simp_all add: errors_Is_opt_def)

lemma errors_Join_eq_None_iff: "errors_Join errs = None \<longleftrightarrow> set errs \<subseteq> {None}"
  by (induction errs) (auto simp: errors_Join_def Let_def List.map_filter_def split: if_splits)

text \<open>
  What \<open>errors.As\<close> finds is in the tree, so \<open>errors.Is\<close> finds it too.
\<close>

lemma errors_As_Is:
  "errors_As e = Some c \<Longrightarrow> errors_Is e (Conflict c)"
  "errors_As_list es = Some c \<Longrightarrow> list_ex (\<lambda>e. errors_Is e (Conflict c)) es"
  by (induction e and es rule: errors_As_errors_As_list.induct) (auto split: option.splits)

text \<open>A sentinel of \<open>errors.Join\<close> is found exactly when it is one of the joined errors' causes.\<close>

lemma errors_Is_Join_Some:
  "errors_Join errs = Some e \<Longrightarrow> errors_Is e t \<longleftrightarrow> (\<exists>x. Some x \<in> set errs \<and> errors_Is x t)"
  by (force simp: errors_Join_def Let_def List.map_filter_def list_ex_iff split: if_splits)

text \<open>
  \<open>caused_by e c\<close>: \<open>c\<close> is the only target \<open>errors.Is\<close> finds in \<open>e\<close>, so whoever classifies \<open>e\<close> by its
  cause has no choice. A chain of single \<open>%w\<close> wrappers is caused by its innermost error.
\<close>

definition caused_by :: "error \<Rightarrow> error \<Rightarrow> bool" where
  "caused_by e c \<longleftrightarrow> (\<forall>t. errors_Is e t \<longleftrightarrow> t = c)"

lemma caused_by_simps [simp]:
  "caused_by (Errorf f [e]) c = caused_by e c"
  "caused_by (Sentinel s) c \<longleftrightarrow> c = Sentinel s"
  "caused_by (Conflict k) c \<longleftrightarrow> c = Conflict k"
  by (auto simp: caused_by_def)

lemma caused_by_Is: "caused_by e c \<Longrightarrow> errors_Is e t \<longleftrightarrow> t = c"
  by (simp add: caused_by_def)

lemma errors_As_None:
  "errors_As e = None \<Longrightarrow> \<not> errors_Is e (Conflict k)"
  "errors_As_list es = None \<Longrightarrow> \<not> list_ex (\<lambda>e. errors_Is e (Conflict k)) es"
  by (induction e and es rule: errors_As_errors_As_list.induct) (auto split: option.splits)

lemma caused_by_As: "caused_by e (Conflict k) \<Longrightarrow> errors_As e = Some k"
  using errors_As_None(1) [of e k] errors_As_Is(1) [of e]
  by (cases "errors_As e") (auto simp: caused_by_def)

end
