(* ===== verification/Message.thy ===== *)
theory Message
  imports Go_Errors
begin

text \<open>
  Package \<open>message\<close>, file \<open>message/message.go\<close>: metadata and envelopes.

  A Go map is a reference, and \<open>With\<close> and \<open>Merge\<close> write through it, so their model works on a
  heap of maps. Everything else in the repository only carries metadata along, and reads it
  as the value the reference points to.
\<close>

section \<open>Metadata\<close>

text \<open>The value of a \<open>map[string]string\<close>; \<open>None\<close> is the nil map.\<close>

type_synonym Metadata = "(string \<rightharpoonup> string) option"

text \<open>
  A heap of metadata maps: allocated cells below \<open>next_ref\<close>. A \<open>Metadata\<close> variable holds a
  reference or nil.
\<close>

record map_heap =
  next_ref :: nat
  cells :: "nat \<rightharpoonup> (string \<rightharpoonup> string)"

type_synonym metadata_ref = "nat option"

definition map_heap_wf :: "map_heap \<Rightarrow> bool" where
  "map_heap_wf h \<longleftrightarrow> (\<forall>a. a \<in> dom (cells h) \<longrightarrow> a < next_ref h)"

definition points_into :: "map_heap \<Rightarrow> metadata_ref \<Rightarrow> bool" where
  "points_into h m \<longleftrightarrow> (case m of None \<Rightarrow> True | Some a \<Rightarrow> a \<in> dom (cells h))"

definition deref :: "map_heap \<Rightarrow> metadata_ref \<Rightarrow> Metadata" where
  "deref h m = (case m of None \<Rightarrow> None | Some a \<Rightarrow> cells h a)"

definition make_metadata :: "map_heap \<Rightarrow> metadata_ref \<times> map_heap" where
  "make_metadata h =
     (Some (next_ref h), h\<lparr>next_ref := Suc (next_ref h), cells := (cells h)(next_ref h \<mapsto> Map.empty)\<rparr>)"

definition store_key :: "map_heap \<Rightarrow> nat \<Rightarrow> string \<Rightarrow> string \<Rightarrow> map_heap" where
  "store_key h a key value =
     h\<lparr>cells := (cells h)(a := map_option (\<lambda>c. c(key \<mapsto> value)) (cells h a))\<rparr>"

text \<open>\<open>func (m Metadata) With(key, value string) Metadata\<close>\<close>

definition With :: "metadata_ref \<Rightarrow> string \<Rightarrow> string \<Rightarrow> map_heap \<Rightarrow> metadata_ref \<times> map_heap" where
  "With m key value h =
     (let (m', h') = (case m of None \<Rightarrow> make_metadata h | Some a \<Rightarrow> (Some a, h))
      in (m', case m' of None \<Rightarrow> h' | Some a \<Rightarrow> store_key h' a key value))"

text \<open>
  \<open>func (m Metadata) Merge(other Metadata) Metadata\<close>: \<open>maps.Copy\<close> writes every pair of \<open>other\<close>
  (a nil \<open>other\<close> has none) into \<open>m\<close>.
\<close>

definition Merge :: "metadata_ref \<Rightarrow> metadata_ref \<Rightarrow> map_heap \<Rightarrow> metadata_ref \<times> map_heap" where
  "Merge m other h =
     (case m of
        None \<Rightarrow> (other, h)
      | Some a \<Rightarrow>
          (Some a, h\<lparr>cells := (cells h)(a := map_option
             (\<lambda>c. c ++ (case deref h other of None \<Rightarrow> Map.empty | Some d \<Rightarrow> d)) (cells h a))\<rparr>))"

text \<open>The same operations on values, for code that holds the only reference.\<close>

definition with_value :: "Metadata \<Rightarrow> string \<Rightarrow> string \<Rightarrow> Metadata" where
  "with_value m key value =
     Some ((case m of None \<Rightarrow> Map.empty | Some c \<Rightarrow> c)(key \<mapsto> value))"

definition merge_value :: "Metadata \<Rightarrow> Metadata \<Rightarrow> Metadata" where
  "merge_value m other =
     (case m of None \<Rightarrow> other
      | Some c \<Rightarrow> Some (c ++ (case other of None \<Rightarrow> Map.empty | Some d \<Rightarrow> d)))"

text \<open>How the two writes act on what a reference reads.\<close>

lemma With_cases:
  "With None key value h =
     (Some (next_ref h), store_key (snd (make_metadata h)) (next_ref h) key value)"
  "With (Some a) key value h = (Some a, store_key h a key value)"
  by (simp_all add: With_def make_metadata_def)

lemma deref_store_key [simp]:
  "deref (store_key h a key value) (Some a) = map_option (\<lambda>c. c(key \<mapsto> value)) (cells h a)"
  "b \<noteq> a \<Longrightarrow> deref (store_key h a key value) (Some b) = deref h (Some b)"
  "deref h' None = None"
  by (simp_all add: deref_def store_key_def)

lemma deref_make_metadata [simp]:
  "cells (snd (make_metadata h)) a = (if a = next_ref h then Some Map.empty else cells h a)"
  "deref (snd (make_metadata h)) (Some a) = (if a = next_ref h then Some Map.empty else deref h (Some a))"
  by (simp_all add: deref_def make_metadata_def)

lemma points_into_simps [simp]:
  "points_into h None"
  "points_into h (Some a) \<longleftrightarrow> (\<exists>c. cells h a = Some c)"
  by (auto simp: points_into_def)

lemma cells_store_key [simp]:
  "cells (store_key h a key value) b =
     (if b = a then map_option (\<lambda>c. c(key \<mapsto> value)) (cells h a) else cells h b)"
  by (simp add: store_key_def)

lemma With_deref:
  assumes "points_into h m"
  shows "deref (snd (With m key value h)) (fst (With m key value h)) = with_value (deref h m) key value"
  using assms by (cases m) (auto simp: With_cases with_value_def deref_def)

lemma With_points_into: "points_into h m \<Longrightarrow> points_into (snd (With m key value h)) (fst (With m key value h))"
  by (cases m) (auto simp: With_cases)

lemma map_heap_wf_fresh: "map_heap_wf h \<Longrightarrow> cells h a = Some c \<Longrightarrow> a < next_ref h"
  by (auto simp: map_heap_wf_def)

lemma With_wf:
  assumes "map_heap_wf h"
  shows "map_heap_wf (snd (With m key value h))"
proof (cases m)
  case None
  have "a < Suc (next_ref h)" if "cells h a = Some c" for a c
    using map_heap_wf_fresh [OF assms that] by simp
  then show ?thesis
    unfolding None by (auto simp: With_cases map_heap_wf_def store_key_def make_metadata_def)
next
  case (Some a)
  with assms show ?thesis by (auto simp: With_cases map_heap_wf_def store_key_def)
qed

lemma Merge_deref:
  assumes "points_into h m"
  shows "deref (snd (Merge m other h)) (fst (Merge m other h)) = merge_value (deref h m) (deref h other)"
  using assms by (cases m) (auto simp: Merge_def merge_value_def deref_def)

text \<open>
  A non-nil receiver is not copied: every other name of the same map sees the new key.
  References to other maps are untouched.
\<close>

lemma With_alias: "fst (With (Some a) key value h) = Some a"
  by (simp add: With_cases)

lemma With_frame:
  assumes wf: "map_heap_wf h" and r: "points_into h r" and "r \<noteq> m"
  shows "deref (snd (With m key value h)) r = deref h r"
proof (cases r)
  case (Some a)
  with r obtain c where "cells h a = Some c" by auto
  with wf have "a \<noteq> next_ref h" using map_heap_wf_fresh by blast
  with Some \<open>r \<noteq> m\<close> show ?thesis by (cases m) (auto simp: With_cases)
qed simp

section \<open>Envelopes\<close>

record 'm Envelope =
  Message :: 'm
  Metadata :: Metadata

text \<open>
  \<open>ToGenericEnvelope\<close> stores the message in a variable of the interface type \<open>Message\<close>:
  \<open>as_message\<close> is that conversion.
\<close>

definition ToGenericEnvelope :: "('t \<Rightarrow> 'm) \<Rightarrow> 't Envelope \<Rightarrow> 'm Envelope" where
  [go_defs]: "ToGenericEnvelope as_message e = \<lparr>Message = as_message (Message e), Metadata = Metadata e\<rparr>"

section \<open>Properties\<close>

text \<open>C29: \<open>With\<close> on a nil map allocates a fresh one; on a non-nil map it writes into the receiver's
  own map and returns the same reference, so that every holder of the receiver sees the new key. In
  both cases the result reads as the old pairs with the key set, and no other map changes.\<close>

theorem Metadata_With_writes_through:
  assumes "map_heap_wf h" and "points_into h m"
  shows "deref (snd (With m key value h)) (fst (With m key value h)) =
           Some ((case deref h m of None \<Rightarrow> Map.empty | Some c \<Rightarrow> c)(key \<mapsto> value)) \<and>
         (case m of Some a \<Rightarrow> fst (With m key value h) = Some a
          | None \<Rightarrow> \<not> points_into h (fst (With m key value h))) \<and>
         (\<forall>r. points_into h r \<and> r \<noteq> m \<longrightarrow> deref (snd (With m key value h)) r = deref h r)"
proof -
  have "cells h (next_ref h) = None"
    using map_heap_wf_fresh [OF assms(1), of "next_ref h"] by (cases "cells h (next_ref h)") simp_all
  then have "\<not> points_into h (fst (With None key value h))" by (simp add: With_cases)
  then show ?thesis
    using With_deref [OF assms(2)] With_frame [OF assms(1)]
    by (auto simp: with_value_def With_alias split: option.split)
qed

theorem Metadata_With_writes_through_witness:
  "\<exists>h :: map_heap. cells h 0 = Some [''a'' \<mapsto> ''1''] \<and>
     deref (snd (With (Some 0) ''b'' ''2'' h)) (Some 0) = Some [''a'' \<mapsto> ''1'', ''b'' \<mapsto> ''2''] \<and>
     deref (snd (With (Some 0) ''b'' ''2'' h)) (Some 1) = Some Map.empty"
proof -
  let ?h = "\<lparr>next_ref = 2, cells = [0 \<mapsto> [''a'' \<mapsto> ''1''], 1 \<mapsto> Map.empty]\<rparr>"
  have "map_heap_wf ?h" by (auto simp: map_heap_wf_def)
  moreover have "points_into ?h (Some 0)" by simp
  ultimately have *: "deref (snd (With (Some 0) ''b'' ''2'' ?h)) (Some 0) = Some [''a'' \<mapsto> ''1'', ''b'' \<mapsto> ''2''] \<and>
      deref (snd (With (Some 0) ''b'' ''2'' ?h)) (Some 1) = Some Map.empty"
    using Metadata_With_writes_through [of ?h "Some 0" "''b''" "''2''"]
    by (auto simp: deref_def With_cases split: if_splits)
  show ?thesis by (rule exI [of _ ?h]) (use * in simp)
qed

text \<open>\<open>Merge\<close> into a nil map is the other reference itself, not a copy; into a non-nil map it
  writes every pair of the other map over the receiver's, returns the receiver's reference, and
  leaves every other map, the merged one included, as it was.\<close>

theorem Metadata_Merge_overrides:
  assumes "points_into h m"
  shows "fst (Merge m other h) = (if m = None then other else m) \<and>
         deref (snd (Merge m other h)) (fst (Merge m other h)) =
           (case (deref h m, deref h other) of
              (None, d) \<Rightarrow> d | (Some c, None) \<Rightarrow> Some c | (Some c, Some d) \<Rightarrow> Some (c ++ d)) \<and>
         (\<forall>r. r \<noteq> m \<longrightarrow> deref (snd (Merge m other h)) r = deref h r)"
  using assms Merge_deref [OF assms, of other]
  by (cases m) (auto simp: Merge_def merge_value_def deref_def split: option.split)

theorem Metadata_Merge_overrides_witness:
  "\<exists>h :: map_heap. deref h (Some 1) = Some [''a'' \<mapsto> ''2''] \<and>
     fst (Merge (Some 0) (Some 1) h) = Some 0 \<and>
     deref (snd (Merge (Some 0) (Some 1) h)) (Some 0) = Some [''a'' \<mapsto> ''2'', ''b'' \<mapsto> ''1''] \<and>
     deref (snd (Merge (Some 0) (Some 1) h)) (Some 1) = Some [''a'' \<mapsto> ''2'']"
proof -
  define h where "h = \<lparr>next_ref = 2, cells = [0 \<mapsto> [''a'' \<mapsto> ''1'', ''b'' \<mapsto> ''1''], 1 \<mapsto> [''a'' \<mapsto> ''2'']]\<rparr>"
  have "points_into h (Some 0)" by (simp add: h_def)
  note * = Metadata_Merge_overrides [OF this, of "Some 1"]
  have d: "deref h (Some 0) = Some [''a'' \<mapsto> ''1'', ''b'' \<mapsto> ''1'']" "deref h (Some 1) = Some [''a'' \<mapsto> ''2'']"
    by (simp_all add: deref_def h_def)
  have m: "[''a'' \<mapsto> ''1'', ''b'' \<mapsto> ''1''] ++ [''a'' \<mapsto> ''2''] = [''a'' \<mapsto> ''2'', ''b'' \<mapsto> ''1'']"
    by (auto simp: fun_eq_iff)
  from * have f: "fst (Merge (Some 0) (Some 1) h) = Some 0" by simp
  from * [unfolded f] f show ?thesis by (intro exI [of _ h]) (simp add: d m fun_upd_twist del: One_nat_def)
qed

end
