(* ===== verification/Message_Stream.thy ===== *)
theory Message_Stream
  imports Message
begin

text \<open>
  Package \<open>message\<close>, file \<open>message/stream.go\<close>: the single-use stream, and the Go loop
  \<open>for v := range stream.Iter() { ... }\<close> that consumes it.

  A producer is a Go callback \<open>func(yield func(T) bool) error\<close>. It is modelled by what it does
  with \<open>yield\<close>: either it returns its error, or it calls \<open>yield\<close> with a value and continues
  according to the answer. \<open>'st\<close> is the state the producer reads and may write (the event store
  behind it); it is passed in when the producer starts and given back when it returns.
\<close>

datatype ('a, 'st) producer =
    Return "error option" 'st
  | Yield 'a "bool \<Rightarrow> ('a, 'st) producer"

definition ErrAlreadyIterated :: error where
  "ErrAlreadyIterated = Sentinel ''message.Stream: already iterated''"

record ('a, 'st) Stream =
  produce :: "'st \<Rightarrow> ('a, 'st) producer"
  iterated :: bool
  err :: "error option"

definition NewStream :: "('st \<Rightarrow> ('a, 'st) producer) \<Rightarrow> ('a, 'st) Stream" where
  "NewStream p = \<lparr>produce = p, iterated = False, err = None\<rparr>"

text \<open>
  \<open>Iter\<close> returns one of two closures: the empty sequence, or the one that runs the producer
  and stores its error in the stream it was made from.
\<close>

datatype Seq = EmptySeq | ProducerSeq

definition Iter :: "('a, 'st) Stream \<Rightarrow> Seq \<times> ('a, 'st) Stream" where
  "Iter s = (if iterated s then (EmptySeq, s\<lparr>err := Some ErrAlreadyIterated\<rparr>)
             else (ProducerSeq, s\<lparr>iterated := True\<rparr>))"

definition Err :: "('a, 'st) Stream \<Rightarrow> error option" where
  "Err s = err s"

section \<open>Ranging over a sequence\<close>

text \<open>
  The loop body runs on the consumer's state \<open>'s\<close> and returns \<open>None\<close> to go on (also for
  \<open>continue\<close>) or \<open>Some r\<close> to leave the loop (\<open>break\<close> or \<open>return\<close>); the compiler turns it
  into the \<open>yield\<close> function, true to go on. A producer that calls \<open>yield\<close> again after a false
  answer makes the Go runtime panic: the outer result is \<open>None\<close>.
\<close>

primrec run_producer ::
  "('a, 'st) producer \<Rightarrow> ('a \<Rightarrow> 's \<Rightarrow> 'r option \<times> 's) \<Rightarrow> 's \<Rightarrow>
   ('r option \<times> error option \<times> 'st \<times> 's) option" where
  "run_producer (Return e st) body s = Some (None, e, st, s)"
| "run_producer (Yield a k) body s =
     (case body a s of
        (None, s') \<Rightarrow> run_producer (k True) body s'
      | (Some r, s') \<Rightarrow>
          (case k False of
             Return e st \<Rightarrow> Some (Some r, e, st, s')
           | Yield _ _ \<Rightarrow> None))"

definition range_over ::
  "Seq \<Rightarrow> ('a \<Rightarrow> 's \<Rightarrow> 'r option \<times> 's) \<Rightarrow> ('a, 'st) Stream \<Rightarrow> 'st \<Rightarrow> 's \<Rightarrow>
   ('r option \<times> ('a, 'st) Stream \<times> 'st \<times> 's) option" where
  "range_over seq body strm st s =
     (case seq of
        EmptySeq \<Rightarrow> Some (None, strm, st, s)
      | ProducerSeq \<Rightarrow>
          (case run_producer (produce strm st) body s of
             None \<Rightarrow> None
           | Some (exit, e, st', s') \<Rightarrow> Some (exit, strm\<lparr>err := e\<rparr>, st', s')))"

text \<open>
  \<open>for v := range s.Iter() { body }\<close>. A consumer that keeps the sequence of one call to \<open>Iter\<close> and ranges over it
  several times is \<open>range_over\<close> on that sequence.
\<close>

definition for_range ::
  "('a \<Rightarrow> 's \<Rightarrow> 'r option \<times> 's) \<Rightarrow> ('a, 'st) Stream \<Rightarrow> 'st \<Rightarrow> 's \<Rightarrow>
   ('r option \<times> ('a, 'st) Stream \<times> 'st \<times> 's) option" where
  "for_range body strm st s = (let (seq, strm') = Iter strm in range_over seq body strm' st s)"

section \<open>Producers that respect yield\<close>

text \<open>
  The contract of \<open>NewStream\<close>: after a false answer the producer stops and returns nil.
\<close>

primrec respects_yield :: "('a, 'st) producer \<Rightarrow> bool" where
  "respects_yield (Return e st) = True"
| "respects_yield (Yield a k) =
     (respects_yield (k True) \<and> (case k False of Return e st \<Rightarrow> e = None | Yield _ _ \<Rightarrow> False))"

text \<open>What a producer pushes when it is never stopped, its error and its final state.\<close>

primrec yielded :: "('a, 'st) producer \<Rightarrow> 'a list" where
  "yielded (Return e st) = []"
| "yielded (Yield a k) = a # yielded (k True)"

primrec terminal :: "('a, 'st) producer \<Rightarrow> error option \<times> 'st" where
  "terminal (Return e st) = (e, st)"
| "terminal (Yield a k) = terminal (k True)"

text \<open>The loop over a plain list, for the specification.\<close>

primrec for_each :: "('a \<Rightarrow> 's \<Rightarrow> 'r option \<times> 's) \<Rightarrow> 'a list \<Rightarrow> 's \<Rightarrow> 'r option \<times> 's" where
  "for_each body [] s = (None, s)"
| "for_each body (x # xs) s =
     (case body x s of (None, s') \<Rightarrow> for_each body xs s' | (Some r, s') \<Rightarrow> (Some r, s'))"

text \<open>
  A respectful producer never panics, and the loop over it is the loop over the values it
  pushes: run to the end it reports the producer's terminal error, left early it reports none.
\<close>

lemma run_producer_respects:
  assumes "respects_yield p"
  shows "\<exists>e st. run_producer p body s =
           Some (fst (for_each body (yielded p) s), e, st, snd (for_each body (yielded p) s)) \<and>
         (if fst (for_each body (yielded p) s) = None then (e, st) = terminal p else e = None)"
  using assms
proof (induction p arbitrary: s)
  case (Return e st)
  then show ?case by simp
next
  case (Yield a k)
  obtain r s' where b: "body a s = (r, s')" by fastforce
  show ?case
  proof (cases r)
    case None
    from Yield.prems have "respects_yield (k True)" by simp
    from Yield.IH [OF rangeI this, of s'] obtain e st where
      "run_producer (k True) body s' =
         Some (fst (for_each body (yielded (k True)) s'), e, st, snd (for_each body (yielded (k True)) s'))"
      and "if fst (for_each body (yielded (k True)) s') = None then (e, st) = terminal (k True) else e = None"
      by blast
    with b None show ?thesis by (intro exI [of _ e] exI [of _ st]) simp
  next
    case (Some r')
    with Yield.prems b show ?thesis by (cases "k False") auto
  qed
qed

text \<open>
  The producers of the repository all push a list and return: \<open>feed xs e st\<close>.
\<close>

primrec feed :: "'a list \<Rightarrow> error option \<Rightarrow> 'st \<Rightarrow> ('a, 'st) producer" where
  "feed [] e st = Return e st"
| "feed (x # xs) e st = Yield x (\<lambda>go. if go then feed xs e st else Return None st)"

lemma respects_yield_feed [simp]: "respects_yield (feed xs e st)"
  by (induction xs) auto

lemma yielded_feed [simp]: "yielded (feed xs e st) = xs"
  by (induction xs) auto

lemma terminal_feed [simp]: "terminal (feed xs e st) = (e, st)"
  by (induction xs) auto

lemma run_feed [stream_simps]:
  "run_producer (feed xs e st) body s =
     Some (fst (for_each body xs s),
           if fst (for_each body xs s) = None then e else None, st, snd (for_each body xs s))"
  by (induction xs arbitrary: s) (auto split: prod.splits option.splits)

lemma for_range_fresh [stream_simps]:
  assumes "\<not> iterated strm" and "produce strm st = feed xs e st'"
  shows "for_range body strm st s =
     Some (fst (for_each body xs s),
           strm\<lparr>iterated := True, err := if fst (for_each body xs s) = None then e else None\<rparr>,
           st', snd (for_each body xs s))"
  using assms by (simp add: for_range_def Iter_def range_over_def run_feed)

lemma for_range_spent [stream_simps]:
  "iterated strm \<Longrightarrow>
   for_range body strm st s = Some (None, strm\<lparr>err := Some ErrAlreadyIterated\<rparr>, st, s)"
  by (simp add: for_range_def Iter_def range_over_def)

lemma for_range_iterated:
  "for_range body strm st s = Some (r, strm', st', s') \<Longrightarrow> iterated strm'"
  by (auto simp: for_range_def Iter_def range_over_def split: if_splits option.splits)

lemma NewStream_simps [simp]:
  "produce (NewStream p) = p" "\<not> iterated (NewStream p)" "Err (NewStream p) = None"
  by (simp_all add: NewStream_def Err_def)

lemma for_each_append:
  "for_each body (xs @ ys) s =
     (case for_each body xs s of (None, s') \<Rightarrow> for_each body ys s' | (Some r, s') \<Rightarrow> (Some r, s'))"
  by (induction xs arbitrary: s) (auto split: prod.splits option.splits)

text \<open>
  A stream over one component of a larger state: \<open>get\<close> and \<open>put\<close> reach the component.
\<close>

definition stream_on :: "('w \<Rightarrow> 'st) \<Rightarrow> ('st \<Rightarrow> 'w \<Rightarrow> 'w) \<Rightarrow> ('a, 'st) Stream \<Rightarrow> ('a, 'w) Stream" where
  "stream_on get put strm =
     \<lparr>produce = (\<lambda>w. map_producer (\<lambda>x. x) (\<lambda>st. put st w) (produce strm (get w))),
      iterated = iterated strm, err = err strm\<rparr>"

lemma map_producer_feed [simp]: "map_producer f g (feed xs e st) = feed (map f xs) e (g st)"
  by (induction xs) (auto simp: fun_eq_iff)

lemma stream_on_simps [simp]:
  "iterated (stream_on get put strm) = iterated strm"
  "err (stream_on get put strm) = err strm"
  "produce (stream_on get put strm) w =
     map_producer (\<lambda>x. x) (\<lambda>st. put st w) (produce strm (get w))"
  by (simp_all add: stream_on_def)

text \<open>Collecting everything a loop sees.\<close>

lemma for_each_collect:
  "for_each (\<lambda>x acc. (None :: 'r option, acc @ [x])) xs acc = (None, acc @ xs)"
  by (induction xs arbitrary: acc) auto

section \<open>Properties\<close>

text \<open>Loops over one stream, each with its own call to \<open>Iter\<close>, body and states: how each ends, \<open>Err\<close> after it, and its states.\<close>

primrec for_ranges ::
  "(('a \<Rightarrow> 's \<Rightarrow> 'r option \<times> 's) \<times> 'st \<times> 's) list \<Rightarrow> ('a, 'st) Stream \<Rightarrow>
   (('r option \<times> error option \<times> 'st \<times> 's) list \<times> ('a, 'st) Stream) option" where
  "for_ranges [] strm = Some ([], strm)"
| "for_ranges (l # ls) strm =
     (case l of (body, st, s) \<Rightarrow>
        (case for_range body strm st s of
           None \<Rightarrow> None
         | Some (exit, strm', st', s') \<Rightarrow>
             map_option (\<lambda>(outs, strm''). ((exit, Err strm', st', s') # outs, strm'')) (for_ranges ls strm')))"

lemma for_ranges_spent:
  "iterated strm \<Longrightarrow> \<exists>e. for_ranges ls strm =
     Some (map (\<lambda>(body, st, s). (None, Some ErrAlreadyIterated, st, s)) ls, strm\<lparr>err := e\<rparr>)"
proof (induction ls arbitrary: strm)
  case Nil
  show ?case by (rule exI [of _ "err strm"]) simp
next
  case (Cons l ls)
  from Cons.IH [of "strm\<lparr>err := Some ErrAlreadyIterated\<rparr>"] Cons.prems show ?case
    by (cases l) (auto simp: for_range_spent Err_def)
qed

lemma range_producer_respects:
  fixes body :: "'a \<Rightarrow> 's \<Rightarrow> 'r option \<times> 's"
  assumes "respects_yield (produce strm st)"
  obtains e st' where "range_over ProducerSeq body strm st s =
      Some (fst (for_each body (yielded (produce strm st)) s), strm\<lparr>err := e\<rparr>, st', snd (for_each body (yielded (produce strm st)) s))"
    and "e = (if fst (for_each body (yielded (produce strm st)) s) = None then fst (terminal (produce strm st)) else None)"
    and "fst (for_each body (yielded (produce strm st)) s) = None \<longrightarrow> st' = snd (terminal (produce strm st))"
  using run_producer_respects [OF assms, of body s] that
  by (auto simp: range_over_def prod_eq_iff split: if_splits)

text \<open>C16: A stream whose producer keeps the contract of \<open>NewStream\<close> never panics, and its first loop
  sees what the producer pushes until the body leaves the loop; \<open>Err\<close> is then the producer's error,
  or nil when the consumer left. Every later loop over the stream, however many there are and whatever they
  do, sees nothing, changes nothing and leaves \<open>Err\<close> at \<open>ErrAlreadyIterated\<close>. Only a consumer that kept the
  sequence of the first call to \<open>Iter\<close> and ranges over it once more runs the producer again, and \<open>Err\<close> is then that run's.\<close>

theorem Stream_single_use:
  fixes body :: "'a \<Rightarrow> 's \<Rightarrow> 'r option \<times> 's"
  assumes "\<not> iterated strm" and "respects_yield (produce strm st)"
  shows "\<exists>st' strm'.
     for_ranges ((body, st, s) # later) strm =
       Some ((fst (for_each body (yielded (produce strm st)) s),
              if fst (for_each body (yielded (produce strm st)) s) = None then fst (terminal (produce strm st)) else None,
              st', snd (for_each body (yielded (produce strm st)) s)) #
             map (\<lambda>(body2, st2, s2). (None, Some ErrAlreadyIterated, st2, s2)) later, strm') \<and>
     (fst (for_each body (yielded (produce strm st)) s) = None \<longrightarrow> st' = snd (terminal (produce strm st))) \<and>
     (\<forall>(body2 :: 'a \<Rightarrow> 's \<Rightarrow> 'r option \<times> 's) st2 s2. respects_yield (produce strm st2) \<longrightarrow>
        (\<exists>strm2 st3. range_over (fst (Iter strm)) body2 strm' st2 s2 =
           Some (fst (for_each body2 (yielded (produce strm st2)) s2), strm2, st3,
                 snd (for_each body2 (yielded (produce strm st2)) s2)) \<and>
         Err strm2 = (if fst (for_each body2 (yielded (produce strm st2)) s2) = None
                      then fst (terminal (produce strm st2)) else None)))"
proof -
  let ?out = "for_each body (yielded (produce strm st)) s"
  let ?strm = "strm\<lparr>iterated := True\<rparr>"
  have first: "Iter strm = (ProducerSeq, ?strm)" using assms(1) by (simp add: Iter_def)
  have "respects_yield (produce ?strm st)" using assms(2) by simp
  then obtain e st' where run: "range_over ProducerSeq body ?strm st s = Some (fst ?out, ?strm\<lparr>err := e\<rparr>, st', snd ?out)"
    and e: "e = (if fst ?out = None then fst (terminal (produce strm st)) else None)"
      "fst ?out = None \<longrightarrow> st' = snd (terminal (produce strm st))"
    by (rule range_producer_respects [where strm = ?strm and st = st and body = body and s = s]) simp
  have loop: "for_range body strm st s = Some (fst ?out, ?strm\<lparr>err := e\<rparr>, st', snd ?out)"
    using run by (simp add: for_range_def first)
  obtain e' where later: "for_ranges later (?strm\<lparr>err := e\<rparr>) =
      Some (map (\<lambda>(body2, st2, s2). (None, Some ErrAlreadyIterated, st2, s2)) later, ?strm\<lparr>err := e'\<rparr>)"
    using for_ranges_spent [of "?strm\<lparr>err := e\<rparr>" later] by auto
  have again: "\<exists>strm2 st3. range_over (fst (Iter strm)) body2 (?strm\<lparr>err := e'\<rparr>) st2 s2 =
        Some (fst (for_each body2 (yielded (produce strm st2)) s2), strm2, st3, snd (for_each body2 (yielded (produce strm st2)) s2)) \<and>
      Err strm2 = (if fst (for_each body2 (yielded (produce strm st2)) s2) = None then fst (terminal (produce strm st2)) else None)"
    if r: "respects_yield (produce strm st2)" for body2 :: "'a \<Rightarrow> 's \<Rightarrow> 'r option \<times> 's" and st2 s2
  proof -
    let ?strm2 = "?strm\<lparr>err := e'\<rparr>"
    have "respects_yield (produce ?strm2 st2)" using r by simp
    then show ?thesis
      by (rule range_producer_respects [where strm = ?strm2 and st = st2 and body = body2 and s = s2])
        (auto simp: first Err_def)
  qed
  show ?thesis
    by (rule exI [of _ st'], rule exI [of _ "?strm\<lparr>err := e'\<rparr>"]) (use loop later e again in \<open>simp add: Err_def\<close>)
qed

theorem Stream_single_use_witness:
  "\<exists>strm'. for_ranges
       [(\<lambda>x acc. (None :: unit option, x # acc), (), []), (\<lambda>x acc. (None, acc), (), [7]), (\<lambda>x acc. (Some (), acc), (), [8])]
       (NewStream (feed [1 :: nat, 2] None)) =
     Some ([(None, None, (), [2, 1]), (None, Some ErrAlreadyIterated, (), [7]), (None, Some ErrAlreadyIterated, (), [8])], strm')"
  using Stream_single_use [of "NewStream (feed [1 :: nat, 2] None)" "()" "\<lambda>x acc. (None :: unit option, x # acc)" "[]"
      "[(\<lambda>x acc. (None, acc), (), [7]), (\<lambda>x acc. (Some (), acc), (), [8])]"] by simp blast

end
