(* ===== verification/Event.thy ===== *)
theory Event
  imports Message_Stream
begin

text \<open>
  Package \<open>event\<close>, files \<open>event/event.go\<close>, \<open>event/store.go\<close> and \<open>event/processor.go\<close>: envelopes
  of domain events, persisted events, the interfaces \<open>Appender\<close>, \<open>Streamer\<close>, \<open>Store\<close> and
  \<open>Processor\<close>, and the contract every event store promises as the locale \<open>event_store\<close>.

  \<open>'m\<close> is the interface type \<open>message.Message\<close>: the universe of the messages of a program.
\<close>

section \<open>Envelopes and persisted events\<close>

type_synonym StreamID = string

record 'm Persisted =
  StreamID :: StreamID
  Version :: Version
  Envelope :: "'m Envelope"

definition ToEnvelope :: "'m \<Rightarrow> 'm Envelope" where
  [go_defs]: "ToEnvelope event = \<lparr>Message = event, Metadata = None\<rparr>"

primrec ToEnvelopes_loop :: "'m list \<Rightarrow> 'm Envelope list \<Rightarrow> 'm Envelope list" where
  "ToEnvelopes_loop [] envelopes = envelopes"
| "ToEnvelopes_loop (event # events) envelopes =
     ToEnvelopes_loop events (envelopes @ [\<lparr>Message = event, Metadata = None\<rparr>])"

definition ToEnvelopes :: "'m list \<Rightarrow> 'm Envelope list" where
  "ToEnvelopes events = ToEnvelopes_loop events []"

lemma ToEnvelopes_loop_eq: "ToEnvelopes_loop events acc = acc @ map ToEnvelope events"
  by (induction events arbitrary: acc) (auto simp: go_defs)

lemma ToEnvelopes_eq: "ToEnvelopes events = map ToEnvelope events"
  by (simp add: ToEnvelopes_def ToEnvelopes_loop_eq)

section \<open>Streams of persisted events\<close>

primrec slice_loop :: "'m Persisted list \<Rightarrow> 'st \<Rightarrow> ('m Persisted, 'st) producer" where
  "slice_loop [] st = Return None st"
| "slice_loop (evt # events) st =
     Yield evt (\<lambda>go. if \<not> go then Return None st else slice_loop events st)"

text \<open>\<open>event.NewStream\<close> is that of package \<open>message\<close>.\<close>

definition event_NewStream :: "('st \<Rightarrow> ('m Persisted, 'st) producer) \<Rightarrow> ('m Persisted, 'st) Stream" where
  [go_defs]: "event_NewStream produce' = NewStream produce'"

definition SliceToStream :: "'m Persisted list \<Rightarrow> ('m Persisted, 'st) Stream" where
  "SliceToStream events = NewStream (slice_loop events)"

lemma slice_loop_feed [simp]: "slice_loop events st = feed events None st"
  by (induction events) (auto simp: fun_eq_iff)

lemma SliceToStream_simps [simp]:
  "produce (SliceToStream events) st = feed events None st" "\<not> iterated (SliceToStream events)"
  by (simp_all add: SliceToStream_def)

section \<open>Contexts, stores and processors\<close>

text \<open>
  A \<open>context.Context\<close> is seen through \<open>ctx.Err()\<close>, whose answer can change between two calls:
  \<open>ctx i\<close> is the answer of the \<open>i\<close>-th check a stream makes. \<open>Background\<close> is never cancelled.
\<close>

type_synonym ctx = "nat \<Rightarrow> error option"

definition Background :: ctx where
  "Background = (\<lambda>_. None)"

definition Canceled :: error where
  "Canceled = Sentinel ''context canceled''"

text \<open>The interface \<open>Store\<close> as its method table, over the state \<open>'st\<close> behind the receiver.\<close>

type_synonym ('m, 'st) Appender =
  "ctx \<Rightarrow> StreamID \<Rightarrow> Check \<Rightarrow> 'm Envelope list \<Rightarrow> 'st \<Rightarrow> (Version \<times> error option) \<times> 'st"

type_synonym ('m, 'st) Streamer =
  "ctx \<Rightarrow> StreamID \<Rightarrow> Selector \<Rightarrow> ('m Persisted, 'st) Stream"

record ('m, 'st) Store =
  Append :: "('m, 'st) Appender"
  Stream :: "('m, 'st) Streamer"

definition FusedStore :: "('m, 'st) Appender \<Rightarrow> ('m, 'st) Streamer \<Rightarrow> ('m, 'st) Store" where
  [go_defs]: "FusedStore appender streamer = \<lparr>Append = appender, Stream = streamer\<rparr>"

text \<open>\<open>Processor\<close>: a handler of persisted events with its own state \<open>'h\<close>.\<close>

type_synonym ('m, 'h) Processor = "'m Persisted \<Rightarrow> 'h \<Rightarrow> error option \<times> 'h"

definition ProcessorFunc_Process :: "('m, 'h) Processor \<Rightarrow> 'm Persisted \<Rightarrow> 'h \<Rightarrow> error option \<times> 'h" where
  [go_defs]: "ProcessorFunc_Process pf event h = pf event h"

section \<open>The contract of an event store\<close>

text \<open>
  The abstract state of a store is a log of envelopes per stream. \<open>persisted_from sid v\<close> numbers
  envelopes upwards from version \<open>v + 1\<close>.
\<close>

primrec persisted_from :: "StreamID \<Rightarrow> Version \<Rightarrow> 'm Envelope list \<Rightarrow> 'm Persisted list" where
  "persisted_from sid v [] = []"
| "persisted_from sid v (e # es) =
     \<lparr>StreamID = sid, Version = v + 1, Envelope = e\<rparr> # persisted_from sid (v + 1) es"

definition selects :: "Selector \<Rightarrow> 'm Persisted \<Rightarrow> bool" where
  "selects selector evt \<longleftrightarrow> From selector \<le> Version evt"

primrec check_passes :: "Check \<Rightarrow> Version \<Rightarrow> bool" where
  "check_passes CheckAny v \<longleftrightarrow> True"
| "check_passes (CheckExact v') v \<longleftrightarrow> v = v'"

abbreviation version_of :: "'m Envelope list \<Rightarrow> Version" where
  "version_of es \<equiv> word_of_nat (length es)"

lemma length_persisted_from [simp]: "length (persisted_from sid v es) = length es"
  by (induction es arbitrary: v) auto

lemma map_Envelope_persisted_from [simp]: "map Envelope (persisted_from sid v es) = es"
  by (induction es arbitrary: v) auto

lemma persisted_from_append:
  "persisted_from sid v (xs @ ys) = persisted_from sid v xs @ persisted_from sid (v + version_of xs) ys"
  by (induction xs arbitrary: v) (auto simp: algebra_simps)

lemma persisted_from_nth:
  "i < length es \<Longrightarrow> persisted_from sid v es ! i =
     \<lparr>StreamID = sid, Version = v + word_of_nat i + 1, Envelope = es ! i\<rparr>"
  by (induction es arbitrary: v i) (auto simp: nth_Cons algebra_simps split: nat.splits)

lemma selects_from_beginning [simp]: "selects SelectFromBeginning evt"
  by (simp add: selects_def SelectFromBeginning_def)

lemma filter_selects_beginning [simp]: "filter (selects SelectFromBeginning) evts = evts"
  by (simp add: filter_id_conv)

text \<open>A sequence of appends, each with its outcome, and the non-empty ones that succeeded on a stream
  with the expected version \<open>v\<close>.\<close>

fun append_results ::
  "('m, 'st) Appender \<Rightarrow> ctx \<Rightarrow> (StreamID \<times> Check \<times> 'm Envelope list) list \<Rightarrow> 'st \<Rightarrow>
   (Version \<times> error option) list \<times> 'st" where
  "append_results store_append ctx [] st = ([], st)"
| "append_results store_append ctx ((sid, expected, evts) # ops) st =
     (let (r, st') = store_append ctx sid expected evts st;
          (rs, st'') = append_results store_append ctx ops st'
      in (r # rs, st''))"

definition winners ::
  "StreamID \<Rightarrow> Version \<Rightarrow> (StreamID \<times> Check \<times> 'm Envelope list) list \<Rightarrow> (Version \<times> error option) list \<Rightarrow>
   ((StreamID \<times> Check \<times> 'm Envelope list) \<times> Version \<times> error option) list" where
  "winners sid v ops rs =
     filter (\<lambda>((s, c, es), r). s = sid \<and> c = CheckExact v \<and> es \<noteq> [] \<and> snd r = None) (zip ops rs)"

text \<open>
  Two contracts over the log of envelopes that a state holds for each stream. A reader of events:
  \<^item> under a live context, a stream pushes the selected part of the log, numbered from 1, and
    ends without error; it reads the log when it is iterated, not when it is opened.

  An event store, beyond that:
  \<^item> an append whose check passes extends the log of its stream and returns the new version;
  \<^item> one whose check fails changes no log and reports the versions as a \<open>ConflictError\<close>.
\<close>

locale event_reader =
  fixes stream :: "('m, 'st) Streamer"
    and log :: "'st \<Rightarrow> StreamID \<Rightarrow> 'm Envelope list"
    and invar :: "'st \<Rightarrow> bool"
  assumes stream_fresh: "\<not> iterated (stream ctx sid selector)"
    and stream_feed:
      "invar st \<Longrightarrow>
       \<exists>st'. produce (stream Background sid selector) st =
               feed (filter (selects selector) (persisted_from sid 0 (log st sid))) None st' \<and>
             log st' = log st \<and> invar st'"
begin

lemma for_range_stream:
  assumes "invar st"
  shows "\<exists>strm st'. for_range body (stream Background sid selector) st s =
           Some (fst (for_each body (filter (selects selector) (persisted_from sid 0 (log st sid))) s),
                 strm, st',
                 snd (for_each body (filter (selects selector) (persisted_from sid 0 (log st sid))) s)) \<and>
         Err strm = None \<and> log st' = log st \<and> invar st'"
proof -
  from stream_feed [OF assms, of sid selector] obtain st' where
    p: "produce (stream Background sid selector) st =
          feed (filter (selects selector) (persisted_from sid 0 (log st sid))) None st'"
    and "log st' = log st" "invar st'" by blast
  with for_range_fresh [OF stream_fresh p, of body s] show ?thesis by (simp add: Err_def)
qed

end

locale event_store = event_reader stream log invar
  for append :: "('m, 'st) Appender"
    and stream :: "('m, 'st) Streamer"
    and log :: "'st \<Rightarrow> StreamID \<Rightarrow> 'm Envelope list"
    and invar :: "'st \<Rightarrow> bool" +
  assumes append_ok:
      "invar st \<Longrightarrow> check_passes expected (version_of (log st sid)) \<Longrightarrow>
       \<exists>st'. append ctx sid expected evs st = ((version_of (log st sid @ evs), None), st') \<and>
             log st' = (log st)(sid := log st sid @ evs) \<and> invar st'"
    and append_conflict:
      "invar st \<Longrightarrow> v \<noteq> version_of (log st sid) \<Longrightarrow>
       \<exists>e st'. append ctx sid (CheckExact v) evs st = ((0, Some e), st') \<and>
             caused_by e (Conflict \<lparr>Expected = v, Actual = version_of (log st sid)\<rparr>) \<and>
             log st' = log st \<and> invar st'"
begin

lemma append_cases:
  assumes "invar st"
  obtains (ok) st' where "check_passes expected (version_of (log st sid))"
      "append ctx sid expected evs st = ((version_of (log st sid @ evs), None), st')"
      "log st' = (log st)(sid := log st sid @ evs)" "invar st'"
  | (conflict) v e st' where "expected = CheckExact v" "v \<noteq> version_of (log st sid)"
      "append ctx sid expected evs st = ((0, Some e), st')"
      "caused_by e (Conflict \<lparr>Expected = v, Actual = version_of (log st sid)\<rparr>)"
      "log st' = log st" "invar st'"
proof (cases "check_passes expected (version_of (log st sid))")
  case True
  from append_ok [OF assms True, of ctx evs] show thesis using ok [OF True] by blast
next
  case False
  then obtain v where v: "expected = CheckExact v" "v \<noteq> version_of (log st sid)"
    by (cases expected) auto
  from append_conflict [OF assms v(2), of ctx evs] show thesis
    using conflict [OF v] v(1) by blast
qed

text \<open>No operation changes another stream, and a log only grows.\<close>

lemma append_invar: "invar st \<Longrightarrow> append ctx sid expected evs st = (r, st') \<Longrightarrow> invar st'"
  by (erule append_cases [of st expected sid ctx evs]) auto

lemma append_log_cases:
  assumes "invar st" and "append ctx sid expected evs st = ((v, e), st')"
  shows "log st' = (case e of None \<Rightarrow> (log st)(sid := log st sid @ evs) | Some _ \<Rightarrow> log st)"
  using assms by - (erule append_cases [of st expected sid ctx evs], auto)

text \<open>
  Runs of appends with their outcomes. When \<open>n\<close> more events can be appended without the version
  wrapping around, the version of a stream never comes back to an earlier one.
\<close>

lemma append_results_beyond:
  assumes "invar st" and "unat v < length (log st sid)"
    and "length (log st sid) + sum_list (map (\<lambda>(s, c, es). length es) ops) < 2 ^ 32"
  shows "winners sid v ops (fst (append_results append ctx ops st)) = []"
  using assms
proof (induction ops arbitrary: st)
  case Nil
  then show ?case by (simp add: winners_def)
next
  case (Cons oper ops)
  obtain s c es where o: "oper = (s, c, es)" by (cases oper)
  obtain r st' where a: "append ctx s c es st = (r, st')" by fastforce
  have lose: "\<not> (s = sid \<and> c = CheckExact v \<and> snd r = None)"
  proof
    assume *: "s = sid \<and> c = CheckExact v \<and> snd r = None"
    have "length (log st sid) < 2 ^ 32" using Cons.prems(3) by simp
    then have "v \<noteq> version_of (log st sid)" using Cons.prems(2) by (auto simp: unat_len32)
    from append_conflict [OF Cons.prems(1) this, of ctx es] a * show False by auto
  qed
  have log': "log st' sid = log st sid \<or> log st' sid = log st sid @ es \<and> s = sid"
    using append_log_cases [OF Cons.prems(1), of ctx s c es "fst r" "snd r" st'] a
    by (cases r) (auto split: option.splits)
  then have "length (log st' sid) \<le> length (log st sid) + length es" "length (log st sid) \<le> length (log st' sid)"
    by auto
  with Cons.prems(2,3) Cons.IH [OF append_invar [OF Cons.prems(1) a]]
  have "winners sid v ops (fst (append_results append ctx ops st')) = []" by (simp add: o)
  with lose show ?case by (auto simp: o a winners_def split: prod.splits)
qed

lemma append_results_winner:
  assumes "invar st"
    and "length (log st sid) + sum_list (map (\<lambda>(s, c, es). length es) ops) < 2 ^ 32"
  shows "length (winners sid v ops (fst (append_results append ctx ops st))) \<le> 1"
  using assms
proof (induction ops arbitrary: st)
  case Nil
  then show ?case by (simp add: winners_def)
next
  case (Cons oper ops)
  obtain s c es where o: "oper = (s, c, es)" by (cases oper)
  obtain r st' where a: "append ctx s c es st = (r, st')" by fastforce
  note inv = append_invar [OF Cons.prems(1) a]
  have log': "log st' = (case snd r of None \<Rightarrow> (log st)(s := log st s @ es) | Some _ \<Rightarrow> log st)"
    using append_log_cases [OF Cons.prems(1), of ctx s c es "fst r" "snd r" st'] a by simp
  show ?case
  proof (cases "s = sid \<and> c = CheckExact v \<and> es \<noteq> [] \<and> snd r = None")
    case True
    then have "v = version_of (log st sid)"
      using append_conflict [OF Cons.prems(1), of v sid ctx es] a by force
    moreover have "length (log st sid) < 2 ^ 32" using Cons.prems(2) by simp
    ultimately have "unat v < length (log st' sid)" using True log' by (simp add: unat_len32)
    moreover have "length (log st' sid) + sum_list (map (\<lambda>(s, c, es). length es) ops) < 2 ^ 32"
      using Cons.prems(2) True log' by (simp add: o)
    ultimately have "winners sid v ops (fst (append_results append ctx ops st')) = []"
      by (rule append_results_beyond [OF inv])
    then show ?thesis by (auto simp: o a winners_def split: prod.splits)
  next
    case False
    have "length (log st' sid) \<le> length (log st sid) + length es"
      using log' by (auto split: option.splits)
    with Cons.prems(2) Cons.IH [OF inv] have
      "length (winners sid v ops (fst (append_results append ctx ops st'))) \<le> 1" by (simp add: o)
    with False show ?thesis by (auto simp: o a winners_def split: prod.splits)
  qed
qed

end

end
