(* ===== verification/Aggregate.thy ===== *)
theory Aggregate
  imports Event
begin

text \<open>
  Package \<open>aggregate\<close>, file \<open>aggregate/aggregate.go\<close>: the base of every aggregate root, recording
  domain events, and the contract of a root's \<open>Apply\<close> as the locale \<open>aggregate_root\<close>.

  A Go type that embeds \<open>aggregate.BaseRoot\<close> is a record that extends \<open>BaseRoot\<close>: \<open>'z\<close> holds its
  own fields, and the methods of \<open>BaseRoot\<close> work on any extension.
\<close>

record 'm BaseRoot =
  version :: Version
  recordedEvents :: "'m Envelope list"

text \<open>
  \<open>Apply\<close> mutates its receiver and may fail; what it changed before failing stays.
\<close>

type_synonym ('m, 'r) apply_method = "'m \<Rightarrow> 'r \<Rightarrow> 'r \<times> error option"

text \<open>
  \<open>Type[I, T]\<close> with the methods of its type arguments: \<open>Apply\<close> and \<open>AggregateID\<close> of the root type
  \<open>T\<close> and \<open>String\<close> of the identifier type \<open>I\<close>.
\<close>

record ('id, 'm, 'z) Type =
  Name :: string
  Factory :: "unit \<Rightarrow> ('m, 'z) BaseRoot_scheme"
  Apply :: "('m, ('m, 'z) BaseRoot_scheme) apply_method"
  AggregateID :: "('m, 'z) BaseRoot_scheme \<Rightarrow> 'id"
  String :: "'id \<Rightarrow> string"

definition FlushRecordedEvents ::
  "('m, 'z) BaseRoot_scheme \<Rightarrow> 'm Envelope list \<times> ('m, 'z) BaseRoot_scheme" where
  "FlushRecordedEvents br = (let flushed = recordedEvents br in (flushed, br\<lparr>recordedEvents := []\<rparr>))"

definition setVersion :: "Version \<Rightarrow> ('m, 'z) BaseRoot_scheme \<Rightarrow> ('m, 'z) BaseRoot_scheme" where
  [go_defs]: "setVersion v br = br\<lparr>version := v\<rparr>"

primrec recordThat ::
  "('m, ('m, 'z) BaseRoot_scheme) apply_method \<Rightarrow> 'm Envelope list \<Rightarrow> ('m, 'z) BaseRoot_scheme \<Rightarrow>
   ('m, 'z) BaseRoot_scheme \<times> error option" where
  "recordThat apply_event [] br = (br, None)"
| "recordThat apply_event (event # evts) br =
     (case apply_event (Message event) br of
        (br', Some e) \<Rightarrow> (br', Some (Errorf ''aggregate.BaseRoot: failed to record event, %w'' [e]))
      | (br', None) \<Rightarrow>
          recordThat apply_event evts
            (br'\<lparr>recordedEvents := recordedEvents br' @ [event], version := version br' + 1\<rparr>))"

definition RecordThat ::
  "('id, 'm, 'z) Type \<Rightarrow> 'm Envelope list \<Rightarrow> ('m, 'z) BaseRoot_scheme \<Rightarrow>
   ('m, 'z) BaseRoot_scheme \<times> error option" where
  [go_defs]: "RecordThat typ evts root = recordThat (Apply typ) evts root"

section \<open>Folding events\<close>

text \<open>The specification of event sourcing: the left fold of \<open>Apply\<close>, stopping at an error.\<close>

primrec replay :: "('m, 'r) apply_method \<Rightarrow> 'm list \<Rightarrow> 'r \<Rightarrow> 'r \<times> error option" where
  "replay apply_event [] r = (r, None)"
| "replay apply_event (m # ms) r =
     (case apply_event m r of (r', Some e) \<Rightarrow> (r', Some e) | (r', None) \<Rightarrow> replay apply_event ms r')"

lemma replay_append:
  "replay apply_event (ms @ ns) r =
     (case replay apply_event ms r of (r', None) \<Rightarrow> replay apply_event ns r' | (r', Some e) \<Rightarrow> (r', Some e))"
  by (induction ms arbitrary: r) (auto split: prod.splits option.splits)

lemma replay_append_ok:
  "replay apply_event ms r = (r', None) \<Longrightarrow> replay apply_event (ms @ ns) r = replay apply_event ns r'"
  by (simp add: replay_append)

lemma recordThat_append:
  "recordThat apply_event (xs @ ys) r =
     (case recordThat apply_event xs r of (r', None) \<Rightarrow> recordThat apply_event ys r' | (r', Some e) \<Rightarrow> (r', Some e))"
  by (induction xs arbitrary: r) (auto split: prod.splits option.splits)

text \<open>Setting the two fields of \<open>BaseRoot\<close>, which only the library writes.\<close>

definition at_base ::
  "Version \<Rightarrow> 'm Envelope list \<Rightarrow> ('m, 'z) BaseRoot_scheme \<Rightarrow> ('m, 'z) BaseRoot_scheme" where
  "at_base v es r = r\<lparr>version := v, recordedEvents := es\<rparr>"

lemma at_base_simps [simp]:
  "version (at_base v es r) = v"
  "recordedEvents (at_base v es r) = es"
  "at_base v es (at_base v' es' r) = at_base v es r"
  "at_base (version r) (recordedEvents r) r = r"
  "(at_base v es r)\<lparr>version := v'\<rparr> = at_base v' es r"
  "(at_base v es r)\<lparr>recordedEvents := es'\<rparr> = at_base v es' r"
  by (simp_all add: at_base_def)

lemma at_base_refl: "version r = v \<Longrightarrow> recordedEvents r = es \<Longrightarrow> at_base v es r = r"
  by auto

lemma base_update_at_base:
  "r\<lparr>recordedEvents := es, version := v\<rparr> = at_base v es r"
  "r\<lparr>version := v\<rparr> = at_base v (recordedEvents r) r"
  "r\<lparr>recordedEvents := es\<rparr> = at_base (version r) es r"
  by (simp_all add: at_base_def)

lemma FlushRecordedEvents_eq:
  "FlushRecordedEvents r = (recordedEvents r, at_base (version r) [] r)"
  by (simp add: FlushRecordedEvents_def at_base_def)

text \<open>
  The contract of \<open>Apply\<close>, which the interface documents as free of side effects but for the
  root's own state: it neither reads nor writes the embedded \<open>BaseRoot\<close>.
\<close>

locale aggregate_root =
  fixes apply_event :: "('m, ('m, 'z) BaseRoot_scheme) apply_method"
  assumes apply_oblivious:
    "apply_event m (at_base v es r) = (at_base v es (fst (apply_event m r)), snd (apply_event m r))"
begin

lemma apply_base:
  "version (fst (apply_event m r)) = version r" "recordedEvents (fst (apply_event m r)) = recordedEvents r"
proof -
  have "apply_event m r = (at_base (version r) (recordedEvents r) (fst (apply_event m r)), snd (apply_event m r))"
    using apply_oblivious [of m "version r" "recordedEvents r" r] by simp
  then have eq: "fst (apply_event m r) = at_base (version r) (recordedEvents r) (fst (apply_event m r))"
    by (metis fst_conv)
  show "version (fst (apply_event m r)) = version r" by (subst eq) simp
  show "recordedEvents (fst (apply_event m r)) = recordedEvents r" by (subst eq) simp
qed

lemma replay_oblivious:
  "replay apply_event ms (at_base v es r) = (at_base v es (fst (replay apply_event ms r)), snd (replay apply_event ms r))"
proof (induction ms arbitrary: r)
  case Nil
  then show ?case by simp
next
  case (Cons m ms)
  obtain r' e where a: "apply_event m r = (r', e)" by fastforce
  then show ?case using apply_oblivious [of m v es r] Cons.IH [of r']
    by (cases e) auto
qed

lemma replay_base:
  "version (fst (replay apply_event ms r)) = version r"
  "recordedEvents (fst (replay apply_event ms r)) = recordedEvents r"
proof -
  have eq: "fst (replay apply_event ms r) = at_base (version r) (recordedEvents r) (fst (replay apply_event ms r))"
    using replay_oblivious [of ms "version r" "recordedEvents r" r] by (metis at_base_simps(4) fst_conv)
  show "version (fst (replay apply_event ms r)) = version r" by (subst eq) simp
  show "recordedEvents (fst (replay apply_event ms r)) = recordedEvents r" by (subst eq) simp
qed

text \<open>
  Recording is replaying plus bookkeeping: on success the root is the fold of the events, the
  events are appended to the uncommitted ones and the version grows by their number.
\<close>

lemma recordThat_replay:
  "replay apply_event (map Message es) r = (r', None) \<Longrightarrow>
   recordThat apply_event es r = (at_base (version r + version_of es) (recordedEvents r @ es) r', None)"
proof (induction es arbitrary: r r')
  case Nil
  then show ?case by simp
next
  case (Cons e es)
  obtain q where a: "apply_event (Message e) r = (q, None)" and rest: "replay apply_event (map Message es) q = (r', None)"
    using Cons.prems by (auto split: prod.splits option.splits)
  have q: "version q = version r" "recordedEvents q = recordedEvents r"
    using apply_base [of "Message e" r] a by simp_all
  let ?q = "at_base (version q + 1) (recordedEvents q @ [e]) q"
  have "replay apply_event (map Message es) ?q = (at_base (version q + 1) (recordedEvents q @ [e]) r', None)"
    using replay_oblivious [of "map Message es" _ _ q] rest by simp
  from Cons.IH [OF this] show ?case
    by (simp add: a base_update_at_base q algebra_simps)
qed

lemma recordThat_ok_iff:
  "snd (recordThat apply_event es r) = None \<longleftrightarrow> snd (replay apply_event (map Message es) r) = None"
proof (induction es arbitrary: r)
  case Nil
  then show ?case by simp
next
  case (Cons e es)
  show ?case
  proof (cases "snd (apply_event (Message e) r)")
    case None
    define q where "q = fst (apply_event (Message e) r)"
    have a: "apply_event (Message e) r = (q, None)" using None by (simp add: q_def prod_eq_iff)
    show ?thesis
      using Cons.IH [of "at_base (version q + 1) (recordedEvents q @ [e]) q"]
      by (simp add: a base_update_at_base replay_oblivious)
  next
    case (Some x)
    then show ?thesis by (auto split: prod.splits)
  qed
qed

lemma recordThat_okD:
  assumes "recordThat apply_event es r = (r', None)"
  obtains q where "replay apply_event (map Message es) r = (q, None)"
    and "r' = at_base (version r + version_of es) (recordedEvents r @ es) q"
proof -
  from assms have "snd (replay apply_event (map Message es) r) = None"
    using recordThat_ok_iff [of es r] by simp
  then obtain q where q: "replay apply_event (map Message es) r = (q, None)"
    by (metis prod.collapse)
  from recordThat_replay [OF this] assms show thesis using that [OF q] by simp
qed

text \<open>
  When applying fails at some event, the events before it stay recorded and counted.
\<close>

lemma recordThat_error:
  assumes "recordThat apply_event es r = (r', Some ex)"
  obtains before e rest cause q r\<^sub>1 where "es = before @ e # rest"
    and "recordThat apply_event before r = (r\<^sub>1, None)"
    and "apply_event (Message e) r\<^sub>1 = (r', Some cause)"
    and "ex = Errorf ''aggregate.BaseRoot: failed to record event, %w'' [cause]"
    and "version r' = version r + version_of before" and "recordedEvents r' = recordedEvents r @ before"
proof -
  from assms have "\<exists>before e rest cause r1. es = before @ e # rest \<and> recordThat apply_event before r = (r1, None) \<and>
      apply_event (Message e) r1 = (r', Some cause) \<and>
      ex = Errorf ''aggregate.BaseRoot: failed to record event, %w'' [cause]"
  proof (induction es arbitrary: r)
    case Nil
    then show ?case by simp
  next
    case (Cons e es)
    obtain q x where a: "apply_event (Message e) r = (q, x)" by fastforce
    show ?case
    proof (cases x)
      case (Some cause)
      with a Cons.prems show ?thesis by (intro exI [of _ "[]"]) auto
    next
      case None
      let ?q = "q\<lparr>recordedEvents := recordedEvents q @ [e], version := version q + 1\<rparr>"
      from Cons.prems a None have "recordThat apply_event es ?q = (r', Some ex)" by simp
      from Cons.IH [OF this] obtain before e' rest cause r1 where
        "es = before @ e' # rest" "recordThat apply_event before ?q = (r1, None)"
        "apply_event (Message e') r1 = (r', Some cause)"
        "ex = Errorf ''aggregate.BaseRoot: failed to record event, %w'' [cause]" by blast
      with a None show ?thesis
        by (intro exI [of _ "e # before"] exI [of _ e'] exI [of _ rest]) simp
    qed
  qed
  then obtain before e rest cause r1 where es: "es = before @ e # rest"
    and ok: "recordThat apply_event before r = (r1, None)" and fail: "apply_event (Message e) r1 = (r', Some cause)"
    and ex: "ex = Errorf ''aggregate.BaseRoot: failed to record event, %w'' [cause]" by blast
  obtain q where "r1 = at_base (version r + version_of before) (recordedEvents r @ before) q"
    by (rule recordThat_okD [OF ok])
  then have "version r1 = version r + version_of before"
    "recordedEvents r1 = recordedEvents r @ before" by simp_all
  with apply_base [of "Message e" r1] fail
  have "version r' = version r + version_of before" "recordedEvents r' = recordedEvents r @ before"
    by simp_all
  from that [OF es ok fail ex this] show thesis .
qed

end

end
