(* ===== verification/Serde.thy ===== *)
theory Serde
  imports Go_Errors
begin

text \<open>
  Package \<open>serde\<close> (\<open>serde/serde.go\<close>, \<open>bytes.go\<close>, \<open>chained.go\<close>, \<open>json.go\<close>, \<open>proto.go\<close>, \<open>protojson.go\<close>):
  serializers as functions into a sum, their combination, and the adapters over the JSON and
  Protobuf libraries, whose \<open>Marshal\<close> and \<open>Unmarshal\<close> are parameters.
\<close>

section \<open>Serializers and deserializers\<close>

type_synonym ('src, 'dst) Serializer = "'src \<Rightarrow> error + 'dst"
type_synonym ('src, 'dst) Deserializer = "'dst \<Rightarrow> error + 'src"

text \<open>The interface \<open>Serde\<close>, and the struct \<open>Fused\<close> that implements it from two halves.\<close>

record ('src, 'dst) Fused =
  Serialize :: "('src, 'dst) Serializer"
  Deserialize :: "('src, 'dst) Deserializer"

text \<open>A \<open>SerializerFunc\<close> or \<open>DeserializerFunc\<close> is the function itself; its method calls it.\<close>

definition SerializerFunc_Serialize :: "('src \<Rightarrow> error + 'dst) \<Rightarrow> ('src, 'dst) Serializer" where
  [go_defs]: "SerializerFunc_Serialize fn src = fn src"

definition DeserializerFunc_Deserialize :: "('dst \<Rightarrow> error + 'src) \<Rightarrow> ('src, 'dst) Deserializer" where
  [go_defs]: "DeserializerFunc_Deserialize fn dst = fn dst"

definition AsSerializerFunc :: "('src \<Rightarrow> error + 'dst) \<Rightarrow> ('src, 'dst) Serializer" where
  [go_defs]: "AsSerializerFunc f = f"

definition AsInfallibleSerializerFunc :: "('src \<Rightarrow> 'dst) \<Rightarrow> ('src, 'dst) Serializer" where
  [go_defs]: "AsInfallibleSerializerFunc f = (\<lambda>src. Inr (f src))"

definition AsDeserializerFunc :: "('dst \<Rightarrow> error + 'src) \<Rightarrow> ('src, 'dst) Deserializer" where
  [go_defs]: "AsDeserializerFunc f = f"

definition AsInfallibleDeserializerFunc :: "('dst \<Rightarrow> 'src) \<Rightarrow> ('src, 'dst) Deserializer" where
  [go_defs]: "AsInfallibleDeserializerFunc f = (\<lambda>dst. Inr (f dst))"

definition Fuse :: "('src, 'dst) Serializer \<Rightarrow> ('src, 'dst) Deserializer \<Rightarrow> ('src, 'dst) Fused" where
  [go_defs]: "Fuse serializer deserializer = \<lparr>Serialize = serializer, Deserialize = deserializer\<rparr>"

section \<open>Chaining\<close>

record ('src, 'mid, 'dst) Chained =
  first :: "('src, 'mid) Fused"
  second :: "('mid, 'dst) Fused"

definition Chained_Serialize :: "('src, 'mid, 'dst) Chained \<Rightarrow> ('src, 'dst) Serializer" where
  "Chained_Serialize s src =
     (case Serialize (first s) src of
        Inl e \<Rightarrow> Inl (Errorf ''serde.Chained: first stage serializer failed, %w'' [e])
      | Inr mid \<Rightarrow>
          (case Serialize (second s) mid of
             Inl e \<Rightarrow> Inl (Errorf ''serde.Chained: second stage serializer failed, %w'' [e])
           | Inr dst \<Rightarrow> Inr dst))"

definition Chained_Deserialize :: "('src, 'mid, 'dst) Chained \<Rightarrow> ('src, 'dst) Deserializer" where
  "Chained_Deserialize s dst =
     (case Deserialize (second s) dst of
        Inl e \<Rightarrow> Inl (Errorf ''serde.Chained: second stage deserializer failed, %w'' [e])
      | Inr mid \<Rightarrow>
          (case Deserialize (first s) mid of
             Inl e \<Rightarrow> Inl (Errorf ''serde.Chained: first stage deserializer failed, %w'' [e])
           | Inr src \<Rightarrow> Inr src))"

definition Chain :: "('src, 'mid) Fused \<Rightarrow> ('mid, 'dst) Fused \<Rightarrow> ('src, 'mid, 'dst) Chained" where
  [go_defs]: "Chain fst_serde snd_serde = \<lparr>first = fst_serde, second = snd_serde\<rparr>"

text \<open>A \<open>Chained\<close> value used as a \<open>Serde\<close>.\<close>

definition Chained_as_Serde :: "('src, 'mid, 'dst) Chained \<Rightarrow> ('src, 'dst) Fused" where
  [go_defs]: "Chained_as_Serde s =
     \<lparr>Serialize = Chained_Serialize s, Deserialize = Chained_Deserialize s\<rparr>"

section \<open>JSON and Protobuf\<close>

text \<open>
  \<open>marshal\<close> and \<open>unmarshal\<close> stand for \<open>json.Marshal\<close> and \<open>json.Unmarshal\<close>, \<open>proto.Marshal\<close> and
  \<open>proto.Unmarshal\<close>, \<open>protojson.Marshal\<close> and \<open>protojson.Unmarshal\<close>. Unmarshalling decodes into a
  model made by the factory, so it gets that model and gives the filled one.
\<close>

type_synonym bytes = "8 word list"

text \<open>The interfaces of \<open>serde/bytes.go\<close>.\<close>

type_synonym 'src BytesSerializer = "('src, bytes) Serializer"
type_synonym 'src BytesDeserializer = "('src, bytes) Deserializer"
type_synonym 'src Bytes = "('src, bytes) Fused"

definition NewJSONSerializer :: "('t \<Rightarrow> error + bytes) \<Rightarrow> ('t, bytes) Serializer" where
  "NewJSONSerializer marshal t =
     (case marshal t of
        Inl e \<Rightarrow> Inl (Errorf ''serde.JSON: failed to serialize data, %w'' [e])
      | Inr data \<Rightarrow> Inr data)"

definition NewJSONDeserializer ::
  "(bytes \<Rightarrow> 't \<Rightarrow> error + 't) \<Rightarrow> (unit \<Rightarrow> 't) \<Rightarrow> ('t, bytes) Deserializer" where
  "NewJSONDeserializer unmarshal factory data =
     (case unmarshal data (factory ()) of
        Inl e \<Rightarrow> Inl (Errorf ''serde.JSON: failed to deserialize data, %w'' [e])
      | Inr model \<Rightarrow> Inr model)"

definition NewJSON ::
  "('t \<Rightarrow> error + bytes) \<Rightarrow> (bytes \<Rightarrow> 't \<Rightarrow> error + 't) \<Rightarrow> (unit \<Rightarrow> 't) \<Rightarrow> ('t, bytes) Fused" where
  "NewJSON marshal unmarshal factory =
     Fuse (NewJSONSerializer marshal) (NewJSONDeserializer unmarshal factory)"

definition NewProtoSerializer :: "('t \<Rightarrow> error + bytes) \<Rightarrow> ('t, bytes) Serializer" where
  "NewProtoSerializer marshal t =
     (case marshal t of
        Inl e \<Rightarrow> Inl (Errorf ''serde.Proto: failed to serialize data, %w'' [e])
      | Inr data \<Rightarrow> Inr data)"

definition NewProtoDeserializer ::
  "(bytes \<Rightarrow> 't \<Rightarrow> error + 't) \<Rightarrow> (unit \<Rightarrow> 't) \<Rightarrow> ('t, bytes) Deserializer" where
  "NewProtoDeserializer unmarshal factory data =
     (case unmarshal data (factory ()) of
        Inl e \<Rightarrow> Inl (Errorf ''serde.Proto: failed to deseruialize data, %w'' [e])
      | Inr model \<Rightarrow> Inr model)"

definition NewProto ::
  "('t \<Rightarrow> error + bytes) \<Rightarrow> (bytes \<Rightarrow> 't \<Rightarrow> error + 't) \<Rightarrow> (unit \<Rightarrow> 't) \<Rightarrow> ('t, bytes) Fused" where
  "NewProto marshal unmarshal factory =
     Fuse (NewProtoSerializer marshal) (NewProtoDeserializer unmarshal factory)"

definition NewProtoJSONSerializer :: "('t \<Rightarrow> error + bytes) \<Rightarrow> ('t, bytes) Serializer" where
  "NewProtoJSONSerializer marshal t =
     (case marshal t of
        Inl e \<Rightarrow> Inl (Errorf ''serde.ProtoJSON: failed to serialize data, %w'' [e])
      | Inr data \<Rightarrow> Inr data)"

definition NewProtoJSONDeserializer ::
  "(bytes \<Rightarrow> 't \<Rightarrow> error + 't) \<Rightarrow> (unit \<Rightarrow> 't) \<Rightarrow> ('t, bytes) Deserializer" where
  "NewProtoJSONDeserializer unmarshal factory data =
     (case unmarshal data (factory ()) of
        Inl e \<Rightarrow> Inl (Errorf ''serde.ProtoJSON: failed to deserialize data, %w'' [e])
      | Inr model \<Rightarrow> Inr model)"

definition NewProtoJSON ::
  "('t \<Rightarrow> error + bytes) \<Rightarrow> (bytes \<Rightarrow> 't \<Rightarrow> error + 't) \<Rightarrow> (unit \<Rightarrow> 't) \<Rightarrow> ('t, bytes) Fused" where
  "NewProtoJSON marshal unmarshal factory =
     Fuse (NewProtoJSONSerializer marshal) (NewProtoJSONDeserializer unmarshal factory)"

section \<open>Round trips\<close>

text \<open>
  A serde round-trips on the values in \<open>valid\<close> when serializing them succeeds, and deserializing
  the result gives the value back.
\<close>

definition round_trips :: "('src \<Rightarrow> bool) \<Rightarrow> ('src, 'dst) Fused \<Rightarrow> bool" where
  "round_trips valid s \<longleftrightarrow>
     (\<forall>x. valid x \<longrightarrow> (\<exists>y. Serialize s x = Inr y \<and> Deserialize s y = Inr x))"

lemma round_tripsI:
  "(\<And>x. valid x \<Longrightarrow> \<exists>y. Serialize s x = Inr y \<and> Deserialize s y = Inr x) \<Longrightarrow> round_trips valid s"
  by (simp add: round_trips_def)

lemma round_tripsE:
  assumes "round_trips valid s" and "valid x"
  obtains y where "Serialize s x = Inr y" and "Deserialize s y = Inr x"
  using assms by (auto simp: round_trips_def)

lemma round_trips_infallible:
  "(\<And>x. valid x \<Longrightarrow> g (f x) = x) \<Longrightarrow>
   round_trips valid (Fuse (AsInfallibleSerializerFunc f) (AsInfallibleDeserializerFunc g))"
  by (simp add: round_trips_def go_defs)

text \<open>
  Chaining composes round trips: the first stage must produce values the second one accepts.
\<close>

lemma round_trips_Chain:
  assumes "round_trips valid s" and "round_trips valid' s'"
    and "\<And>x y. valid x \<Longrightarrow> Serialize s x = Inr y \<Longrightarrow> valid' y"
  shows "round_trips valid (Chained_as_Serde (Chain s s'))"
proof (rule round_tripsI)
  fix x
  assume "valid x"
  then obtain y where y: "Serialize s x = Inr y" "Deserialize s y = Inr x"
    using assms(1) by (elim round_tripsE)
  with \<open>valid x\<close> assms(3) have "valid' y" by blast
  then obtain z where "Serialize s' y = Inr z" "Deserialize s' z = Inr y"
    using assms(2) by (elim round_tripsE)
  with y show "\<exists>z. Serialize (Chained_as_Serde (Chain s s')) x = Inr z \<and>
      Deserialize (Chained_as_Serde (Chain s s')) z = Inr x"
    by (simp add: go_defs Chained_Serialize_def Chained_Deserialize_def)
qed

lemma round_trips_New:
  assumes "\<And>x. valid x \<Longrightarrow> \<exists>data. marshal x = Inr data \<and> unmarshal data (factory ()) = Inr x"
  shows "round_trips valid (NewJSON marshal unmarshal factory)"
    and "round_trips valid (NewProto marshal unmarshal factory)"
    and "round_trips valid (NewProtoJSON marshal unmarshal factory)"
  using assms
  by (force intro!: round_tripsI simp: go_defs NewJSON_def NewProto_def NewProtoJSON_def
      NewJSONSerializer_def NewJSONDeserializer_def NewProtoSerializer_def NewProtoDeserializer_def
      NewProtoJSONSerializer_def NewProtoJSONDeserializer_def)+

text \<open>
  Stage errors are wrapped, so \<open>errors.Is\<close> on a chain's error finds exactly what it finds in the
  failing stage's error.
\<close>

lemma Chained_Serialize_error:
  "Chained_Serialize (Chain s s') x = Inl e \<longleftrightarrow>
     (\<exists>c. Serialize s x = Inl c \<and> e = Errorf ''serde.Chained: first stage serializer failed, %w'' [c]) \<or>
     (\<exists>y c. Serialize s x = Inr y \<and> Serialize s' y = Inl c \<and>
        e = Errorf ''serde.Chained: second stage serializer failed, %w'' [c])"
  by (auto simp: Chained_Serialize_def go_defs split: sum.splits)

text \<open>C28: The chain of two serdes gives every value back that the first one gives back, provided the
  second one gives back what the first one produces; it fails to serialize exactly when one stage
  fails, with the stage's error wrapped in the message that names the stage.\<close>

theorem Chain_round_trip:
  assumes "round_trips valid s" and "round_trips valid' s'"
    and "\<And>x y. valid x \<Longrightarrow> Serialize s x = Inr y \<Longrightarrow> valid' y"
  shows "round_trips valid (Chained_as_Serde (Chain s s')) \<and>
     (Serialize (Chained_as_Serde (Chain s s')) x = Inl e \<longleftrightarrow>
        (\<exists>c. Serialize s x = Inl c \<and> e = Errorf ''serde.Chained: first stage serializer failed, %w'' [c]) \<or>
        (\<exists>y c. Serialize s x = Inr y \<and> Serialize s' y = Inl c \<and>
           e = Errorf ''serde.Chained: second stage serializer failed, %w'' [c]))"
  using round_trips_Chain [OF assms] Chained_Serialize_error [of s s' x e]
  by (simp add: Chained_as_Serde_def)

theorem Chain_round_trip_witness:
  "round_trips (\<lambda>n :: nat. True) (Chained_as_Serde (Chain
       (Fuse (AsInfallibleSerializerFunc (\<lambda>n. replicate n True)) (AsInfallibleDeserializerFunc length))
       (NewJSON (\<lambda>bs. Inr (map (\<lambda>b. 1) bs)) (\<lambda>data _. Inr (map (\<lambda>_. True) data)) (\<lambda>_. []))))"
proof (rule Chain_round_trip [where valid' = "list_all (\<lambda>b. b)", THEN conjunct1])
  show "round_trips (list_all (\<lambda>b. b))
      (NewJSON (\<lambda>bs. Inr (map (\<lambda>b. 1) bs)) (\<lambda>data _. Inr (map (\<lambda>_. True) data)) (\<lambda>_. []))"
  proof (rule round_trips_New)
    fix bs :: "bool list"
    assume "list_all (\<lambda>b. b) bs"
    then show "\<exists>data. Inr (map (\<lambda>b. 1) bs) = Inr data \<and> Inr (map (\<lambda>_. True) data) = Inr bs"
      by (induction bs) auto
  qed
qed (auto simp: round_trips_infallible go_defs list_all_iff round_trips_def)

end
