(* ===== verification/InMemory_Store.thy ===== *)
theory InMemory_Store
  imports Event
begin

text \<open>
  File \<open>event/store_inmemory.go\<close>: the in-memory event store, what each operation does between
  taking and releasing the store's lock, and its interpretation as an \<open>event_store\<close>.
\<close>

section \<open>The store\<close>

record 'm InMemoryStore =
  events :: "StreamID \<rightharpoonup> 'm Envelope list"

definition NewInMemoryStore :: "'m InMemoryStore" where
  "NewInMemoryStore = \<lparr>events = Map.empty\<rparr>"

text \<open>
  The loop of \<open>Stream\<close> over the slice of the stream, from index \<open>i\<close> on. The producer gives the
  store back as it found it.
\<close>

fun InMemoryStore_stream_loop ::
  "ctx \<Rightarrow> StreamID \<Rightarrow> Selector \<Rightarrow> 'm InMemoryStore \<Rightarrow> nat \<Rightarrow> 'm Envelope list \<Rightarrow>
   ('m Persisted, 'm InMemoryStore) producer" where
  "InMemoryStore_stream_loop ctx sid selector es i [] = Return None es"
| "InMemoryStore_stream_loop ctx sid selector es i (evt # evts) =
     (case ctx i of
        Some e \<Rightarrow> Return (Some (Errorf ''event.InMemoryStore: context error, %w'' [e])) es
      | None \<Rightarrow>
          (let eventVersion = word_of_nat i + 1 in
           if eventVersion < From selector
           then InMemoryStore_stream_loop ctx sid selector es (Suc i) evts
           else Yield \<lparr>StreamID = sid, Version = eventVersion, Envelope = evt\<rparr>
                  (\<lambda>go. if \<not> go then Return None es
                        else InMemoryStore_stream_loop ctx sid selector es (Suc i) evts)))"

definition InMemoryStore_Stream :: "('m, 'm InMemoryStore) Streamer" where
  "InMemoryStore_Stream ctx sid selector =
     NewStream (\<lambda>es.
       case events es sid of
         None \<Rightarrow> Return None es
       | Some evts \<Rightarrow> InMemoryStore_stream_loop ctx sid selector es 0 evts)"

definition InMemoryStore_Append :: "('m, 'm InMemoryStore) Appender" where
  "InMemoryStore_Append ctx sid expected evts es =
     (let currentVersion = version_of (slice_at (events es) sid);
          proceed =
            (let es' = es\<lparr>events := (events es)(sid \<mapsto> slice_at (events es) sid @ evts)\<rparr>;
                 newEventStreamVersion = version_of (slice_at (events es') sid)
             in ((newEventStreamVersion, None), es'))
      in case expected of
           CheckExact v \<Rightarrow>
             if currentVersion \<noteq> v
             then ((0, Some (Errorf ''event.InMemoryStore: failed to append events, %w''
                       [Conflict \<lparr>Expected = v, Actual = currentVersion\<rparr>])), es)
             else proceed
         | CheckAny \<Rightarrow> proceed)"

definition InMemoryStore_Store :: "('m, 'm InMemoryStore) Store" where
  [go_defs]: "InMemoryStore_Store = \<lparr>Append = InMemoryStore_Append, Stream = InMemoryStore_Stream\<rparr>"

abbreviation mem_log :: "'m InMemoryStore \<Rightarrow> StreamID \<Rightarrow> 'm Envelope list" where
  "mem_log es \<equiv> slice_at (events es)"

section \<open>Reading\<close>

text \<open>The number of events a stream checks before \<open>ctx\<close> reports an error.\<close>

fun live_prefix :: "ctx \<Rightarrow> nat \<Rightarrow> 'a list \<Rightarrow> 'a list" where
  "live_prefix ctx i [] = []"
| "live_prefix ctx i (x # xs) = (if ctx i = None then x # live_prefix ctx (Suc i) xs else [])"

fun first_cancel :: "ctx \<Rightarrow> nat \<Rightarrow> 'a list \<Rightarrow> error option" where
  "first_cancel ctx i [] = None"
| "first_cancel ctx i (x # xs) = (case ctx i of None \<Rightarrow> first_cancel ctx (Suc i) xs | Some e \<Rightarrow> Some e)"

lemma stream_loop_feed:
  "InMemoryStore_stream_loop ctx sid selector es i evts =
     feed (filter (selects selector) (persisted_from sid (word_of_nat i) (live_prefix ctx i evts)))
       (map_option (\<lambda>e. Errorf ''event.InMemoryStore: context error, %w'' [e]) (first_cancel ctx i evts)) es"
proof (induction evts arbitrary: i)
  case Nil
  then show ?case by simp
next
  case (Cons evt evts)
  have suc: "(word_of_nat (Suc i) :: Version) = word_of_nat i + 1" by simp
  from Cons.IH [of "Suc i", unfolded suc] show ?case
    by (auto simp: selects_def fun_eq_iff Let_def linorder_not_less split: option.splits)
qed

lemma live_prefix_Background [simp]: "live_prefix Background i xs = xs"
  by (induction xs arbitrary: i) (auto simp: Background_def)

lemma first_cancel_Background [simp]: "first_cancel Background i xs = None"
  by (induction xs arbitrary: i) (auto simp: Background_def)

lemma live_prefix_take: "\<exists>n. live_prefix ctx i xs = take n xs"
proof (induction xs arbitrary: i)
  case Nil
  then show ?case by simp
next
  case (Cons x xs)
  from Cons.IH [of "Suc i"] obtain n where "live_prefix ctx (Suc i) xs = take n xs" by blast
  then have "live_prefix ctx i (x # xs) = take (if ctx i = None then Suc n else 0) (x # xs)" by simp
  then show ?case by blast
qed

lemma first_cancel_None_iff: "first_cancel ctx i xs = None \<longleftrightarrow> live_prefix ctx i xs = xs"
  by (induction xs arbitrary: i) (auto split: option.splits)

lemma InMemoryStore_Stream_feed:
  "produce (InMemoryStore_Stream ctx sid selector) es =
     feed (filter (selects selector) (persisted_from sid 0 (live_prefix ctx 0 (mem_log es sid))))
       (map_option (\<lambda>e. Errorf ''event.InMemoryStore: context error, %w'' [e])
          (first_cancel ctx 0 (mem_log es sid))) es"
  by (simp add: InMemoryStore_Stream_def slice_at_def stream_loop_feed split: option.split)

lemma InMemoryStore_Stream_fresh [simp]: "\<not> iterated (InMemoryStore_Stream ctx sid selector)"
  by (simp add: InMemoryStore_Stream_def)

section \<open>Writing\<close>

lemma InMemoryStore_Append_ok [store_simps]:
  "check_passes expected (version_of (mem_log es sid)) \<Longrightarrow>
   InMemoryStore_Append ctx sid expected evts es =
     ((version_of (mem_log es sid @ evts), None),
      es\<lparr>events := (events es)(sid \<mapsto> mem_log es sid @ evts)\<rparr>)"
  by (cases expected) (simp_all add: InMemoryStore_Append_def Let_def)

lemma InMemoryStore_Append_conflict [store_simps]:
  "v \<noteq> version_of (mem_log es sid) \<Longrightarrow>
   InMemoryStore_Append ctx sid (CheckExact v) evts es =
     ((0, Some (Errorf ''event.InMemoryStore: failed to append events, %w''
             [Conflict \<lparr>Expected = v, Actual = version_of (mem_log es sid)\<rparr>])), es)"
  by (simp add: InMemoryStore_Append_def Let_def)

lemma mem_log_New [simp]: "mem_log NewInMemoryStore sid = []"
  by (simp add: NewInMemoryStore_def)

interpretation mem: event_store InMemoryStore_Append InMemoryStore_Stream mem_log "\<lambda>_. True"
proof unfold_locales
  fix expected sid ctx and evts :: "'m Envelope list" and st :: "'m InMemoryStore"
  assume "check_passes expected (version_of (mem_log st sid))"
  then show "\<exists>st'. InMemoryStore_Append ctx sid expected evts st =
      ((version_of (mem_log st sid @ evts), None), st') \<and>
      mem_log st' = (mem_log st)(sid := mem_log st sid @ evts) \<and> True"
    by (simp only: InMemoryStore_Append_ok) simp
qed (auto simp: InMemoryStore_Append_conflict InMemoryStore_Stream_feed)

section \<open>Properties\<close>

text \<open>C11: A stream that is read while its context is live pushes exactly the committed events of
  its stream from the selected version on, each with its position as version, and then reports no
  error; the store is unchanged.\<close>

theorem InMemoryStore_Stream_replays:
  "for_range (\<lambda>evt acc. (None :: unit option, acc @ [evt]))
     (InMemoryStore_Stream Background sid selector) es [] =
   Some (None, (InMemoryStore_Stream Background sid selector)\<lparr>iterated := True, err := None\<rparr>, es,
         filter (selects selector) (persisted_from sid 0 (mem_log es sid)))"
  by (simp add: for_range_fresh [OF _ InMemoryStore_Stream_feed] for_each_collect)

text \<open>C10: An append whose version check passes extends the log of its stream, and of no other, by the
  given events in order and returns the new version; one that expects another version than the
  stream's changes nothing, returns version 0 and an error in which \<open>errors.As\<close> finds a
  \<open>ConflictError\<close> with the expected and the actual version. \<open>Any\<close> always passes.\<close>

theorem InMemoryStore_Append_outcome:
  "case InMemoryStore_Append ctx sid expected evts es of
     ((v, None), es') \<Rightarrow> check_passes expected (version_of (mem_log es sid)) \<and>
        v = version_of (mem_log es sid @ evts) \<and> mem_log es' = (mem_log es)(sid := mem_log es sid @ evts)
   | ((v, Some e), es') \<Rightarrow> es' = es \<and> v = 0 \<and>
        (\<exists>v'. expected = CheckExact v' \<and> v' \<noteq> version_of (mem_log es sid) \<and>
              errors_As e = Some \<lparr>Expected = v', Actual = version_of (mem_log es sid)\<rparr>)"
proof (cases "check_passes expected (version_of (mem_log es sid))")
  case True
  then show ?thesis by (simp only: InMemoryStore_Append_ok) simp
next
  case False
  then show ?thesis by (cases expected) (auto simp: InMemoryStore_Append_conflict)
qed

text \<open>Of any sequence of appends to an in-memory store, on any streams and with any checks, at
  most one non-empty append that expects a given version of a given stream succeeds, as long as the
  events stay fewer than $2^{32}$: writers that read the same version never both commit.\<close>

lemma InMemoryStore_single_winner:
  assumes "length (mem_log es sid) + sum_list (map (\<lambda>(s, c, evts). length evts) ops) < 2 ^ 32"
  shows "length (winners sid v ops (fst (append_results InMemoryStore_Append ctx ops es))) \<le> 1"
  using assms by (rule mem.append_results_winner [OF TrueI])

lemma live_prefix_spec:
  "live_prefix ctx i xs = take (length (live_prefix ctx i xs)) xs \<and>
   first_cancel ctx i xs =
     (if length (live_prefix ctx i xs) < length xs then ctx (i + length (live_prefix ctx i xs)) else None) \<and>
   (length (live_prefix ctx i xs) < length xs \<longrightarrow> ctx (i + length (live_prefix ctx i xs)) \<noteq> None) \<and>
   (\<forall>j < length (live_prefix ctx i xs). ctx (i + j) = None) \<and> length (live_prefix ctx i xs) \<le> length xs"
proof (induction xs arbitrary: i)
  case Nil
  then show ?case by simp
next
  case (Cons x xs)
  show ?case
  proof (cases "ctx i")
    case None
    with Cons.IH [of "Suc i"] show ?thesis by (auto simp: less_Suc_eq_0_disj)
  next
    case (Some e)
    then show ?thesis by simp
  qed
qed

text \<open>C13: When the context of a stream is cancelled at some point, the loop sees the selected events
  up to the first one before which the context was found cancelled, and \<open>Err\<close> then wraps the
  context's error; a context that stays live gives the whole stream and no error.\<close>

theorem InMemoryStore_Stream_cancelled:
  "\<exists>n strm. n \<le> length (mem_log es sid) \<and> list_all (\<lambda>i. ctx i = None) [0..<n] \<and>
     for_range (\<lambda>evt acc. (None :: unit option, acc @ [evt])) (InMemoryStore_Stream ctx sid selector) es [] =
       Some (None, strm, es,
             filter (selects selector) (persisted_from sid 0 (take n (mem_log es sid)))) \<and>
     (if n = length (mem_log es sid) then Err strm = None
      else \<exists>cause. ctx n = Some cause \<and>
             Err strm = Some (Errorf ''event.InMemoryStore: context error, %w'' [cause]))"
proof -
  let ?log = "mem_log es sid" and ?n = "length (live_prefix ctx 0 (mem_log es sid))"
  have take: "live_prefix ctx 0 ?log = take ?n ?log" using live_prefix_spec [of ctx 0 ?log] by blast
  have "list_all (\<lambda>i. ctx i = None) [0..<?n]"
    using live_prefix_spec [of ctx 0 ?log] by (simp add: list_all_iff)
  moreover have "?n \<le> length ?log" using live_prefix_spec [of ctx 0 ?log] by blast
  ultimately show ?thesis
    using live_prefix_spec [of ctx 0 ?log]
    by (intro exI [of _ ?n]) (auto simp: for_range_fresh [OF _ InMemoryStore_Stream_feed] for_each_collect Err_def
        simp flip: take)
qed

section \<open>The range of versions\<close>

lemma unat_version_of: "unat (version_of es) = length es mod 2 ^ 32"
  by (simp add: unat_of_nat take_bit_eq_mod)

lemma persisted_versions:
  "map (unat \<circ> Version) (persisted_from sid 0 evs) = map (\<lambda>k. k mod 2 ^ 32) [1..<Suc (length evs)]"
proof (rule nth_equalityI)
  fix i
  assume "i < length (map (unat \<circ> Version) (persisted_from sid 0 evs))"
  moreover have "unat (word_of_nat i + 1 :: Version) = Suc i mod 2 ^ 32"
    unfolding unat_word_ariths by (simp add: unat_of_nat take_bit_eq_mod mod_Suc_eq)
  ultimately show "map (unat \<circ> Version) (persisted_from sid 0 evs) ! i = map (\<lambda>k. k mod 2 ^ 32) [1..<Suc (length evs)] ! i"
    by (simp only: length_map length_persisted_from nth_map comp_def persisted_from_nth Persisted.simps nth_upt)
      (simp del: upt_Suc)
qed (simp del: upt_Suc)

text \<open>C12: The version an append returns is the length of its stream modulo 2^32, the events of the stream are numbered
  1, 2, 3, ... modulo 2^32, and a further append that expects version \<open>k\<close> is accepted exactly when \<open>k\<close> is the length modulo 2^32.
  So versions count events without gaps as long as a stream has fewer than 2^32 of them; a stream whose length is a multiple of 2^32, and
  no other stream that has events, has version 0 and passes the check for a stream without events.\<close>

theorem InMemoryStore_version_bound:
  assumes "check_passes c (version_of (mem_log es sid))"
  shows "\<exists>v es' n. InMemoryStore_Append ctx sid c evs es = ((v, None), es') \<and>
     n = length (mem_log es sid @ evs) \<and> n = length (mem_log es' sid) \<and> unat v = n mod 2 ^ 32 \<and>
     map (unat \<circ> Version) (persisted_from sid 0 (mem_log es' sid)) = map (\<lambda>k. k mod 2 ^ 32) [1..<Suc n] \<and>
     (\<forall>ctx' k more. snd (fst (InMemoryStore_Append ctx' sid (CheckExact k) more es')) = None \<longleftrightarrow> unat k = n mod 2 ^ 32)"
proof -
  define log es' where log: "log = mem_log es sid @ evs" and es': "es' = es\<lparr>events := (events es)(sid \<mapsto> log)\<rparr>"
  have app: "InMemoryStore_Append ctx sid c evs es = ((version_of log, None), es')"
    unfolding log es' using assms by (rule InMemoryStore_Append_ok)
  have at: "mem_log es' sid = log" by (simp add: es')
  note v = unat_version_of [of log]
  have "snd (fst (InMemoryStore_Append ctx' sid (CheckExact k) more es')) = None \<longleftrightarrow> unat k = length log mod 2 ^ 32" for ctx' k more
  proof (cases "k = version_of log")
    case True
    then show ?thesis using InMemoryStore_Append_ok [of "CheckExact k" es' sid ctx' more] by (simp add: at v)
  next
    case False
    then have "unat k \<noteq> length log mod 2 ^ 32" unfolding v [symmetric] by (metis word_unat_eq_iff)
    with False show ?thesis by (simp add: InMemoryStore_Append_def Let_def at)
  qed
  with app at v persisted_versions [of sid log] show ?thesis unfolding log [symmetric]
    by (intro exI [of _ "version_of log"] exI [of _ es'] exI [of _ "length log"]) (simp del: upt_Suc)
qed

definition full_store :: "nat InMemoryStore" where
  "full_store = \<lparr>events = [''a'' \<mapsto> replicate (2 ^ 32 - 1) (ToEnvelope 7)]\<rparr>"

theorem InMemoryStore_version_bound_witness:
  "\<exists>es'. InMemoryStore_Append Background ''a'' (CheckExact (- 1)) [ToEnvelope 8] full_store = ((0, None), es') \<and>
     snd (fst (InMemoryStore_Append Background ''a'' (CheckExact 0) [ToEnvelope 9] es')) = None \<and>
     snd (fst (InMemoryStore_Append Background ''a'' (CheckExact 1) [ToEnvelope 9] es')) \<noteq> None"
proof -
  have len: "length (mem_log full_store ''a'') = 2 ^ 32 - 1" by (simp add: full_store_def slice_at_def)
  have "check_passes (CheckExact (- 1)) (version_of (mem_log full_store ''a''))" unfolding len by simp
  from InMemoryStore_version_bound [OF this, of Background "[ToEnvelope 8]"] len show ?thesis
    by (auto simp: unat_eq_0 simp del: not_None_eq)
qed

end
