(* ===== verification/Repository.thy ===== *)
theory Repository
  imports Aggregate Serde InMemory_Store
begin

text \<open>
  Package \<open>aggregate\<close>, files \<open>aggregate/repository.go\<close> and
  \<open>aggregate/event_sourced_repository.go\<close>: rehydration, the event-sourced repository over any
  event store, and the contract of a repository as the locale \<open>repository_contract\<close>.
\<close>

section \<open>Repositories\<close>

definition ErrRootNotFound :: error where
  "ErrRootNotFound = Sentinel ''aggregate: root not found''"

text \<open>
  The interface \<open>Repository\<close> as its method table. \<open>Get\<close> returns a root or an error (the root is
  nil then); \<open>Save\<close> also returns the root it was given, which it flushes. A panic of the stream
  below is the \<open>None\<close> of \<open>Get\<close>.
\<close>

type_synonym ('id, 'r, 'st) Getter = "ctx \<Rightarrow> 'id \<Rightarrow> 'st \<Rightarrow> ((error + 'r) \<times> 'st) option"
type_synonym ('r, 'st) Saver = "ctx \<Rightarrow> 'r \<Rightarrow> 'st \<Rightarrow> error option \<times> 'r \<times> 'st"

record ('id, 'r, 'st) Repository =
  Get :: "('id, 'r, 'st) Getter"
  Save :: "('r, 'st) Saver"

definition FusedRepository ::
  "('id, 'r, 'st) Getter \<Rightarrow> ('r, 'st) Saver \<Rightarrow> ('id, 'r, 'st) Repository" where
  [go_defs]: "FusedRepository getter saver = \<lparr>Get = getter, Save = saver\<rparr>"

section \<open>Rehydration\<close>

text \<open>The body of the loop: it returns from \<open>RehydrateFromEvents\<close> at the first failing \<open>Apply\<close>.\<close>

definition rehydrate_body ::
  "('m, ('m, 'z) BaseRoot_scheme) apply_method \<Rightarrow> 'm Persisted \<Rightarrow> ('m, 'z) BaseRoot_scheme \<Rightarrow>
   error option \<times> ('m, 'z) BaseRoot_scheme" where
  "rehydrate_body apply_event evt root =
     (case apply_event (Message (Envelope evt)) root of
        (root', Some e) \<Rightarrow>
          (Some (Errorf ''aggregate.RehydrateFromEvents: failed to record event, %w'' [e]), root')
      | (root', None) \<Rightarrow> (None, setVersion (Version evt) root'))"

definition RehydrateFromEvents ::
  "('m, ('m, 'z) BaseRoot_scheme) apply_method \<Rightarrow> ('m, 'z) BaseRoot_scheme \<Rightarrow>
   ('m Persisted, 'st) Stream \<Rightarrow> 'st \<Rightarrow> (error option \<times> ('m, 'z) BaseRoot_scheme \<times> 'st) option" where
  "RehydrateFromEvents apply_event root strm st =
     (case for_range (rehydrate_body apply_event) strm st root of
        None \<Rightarrow> None
      | Some (Some e, strm', st', root') \<Rightarrow> Some (Some e, root', st')
      | Some (None, strm', st', root') \<Rightarrow>
          (case Err strm' of
             Some e \<Rightarrow>
               Some (Some (Errorf ''aggregate.RehydrateFromEvents: streaming failed, %w'' [e]), root', st')
           | None \<Rightarrow> Some (None, root', st')))"

definition RehydrateFromState ::
  "Version \<Rightarrow> 'dst \<Rightarrow> (('m, 'z) BaseRoot_scheme, 'dst) Deserializer \<Rightarrow> error + ('m, 'z) BaseRoot_scheme" where
  "RehydrateFromState v dst deserializer =
     (case deserializer dst of
        Inl e \<Rightarrow>
          Inl (Errorf ''aggregate.RehydrateFromState: failed to deserialize src into dst root, %w'' [e])
      | Inr src \<Rightarrow> Inr (setVersion v src))"

section \<open>The event-sourced repository\<close>

record ('id, 'm, 'z, 'st) EventSourcedRepository =
  eventStore :: "('m, 'st) Store"
  root_typ :: "('id, 'm, 'z) Type"

definition NewEventSourcedRepository ::
  "('m, 'st) Store \<Rightarrow> ('id, 'm, 'z) Type \<Rightarrow> ('id, 'm, 'z, 'st) EventSourcedRepository" where
  [go_defs]: "NewEventSourcedRepository store t = \<lparr>eventStore = store, root_typ = t\<rparr>"

definition EventSourcedRepository_Get ::
  "('id, 'm, 'z, 'st) EventSourcedRepository \<Rightarrow> ('id, ('m, 'z) BaseRoot_scheme, 'st) Getter" where
  "EventSourcedRepository_Get repo ctx i st =
     (let streamID = String (root_typ repo) i;
          strm = Stream (eventStore repo) ctx streamID SelectFromBeginning;
          root = Factory (root_typ repo) ()
      in case RehydrateFromEvents (Apply (root_typ repo)) root strm st of
           None \<Rightarrow> None
         | Some (Some e, root', st') \<Rightarrow>
             Some (Inl (Errorf ''aggregate.EventSourcedRepository: failed to rehydrate aggregate root, %w'' [e]), st')
         | Some (None, root', st') \<Rightarrow>
             if version root' = 0 then Some (Inl ErrRootNotFound, st') else Some (Inr root', st'))"

definition EventSourcedRepository_Save ::
  "('id, 'm, 'z, 'st) EventSourcedRepository \<Rightarrow> (('m, 'z) BaseRoot_scheme, 'st) Saver" where
  "EventSourcedRepository_Save repo ctx root st =
     (let (evts, root') = FlushRecordedEvents root
      in if length evts = 0 then (None, root', st)
         else
           (let streamID = String (root_typ repo) (AggregateID (root_typ repo) root');
                expectedVersion = CheckExact (version root' - version_of evts)
            in case Append (eventStore repo) ctx streamID expectedVersion evts st of
                 ((_, Some e), st') \<Rightarrow>
                   (Some (Errorf ''aggregate.EventSourcedRepository: failed to commit recorded events, %w'' [e]),
                    root', st')
               | ((_, None), st') \<Rightarrow> (None, root', st')))"

definition EventSourcedRepository_Repository ::
  "('id, 'm, 'z, 'st) EventSourcedRepository \<Rightarrow> ('id, ('m, 'z) BaseRoot_scheme, 'st) Repository" where
  [go_defs]: "EventSourcedRepository_Repository repo =
     \<lparr>Get = EventSourcedRepository_Get repo, Save = EventSourcedRepository_Save repo\<rparr>"

section \<open>The contract of a repository\<close>

text \<open>
  The abstract state maps an identifier to the root it would load. A client loads a root (or makes
  a new one when there is none), records events on it and saves it; that is the \<open>base\<close> of the laws.
\<close>

definition base_root :: "('id, 'm, 'z) Type \<Rightarrow> ('m, 'z) BaseRoot_scheme option \<Rightarrow> ('m, 'z) BaseRoot_scheme" where
  "base_root t r = (case r of None \<Rightarrow> Factory t () | Some r \<Rightarrow> r)"

abbreviation flushed :: "('m, 'z) BaseRoot_scheme \<Rightarrow> ('m, 'z) BaseRoot_scheme" where
  "flushed r \<equiv> at_base (version r) [] r"

text \<open>
  Saving a root on which events were recorded since it was loaded stores it; saving one whose base
  is not the stored root any more reports the two versions and stores nothing.
\<close>

locale repository_contract =
  fixes get :: "('id, ('m, 'z) BaseRoot_scheme, 'st) Getter"
    and save :: "(('m, 'z) BaseRoot_scheme, 'st) Saver"
    and t :: "('id, 'm, 'z) Type"
    and stored :: "'st \<Rightarrow> 'id \<Rightarrow> ('m, 'z) BaseRoot_scheme option"
    and invar :: "'st \<Rightarrow> bool"
  assumes factory_zero: "version (Factory t ()) = 0" "recordedEvents (Factory t ()) = []"
    and stored_flushed: "invar st \<Longrightarrow> stored st i = Some r \<Longrightarrow> recordedEvents r = [] \<and> version r \<noteq> 0"
    and get_missing:
      "invar st \<Longrightarrow> stored st i = None \<Longrightarrow>
       \<exists>e st'. get Background i st = Some (Inl e, st') \<and> caused_by e ErrRootNotFound \<and>
             stored st' = stored st \<and> invar st'"
    and get_found:
      "invar st \<Longrightarrow> stored st i = Some r \<Longrightarrow>
       \<exists>st'. get Background i st = Some (Inr r, st') \<and> stored st' = stored st \<and> invar st'"
    and save_ok:
      "invar st \<Longrightarrow> evts \<noteq> [] \<Longrightarrow>
       recordThat (Apply t) evts (base_root t (stored st i)) = (r, None) \<Longrightarrow> AggregateID t r = i \<Longrightarrow>
       unat (version (base_root t (stored st i))) + length evts < 2 ^ 32 \<Longrightarrow>
       \<exists>st'. save Background r st = (None, flushed r, st') \<and>
             stored st' i = Some (flushed r) \<and> invar st' \<and>
             (\<forall>j. String t j \<noteq> String t i \<longrightarrow> stored st' j = stored st j)"
    and save_conflict:
      "invar st \<Longrightarrow> recordedEvents r \<noteq> [] \<Longrightarrow>
       version r - version_of (recordedEvents r) \<noteq> version (base_root t (stored st (AggregateID t r))) \<Longrightarrow>
       \<exists>e st'. save Background r st = (Some e, flushed r, st') \<and>
             caused_by e (Conflict \<lparr>Expected = version r - version_of (recordedEvents r),
                                Actual = version (base_root t (stored st (AggregateID t r)))\<rparr>) \<and>
             stored st' = stored st \<and> invar st'"
begin

text \<open>What is saved is what is loaded next.\<close>

lemma get_after_save:
  assumes "invar st" and "evts \<noteq> []"
    and "recordThat (Apply t) evts (base_root t (stored st i)) = (r, None)" and "AggregateID t r = i"
    and "unat (version (base_root t (stored st i))) + length evts < 2 ^ 32"
  shows "\<exists>st' st''. save Background r st = (None, flushed r, st') \<and> invar st' \<and>
           get Background i st' = Some (Inr (flushed r), st'') \<and> invar st''"
proof -
  from save_ok [OF assms] obtain st' where s: "save Background r st = (None, flushed r, st')"
    "stored st' i = Some (flushed r)" "invar st'" by blast
  from get_found [OF s(3,2)] s show ?thesis by blast
qed

text \<open>
  Of two clients that start from the same stored root and both record events, the one that saves
  second gets a conflict, and the stored root is the first one's.
\<close>

lemma second_save_conflicts:
  assumes st: "invar st"
    and r1: "evts1 \<noteq> []" "recordThat (Apply t) evts1 (base_root t (stored st i)) = (r1, None)"
      "AggregateID t r1 = i" "unat (version (base_root t (stored st i))) + length evts1 < 2 ^ 32"
    and r2: "evts2 \<noteq> []" "AggregateID t r2 = i"
      "version r2 = version (base_root t (stored st i)) + version_of evts2" "recordedEvents r2 = evts2"
    and v1: "version r1 = version (base_root t (stored st i)) + version_of evts1"
  shows "\<exists>st1 e st2. save Background r1 st = (None, flushed r1, st1) \<and>
           save Background r2 st1 = (Some e, flushed r2, st2) \<and>
           caused_by e (Conflict \<lparr>Expected = version (base_root t (stored st i)), Actual = version r1\<rparr>) \<and>
           stored st2 i = Some (flushed r1) \<and> invar st2"
proof -
  from save_ok [OF st r1] obtain st1 where s1: "save Background r1 st = (None, flushed r1, st1)"
    "stored st1 i = Some (flushed r1)" "invar st1" by blast
  have base1: "version (base_root t (stored st1 (AggregateID t r2))) = version r1"
    using s1(2) r2(2) by (simp add: base_root_def)
  have "length evts1 < 2 ^ 32" and "length evts1 \<noteq> 0" using r1(1,4) by auto
  then have "version_of evts1 \<noteq> 0" by (simp add: len32_eq_0_iff)
  then have ne: "version r2 - version_of (recordedEvents r2) \<noteq> version r1"
    using r2 v1 by simp
  then have "version r2 - version_of (recordedEvents r2) \<noteq>
      version (base_root t (stored st1 (AggregateID t r2)))"
    unfolding base1 .
  from save_conflict [OF s1(3) _ this] r2 obtain e st2 where
    "save Background r2 st1 = (Some e, flushed r2, st2)"
    "caused_by e (Conflict \<lparr>Expected = version (base_root t (stored st i)), Actual = version r1\<rparr>)"
    "stored st2 = stored st1" "invar st2"
    unfolding base1 by auto
  with s1 show ?thesis by fastforce
qed

end

section \<open>The event-sourced repository keeps the contract\<close>

text \<open>
  What the library relies on in an aggregate type: an \<open>Apply\<close> that leaves \<open>BaseRoot\<close> alone, a
  factory of zero values and an identifier that does not depend on \<open>BaseRoot\<close>.
\<close>

locale aggregate_type = aggregate_root "Apply t" for t :: "('id, 'm, 'z) Type" +
  assumes fresh_factory: "version (Factory t ()) = 0" "recordedEvents (Factory t ()) = []"
    and id_oblivious: "AggregateID t (at_base v es r) = AggregateID t r"
begin

lemma rehydrate_fold:
  "version r = v \<Longrightarrow> replay (Apply t) (map Message es) r = (q, None) \<Longrightarrow>
   for_each (rehydrate_body (Apply t)) (persisted_from sid v es) r =
     (None, at_base (v + version_of es) (recordedEvents r) q)"
proof (induction es arbitrary: r v q)
  case Nil
  then show ?case by (simp add: at_base_refl)
next
  case (Cons e es)
  obtain p where a: "Apply t (Message e) r = (p, None)" and rest: "replay (Apply t) (map Message es) p = (q, None)"
    using Cons.prems by (auto split: prod.splits option.splits)
  have p: "recordedEvents p = recordedEvents r"
    using apply_base [of "Message e" r] a by simp
  have "replay (Apply t) (map Message es) (at_base (v + 1) (recordedEvents p) p) =
      (at_base (v + 1) (recordedEvents p) q, None)"
    by (simp add: replay_oblivious rest)
  from Cons.IH [OF _ this] a p show ?case
    by (simp add: rehydrate_body_def go_defs base_update_at_base algebra_simps)
qed

lemma rehydrate_fold_okD:
  "version r = v \<Longrightarrow> for_each (rehydrate_body (Apply t)) (persisted_from sid v es) r = (None, r') \<Longrightarrow>
   \<exists>q. replay (Apply t) (map Message es) r = (q, None)"
proof (induction es arbitrary: r v)
  case Nil
  then show ?case by simp
next
  case (Cons e es)
  obtain p x where a: "Apply t (Message e) r = (p, x)" by fastforce
  with Cons.prems have x: "x = None" by (auto simp: rehydrate_body_def split: option.splits)
  let ?p = "at_base (v + 1) (recordedEvents p) p"
  have "rehydrate_body (Apply t) \<lparr>StreamID = sid, Version = v + 1, Envelope = e\<rparr> r = (None, ?p)"
    using a x by (simp add: rehydrate_body_def go_defs base_update_at_base)
  then have "for_each (rehydrate_body (Apply t)) (persisted_from sid (v + 1) es) ?p = (None, r')"
    using Cons.prems(2) by simp
  from Cons.IH [OF _ this] obtain q where "replay (Apply t) (map Message es) ?p = (q, None)" by auto
  then have "snd (replay (Apply t) (map Message es) p) = None"
    by (simp add: replay_oblivious)
  then obtain q where "replay (Apply t) (map Message es) p = (q, None)" by (metis prod.collapse)
  with a x show ?case by simp
qed

text \<open>Events recorded on the fold of a log give the fold of the longer log.\<close>

lemma record_on_fold:
  assumes q: "replay (Apply t) (map Message es) (Factory t ()) = (q, None)" and root: "root = at_base (version_of es) [] q"
    and rec: "RecordThat t evts root = (root', None)"
  obtains p where "replay (Apply t) (map Message (es @ evts)) (Factory t ()) = (p, None)"
    and "root' = at_base (version_of (es @ evts)) evts p"
proof -
  from rec obtain p where p: "replay (Apply t) (map Message evts) root = (p, None)"
    and r: "root' = at_base (version_of (es @ evts)) evts p"
    by (auto simp: go_defs root elim!: recordThat_okD)
  let ?q = "fst (replay (Apply t) (map Message evts) q)"
  have pq: "p = at_base (version_of es) [] ?q" and "snd (replay (Apply t) (map Message evts) q) = None"
    using p by (simp_all add: root replay_oblivious)
  then have "replay (Apply t) (map Message (es @ evts)) (Factory t ()) = (?q, None)"
    by (simp add: replay_append_ok [OF q] prod_eq_iff)
  moreover have "root' = at_base (version_of (es @ evts)) evts ?q" by (simp add: r pq)
  ultimately show thesis by (rule that)
qed

end

locale event_sourced_reader = event_reader stream log invar + aggregate_type t
  for stream :: "('m, 'st) Streamer" and log :: "'st \<Rightarrow> StreamID \<Rightarrow> 'm Envelope list"
    and invar :: "'st \<Rightarrow> bool" and t :: "('id, 'm, 'z) Type"
begin

text \<open>\<open>Get\<close> is the fold of the log, and nothing is found exactly when the log is empty.\<close>

lemma get_folds:
  assumes "Stream es = stream" and "invar st" and "log st (String t i) = evs"
    and "replay (Apply t) (map Message evs) (Factory t ()) = (q, None)"
  shows "\<exists>st'. EventSourcedRepository_Get (NewEventSourcedRepository es t) Background i st =
           Some (if version_of evs = 0 then Inl ErrRootNotFound else Inr (at_base (version_of evs) [] q), st') \<and>
         log st' = log st \<and> invar st'"
proof -
  have fold: "for_each (rehydrate_body (Apply t)) (persisted_from (String t i) 0 evs) (Factory t ()) =
      (None, at_base (version_of evs) [] q)"
    using rehydrate_fold [OF fresh_factory(1) assms(4), of "String t i"] fresh_factory(2) by simp
  from for_range_stream [OF assms(2), of "rehydrate_body (Apply t)" "String t i" SelectFromBeginning "Factory t ()"]
  obtain strm st' where
    "for_range (rehydrate_body (Apply t)) (stream Background (String t i) SelectFromBeginning) st (Factory t ()) =
       Some (None, strm, st', at_base (version_of evs) [] q)"
    "Err strm = None" "log st' = log st" "invar st'"
    using assms(3) fold by auto
  then show ?thesis
    by (simp add: EventSourcedRepository_Get_def RehydrateFromEvents_def assms(1) go_defs Let_def)
qed

text \<open>Conversely, whatever \<open>Get\<close> loads is the fold of the log.\<close>

lemma get_foldsD:
  assumes es: "Stream es = stream" and inv: "invar st"
    and g: "EventSourcedRepository_Get (NewEventSourcedRepository es t) Background i st = Some (Inr root, st')"
  obtains q where "replay (Apply t) (map Message (log st (String t i))) (Factory t ()) = (q, None)"
    and "root = at_base (version_of (log st (String t i))) [] q"
    and "version_of (log st (String t i)) \<noteq> 0" and "log st' = log st" and "invar st'"
proof -
  let ?log = "log st (String t i)"
  let ?out = "for_each (rehydrate_body (Apply t)) (persisted_from (String t i) 0 ?log) (Factory t ())"
  from for_range_stream [OF inv, of "rehydrate_body (Apply t)" "String t i" SelectFromBeginning "Factory t ()"]
  have "fst ?out = None"
    using g by (auto simp: EventSourcedRepository_Get_def RehydrateFromEvents_def es go_defs Let_def split: option.splits)
  then obtain q where q: "replay (Apply t) (map Message ?log) (Factory t ()) = (q, None)"
    using rehydrate_fold_okD [OF fresh_factory(1), of "String t i" ?log "snd ?out"] by (metis prod.collapse)
  from get_folds [OF es inv refl q] g show thesis
    by (intro that [OF q]) (auto split: if_splits)
qed

end

locale event_sourced =
  event_store append stream log invar + aggregate_type t
  for append :: "('m, 'st) Appender" and stream :: "('m, 'st) Streamer"
    and log :: "'st \<Rightarrow> StreamID \<Rightarrow> 'm Envelope list" and invar :: "'st \<Rightarrow> bool"
    and t :: "('id, 'm, 'z) Type"

sublocale event_sourced \<subseteq> event_sourced_reader
  by unfold_locales

context event_sourced
begin

abbreviation repo :: "('id, 'm, 'z, 'st) EventSourcedRepository" where
  "repo \<equiv> NewEventSourcedRepository \<lparr>Append = append, Stream = stream\<rparr> t"

lemma get_replays:
  assumes "invar st" and "log st (String t i) = es"
    and "replay (Apply t) (map Message es) (Factory t ()) = (q, None)"
  shows "\<exists>st'. EventSourcedRepository_Get repo Background i st =
           Some (if version_of es = 0 then Inl ErrRootNotFound else Inr (at_base (version_of es) [] q), st') \<and>
         log st' = log st \<and> invar st'"
  by (rule get_folds [OF _ assms]) simp

text \<open>
  The stored root of an identifier is the fold of its log; the invariant says that every log folds
  without error and is short enough for its length to be a version.
\<close>

definition es_stored :: "'st \<Rightarrow> 'id \<Rightarrow> ('m, 'z) BaseRoot_scheme option" where
  "es_stored st i =
     (let es = log st (String t i) in
      if es = [] then None
      else Some (at_base (version_of es) [] (fst (replay (Apply t) (map Message es) (Factory t ())))))"

definition es_invar :: "'st \<Rightarrow> bool" where
  "es_invar st \<longleftrightarrow> invar st \<and>
     (\<forall>i. length (log st (String t i)) < 2 ^ 32 \<and>
          snd (replay (Apply t) (map Message (log st (String t i))) (Factory t ())) = None)"

lemma es_stored_cong: "log st' (String t i) = log st (String t i) \<Longrightarrow> es_stored st' i = es_stored st i"
  by (simp add: es_stored_def)

lemma es_invar_cong: "log st' = log st \<Longrightarrow> invar st' \<Longrightarrow> es_invar st \<Longrightarrow> es_invar st'"
  by (simp add: es_invar_def)

lemma es_base:
  assumes "es_invar st"
  shows "base_root t (es_stored st i) =
      at_base (version_of (log st (String t i))) []
        (fst (replay (Apply t) (map Message (log st (String t i))) (Factory t ())))"
  using fresh_factory by (auto simp: base_root_def es_stored_def Let_def at_base_refl)

lemma es_replay:
  assumes "es_invar st"
  obtains q where "replay (Apply t) (map Message (log st (String t i))) (Factory t ()) = (q, None)"
    and "base_root t (es_stored st i) = at_base (version_of (log st (String t i))) [] q"
  using assms es_base [OF assms, of i] by (auto simp: es_invar_def prod_eq_iff)

lemma save_appends:
  assumes "es_invar st" and "recordedEvents r \<noteq> []"
    and "version r - version_of (recordedEvents r) = version_of (log st (String t (AggregateID t r)))"
  shows "\<exists>st'. EventSourcedRepository_Save repo Background r st = (None, flushed r, st') \<and> invar st' \<and>
           log st' = (log st)(String t (AggregateID t r) :=
             log st (String t (AggregateID t r)) @ recordedEvents r)"
proof -
  let ?sid = "String t (AggregateID t r)"
  have "invar st" using assms(1) by (simp add: es_invar_def)
  from append_ok [OF this, of "CheckExact (version r - version_of (recordedEvents r))" ?sid Background "recordedEvents r"]
  obtain st' where "append Background ?sid (CheckExact (version r - version_of (recordedEvents r))) (recordedEvents r) st =
      ((version_of (log st ?sid @ recordedEvents r), None), st')"
    "log st' = (log st)(?sid := log st ?sid @ recordedEvents r)" "invar st'"
    using assms(3) by auto
  with assms(2) show ?thesis
    by (simp add: EventSourcedRepository_Save_def FlushRecordedEvents_eq id_oblivious go_defs Let_def)
qed

lemma save_rejects:
  assumes "invar st" and "recordedEvents r \<noteq> []"
    and "version r - version_of (recordedEvents r) \<noteq> version_of (log st (String t (AggregateID t r)))"
  shows "\<exists>e st'. EventSourcedRepository_Save repo Background r st = (Some e, flushed r, st') \<and> invar st' \<and>
           log st' = log st \<and>
           caused_by e (Conflict \<lparr>Expected = version r - version_of (recordedEvents r),
                              Actual = version_of (log st (String t (AggregateID t r)))\<rparr>)"
proof -
  let ?sid = "String t (AggregateID t r)"
  from append_conflict [OF assms(1,3), of Background "recordedEvents r"]
  obtain e st' where "append Background ?sid (CheckExact (version r - version_of (recordedEvents r)))
      (recordedEvents r) st = ((0, Some e), st')"
    "caused_by e (Conflict \<lparr>Expected = version r - version_of (recordedEvents r), Actual = version_of (log st ?sid)\<rparr>)"
    "log st' = log st" "invar st'" by blast
  with assms(2) show ?thesis
    by (simp add: EventSourcedRepository_Save_def FlushRecordedEvents_eq id_oblivious go_defs Let_def)
qed

lemma save_nothing:
  "recordedEvents r = [] \<Longrightarrow> EventSourcedRepository_Save repo ctx r st = (None, r, st)"
  by (simp add: EventSourcedRepository_Save_def FlushRecordedEvents_eq Let_def at_base_refl)

lemma es_repository:
  "repository_contract (EventSourcedRepository_Get repo) (EventSourcedRepository_Save repo) t es_stored es_invar"
proof unfold_locales
  show "version (Factory t ()) = 0" "recordedEvents (Factory t ()) = []"
    by (fact fresh_factory)+
next
  fix st i r
  assume "es_invar st" and "es_stored st i = Some r"
  then show "recordedEvents r = [] \<and> version r \<noteq> 0"
    by (auto simp: es_stored_def es_invar_def Let_def len32_eq_0_iff split: if_splits)
next
  fix st i
  assume inv: "es_invar st" and "es_stored st i = None"
  then have "log st (String t i) = []" by (simp add: es_stored_def Let_def split: if_splits)
  with inv get_replays [of st i "[]"] show "\<exists>e st'. EventSourcedRepository_Get repo Background i st = Some (Inl e, st') \<and>
      caused_by e ErrRootNotFound \<and> es_stored st' = es_stored st \<and> es_invar st'"
    by (fastforce simp: es_invar_def ErrRootNotFound_def es_stored_def)
next
  fix st i r
  assume inv: "es_invar st" and st: "es_stored st i = Some r"
  from inv obtain q where q: "replay (Apply t) (map Message (log st (String t i))) (Factory t ()) = (q, None)"
    and b: "base_root t (es_stored st i) = at_base (version_of (log st (String t i))) [] q"
    by (rule es_replay)
  have "version_of (log st (String t i)) \<noteq> 0"
    using inv st by (auto simp: es_stored_def es_invar_def Let_def len32_eq_0_iff split: if_splits)
  moreover have "invar st" using inv by (simp add: es_invar_def)
  ultimately show "\<exists>st'. EventSourcedRepository_Get repo Background i st = Some (Inr r, st') \<and>
      es_stored st' = es_stored st \<and> es_invar st'"
    using get_replays [OF _ refl q] st b inv by (fastforce simp: base_root_def es_invar_def es_stored_def)
next
  fix st evts i r
  assume inv: "es_invar st" and ne: "evts \<noteq> []"
    and r: "recordThat (Apply t) evts (base_root t (es_stored st i)) = (r, None)"
    and i: "AggregateID t r = i"
    and len: "unat (version (base_root t (es_stored st i))) + length evts < 2 ^ 32"
  let ?es = "log st (String t i)"
  from inv obtain q where q: "replay (Apply t) (map Message ?es) (Factory t ()) = (q, None)"
    and b: "base_root t (es_stored st i) = at_base (version_of ?es) [] q"
    by (rule es_replay)
  from r obtain p where p: "replay (Apply t) (map Message evts) (at_base (version_of ?es) [] q) = (p, None)"
    and rp: "r = at_base (version_of (?es @ evts)) evts p"
    by (auto simp: b elim!: recordThat_okD)
  have full: "replay (Apply t) (map Message (?es @ evts)) (Factory t ()) = (fst (replay (Apply t) (map Message evts) q), None)"
    using p replay_oblivious [of "map Message evts" "version_of ?es" "[]" q]
    by (simp add: replay_append_ok [OF q] prod_eq_iff)
  have pq: "p = at_base (version_of ?es) [] (fst (replay (Apply t) (map Message evts) q))"
    using p replay_oblivious [of "map Message evts" "version_of ?es" "[]" q] by simp
  from save_appends [OF inv, of r] ne i obtain st' where
    s: "EventSourcedRepository_Save repo Background r st = (None, flushed r, st')" "invar st'"
    and log': "log st' = (log st)(String t i := ?es @ evts)"
    by (auto simp: rp)
  have "length ?es < 2 ^ 32" using inv by (simp add: es_invar_def)
  with len have bound: "length (?es @ evts) < 2 ^ 32" by (simp add: b unat_len32)
  have "es_invar st'"
    using inv s(2) full bound by (auto simp: es_invar_def log')
  moreover have "es_stored st' i = Some (flushed r)"
    using ne full by (simp add: es_stored_def log' Let_def rp pq)
  ultimately show "\<exists>st'. EventSourcedRepository_Save repo Background r st = (None, flushed r, st') \<and>
      es_stored st' i = Some (flushed r) \<and> es_invar st' \<and>
      (\<forall>j. String t j \<noteq> String t i \<longrightarrow> es_stored st' j = es_stored st j)"
    using s by (auto simp: log' intro!: es_stored_cong)
next
  fix st r
  assume inv: "es_invar st" and ne: "recordedEvents r \<noteq> []"
    and v: "version r - version_of (recordedEvents r) \<noteq> version (base_root t (es_stored st (AggregateID t r)))"
  have b: "version (base_root t (es_stored st (AggregateID t r))) = version_of (log st (String t (AggregateID t r)))"
    using es_base [OF inv] by simp
  have "invar st" using inv by (simp add: es_invar_def)
  from save_rejects [OF this ne v [unfolded b]] inv
  show "\<exists>e st'. EventSourcedRepository_Save repo Background r st = (Some e, flushed r, st') \<and>
      caused_by e (Conflict \<lparr>Expected = version r - version_of (recordedEvents r),
                         Actual = version (base_root t (es_stored st (AggregateID t r)))\<rparr>) \<and>
      es_stored st' = es_stored st \<and> es_invar st'"
    unfolding b by (fastforce simp: es_stored_def es_invar_def)
qed

end

section \<open>Loading, recording and saving\<close>

context event_sourced
begin

lemmas get_okD = get_foldsD [where es = "\<lparr>Append = append, Stream = stream\<rparr>", unfolded Store.simps, OF refl]

text \<open>What a client that loads, records and saves achieves.\<close>

lemma load_record_save:
  assumes inv: "invar st" and g: "EventSourcedRepository_Get repo Background i st = Some (Inr root, st0)"
    and rec: "RecordThat t evts root = (root', None)" and "evts \<noteq> []" and i: "AggregateID t root' = i"
  obtains st1 where "EventSourcedRepository_Save repo Background root' st = (None, flushed root', st1)"
    and "log st1 = (log st)(String t i := log st (String t i) @ evts)" and "invar st1"
    and "version root' = version root + version_of evts" and "recordedEvents root' = evts"
proof -
  let ?log = "log st (String t i)"
  from get_okD [OF inv g] obtain q where root: "root = at_base (version_of ?log) [] q" by blast
  from rec have rec': "recordThat (Apply t) evts root = (root', None)" by (simp add: go_defs)
  then obtain p where "root' = at_base (version root + version_of evts) (recordedEvents root @ evts) p"
    by (rule recordThat_okD)
  then have r: "version root' = version root + version_of evts" "recordedEvents root' = evts"
    by (simp_all add: root)
  from append_ok [OF inv, of "CheckExact (version root)" "String t i" Background evts]
  obtain st1 where "append Background (String t i) (CheckExact (version root)) evts st =
      ((version_of (?log @ evts), None), st1)" "log st1 = (log st)(String t i := ?log @ evts)" "invar st1"
    by (auto simp: root)
  with r i \<open>evts \<noteq> []\<close> that show thesis
    by (simp add: EventSourcedRepository_Save_def FlushRecordedEvents_eq id_oblivious go_defs Let_def)
qed

lemma load_record_save_load:
  assumes inv: "invar st" and g: "EventSourcedRepository_Get repo Background i st = Some (Inr root, st0)"
    and rec: "RecordThat t evts root = (root', None)" and ne: "evts \<noteq> []" and i: "AggregateID t root' = i"
    and bound: "length (log st (String t i)) + length evts < 2 ^ 32"
  shows "\<exists>st1 st2. EventSourcedRepository_Save repo Background root' st = (None, flushed root', st1) \<and>
     EventSourcedRepository_Get repo Background i st1 = Some (Inr (flushed root'), st2)"
proof -
  let ?log = "log st (String t i)"
  from get_okD [OF inv g] obtain q where q: "replay (Apply t) (map Message ?log) (Factory t ()) = (q, None)"
    and root: "root = at_base (version_of ?log) [] q" by blast
  from load_record_save [OF inv g rec ne i] obtain st1 where
    s: "EventSourcedRepository_Save repo Background root' st = (None, flushed root', st1)"
    and log': "log st1 = (log st)(String t i := ?log @ evts)" and "invar st1" by blast
  from record_on_fold [OF q root rec] obtain p where
    p: "replay (Apply t) (map Message (?log @ evts)) (Factory t ()) = (p, None)"
    and r: "root' = at_base (version_of (?log @ evts)) evts p" .
  have "version_of (?log @ evts) \<noteq> (0 :: Version)"
    using ne bound by (subst len32_eq_0_iff) auto
  then show ?thesis
    using get_replays [OF \<open>invar st1\<close> _ p, of i] s by (auto simp: log' r)
qed

lemma second_writer_conflicts:
  assumes inv: "invar st" and g: "EventSourcedRepository_Get repo Background i st = Some (Inr root, st0)"
    and r1: "RecordThat t evts1 root = (root1, None)" "evts1 \<noteq> []" "AggregateID t root1 = i"
    and r2: "RecordThat t evts2 root = (root2, None)" "evts2 \<noteq> []" "AggregateID t root2 = i"
    and bound: "length (log st (String t i)) + length evts1 < 2 ^ 32"
  shows "\<exists>st1 e st2. EventSourcedRepository_Save repo Background root1 st = (None, flushed root1, st1) \<and>
     EventSourcedRepository_Save repo Background root2 st1 = (Some e, flushed root2, st2) \<and>
     caused_by e (Conflict \<lparr>Expected = version root, Actual = version root1\<rparr>) \<and>
     log st2 = (log st)(String t i := log st (String t i) @ evts1)"
proof -
  let ?log = "log st (String t i)"
  from load_record_save [OF inv g r1] obtain st1 where
    s1: "EventSourcedRepository_Save repo Background root1 st = (None, flushed root1, st1)"
    and log1: "log st1 = (log st)(String t i := ?log @ evts1)" and inv1: "invar st1"
    and v1: "version root1 = version root + version_of evts1" by blast
  from load_record_save [OF inv g r2] have
    v2: "version root2 = version root + version_of evts2" "recordedEvents root2 = evts2" by blast+
  from get_okD [OF inv g] obtain q where "root = at_base (version_of ?log) [] q" by blast
  then have root: "version root = version_of ?log" by simp
  have "(version_of evts1 :: Version) \<noteq> 0"
    using r1(2) bound by (subst len32_eq_0_iff) auto
  moreover have base: "version root2 - version_of (recordedEvents root2) = version root"
    by (simp add: v2)
  moreover have actual: "version_of (log st1 (String t (AggregateID t root2))) = version root1"
    by (simp add: r2(3) log1 v1 root)
  ultimately have "version root2 - version_of (recordedEvents root2) \<noteq>
      version_of (log st1 (String t (AggregateID t root2)))"
    by (simp add: v1)
  moreover have "recordedEvents root2 \<noteq> []" using v2(2) r2(2) by simp
  ultimately obtain e st2 where
    "EventSourcedRepository_Save repo Background root2 st1 = (Some e, flushed root2, st2)" "log st2 = log st1"
    "caused_by e (Conflict \<lparr>Expected = version root, Actual = version root1\<rparr>)"
    using save_rejects [OF inv1, of root2] unfolding base actual by blast
  with s1 log1 show ?thesis by metis
qed

end

section \<open>Properties\<close>

text \<open>C15: \<open>Save\<close> takes the uncommitted events off the root before it appends them, so after a failed
  \<open>Save\<close>, on any event store and for any error, saving the same root again reports success and
  touches nothing: the events are lost, and a caller has to load the root anew.\<close>

theorem EventSourcedRepository_retry_is_void:
  assumes "EventSourcedRepository_Save repo ctx root st = (Some e, root', st')"
  shows "recordedEvents root \<noteq> [] \<and> version root' = version root \<and>
     EventSourcedRepository_Save repo ctx' root' st' = (None, root', st')"
proof -
  have "root' = flushed root" and "recordedEvents root \<noteq> []"
    using assms by (auto simp: EventSourcedRepository_Save_def FlushRecordedEvents_eq Let_def
        split: prod.splits option.splits if_splits)
  then show ?thesis by (simp add: EventSourcedRepository_Save_def FlushRecordedEvents_eq)
qed

end
