(* ===== verification/Tracking_Store.thy ===== *)
theory Tracking_Store
  imports InMemory_Store
begin

text \<open>
  File \<open>event/store_tracking.go\<close>: the wrapper that records what is appended through it, and
  \<open>event.FusedStore\<close>. The wrapped store is any \<open>event_store\<close>; its state is the field \<open>inner\<close>.
\<close>

record ('m, 'st) TrackingStore =
  inner :: 'st
  recorded :: "'m Persisted list"

definition NewTrackingStore :: "'st \<Rightarrow> ('m, 'st) TrackingStore" where
  "NewTrackingStore store = \<lparr>inner = store, recorded = []\<rparr>"

definition Recorded :: "('m, 'st) TrackingStore \<Rightarrow> 'm Persisted list" where
  "Recorded es = recorded es"

primrec TrackingStore_record_loop ::
  "StreamID \<Rightarrow> Version \<Rightarrow> nat \<Rightarrow> 'm Envelope list \<Rightarrow> 'm Persisted list \<Rightarrow> 'm Persisted list" where
  "TrackingStore_record_loop sid previousVersion i [] acc = acc"
| "TrackingStore_record_loop sid previousVersion i (evt # evts) acc =
     TrackingStore_record_loop sid previousVersion (Suc i) evts
       (acc @ [\<lparr>StreamID = sid, Version = previousVersion + word_of_nat i + 1, Envelope = evt\<rparr>])"

definition TrackingStore_Append ::
  "('m, 'st) Appender \<Rightarrow> ('m, ('m, 'st) TrackingStore) Appender" where
  "TrackingStore_Append store_append ctx sid expected evts es =
     (let ((v, err), st) = store_append ctx sid expected evts (inner es);
          es' = es\<lparr>inner := st\<rparr>
      in case err of
           Some e \<Rightarrow> ((v, Some e), es')
         | None \<Rightarrow>
             (let previousVersion = v - version_of evts
              in ((v, None),
                  es'\<lparr>recorded := TrackingStore_record_loop sid previousVersion 0 evts (recorded es')\<rparr>)))"

text \<open>\<open>Stream\<close> is the embedded store's method.\<close>

definition TrackingStore_Stream ::
  "('m, 'st) Streamer \<Rightarrow> ('m, ('m, 'st) TrackingStore) Streamer" where
  "TrackingStore_Stream stream ctx sid selector =
     stream_on inner (\<lambda>st es. es\<lparr>inner := st\<rparr>) (stream ctx sid selector)"

definition TrackingStore_Store :: "('m, 'st) Store \<Rightarrow> ('m, ('m, 'st) TrackingStore) Store" where
  [go_defs]: "TrackingStore_Store store =
     \<lparr>Append = TrackingStore_Append (Append store), Stream = TrackingStore_Stream (Stream store)\<rparr>"

lemma record_loop_eq:
  "TrackingStore_record_loop sid v i evts acc = acc @ persisted_from sid (v + word_of_nat i) evts"
  by (induction evts arbitrary: i acc) (auto simp: algebra_simps)

text \<open>
  The wrapper keeps the contract of the store it wraps, and what it records for a stream is the
  part of that stream's log appended since the wrapper was made.
\<close>

definition tracks ::
  "('st \<Rightarrow> StreamID \<Rightarrow> 'm Envelope list) \<Rightarrow> (StreamID \<Rightarrow> 'm Envelope list) \<Rightarrow>
   ('m, 'st) TrackingStore \<Rightarrow> bool" where
  "tracks log log0 es \<longleftrightarrow>
     (\<forall>sid. \<exists>new. log (inner es) sid = log0 sid @ new \<and>
        filter (\<lambda>p. StreamID p = sid) (recorded es) = persisted_from sid (version_of (log0 sid)) new)"

lemma filter_StreamID_persisted_from [simp]:
  "filter (\<lambda>p. StreamID p = sid') (persisted_from sid v es) =
     (if sid' = sid then persisted_from sid v es else [])"
  by (induction es arbitrary: v) auto

context event_store
begin

lemma tracking_append_log:
  assumes "invar (inner es)"
  shows "tracks log log0 es \<Longrightarrow> tracks log log0 (snd (TrackingStore_Append append ctx sid expected evts es))"
proof (rule append_cases [OF assms, of expected sid ctx evts])
  fix st'
  assume tr: "tracks log log0 es"
    and ok: "append ctx sid expected evts (inner es) =
               ((version_of (log (inner es) sid @ evts), None), st')"
    and log': "log st' = (log (inner es))(sid := log (inner es) sid @ evts)"
  let ?es' = "snd (TrackingStore_Append append ctx sid expected evts es)"
  have rec: "recorded ?es' = recorded es @ persisted_from sid (version_of (log (inner es) sid)) evts"
    and inn: "inner ?es' = st'"
    using ok by (simp_all add: TrackingStore_Append_def record_loop_eq)
  show "tracks log log0 ?es'"
    unfolding tracks_def inn log' rec
  proof
    fix sid'
    from tr obtain new where new: "log (inner es) sid' = log0 sid' @ new"
      "filter (\<lambda>p. StreamID p = sid') (recorded es) = persisted_from sid' (version_of (log0 sid')) new"
      by (auto simp: tracks_def)
    then show "\<exists>new. ((log (inner es))(sid := log (inner es) sid @ evts)) sid' = log0 sid' @ new \<and>
        filter (\<lambda>p. StreamID p = sid')
          (recorded es @ persisted_from sid (version_of (log (inner es) sid)) evts) =
        persisted_from sid' (version_of (log0 sid')) new"
      by (intro exI [of _ "new @ (if sid' = sid then evts else [])"])
        (auto simp: persisted_from_append)
  qed
qed (simp_all add: tracks_def TrackingStore_Append_def)

lemma tracking_event_store:
  "event_store (TrackingStore_Append append) (TrackingStore_Stream stream)
     (\<lambda>es. log (inner es)) (\<lambda>es. invar (inner es))"
proof unfold_locales
  fix st :: "('m, 'st) TrackingStore" and expected sid ctx and evts :: "'m Envelope list"
  assume "invar (inner st)" and "check_passes expected (version_of (log (inner st) sid))"
  from append_ok [OF this, of ctx evts]
  show "\<exists>st'. TrackingStore_Append append ctx sid expected evts st =
          ((version_of (log (inner st) sid @ evts), None), st') \<and>
        log (inner st') = (log (inner st))(sid := log (inner st) sid @ evts) \<and> invar (inner st')"
    by (auto simp: TrackingStore_Append_def)
next
  fix st :: "('m, 'st) TrackingStore" and v sid ctx and evts :: "'m Envelope list"
  assume "invar (inner st)" and "v \<noteq> version_of (log (inner st) sid)"
  from append_conflict [OF this, of ctx evts]
  show "\<exists>e st'. TrackingStore_Append append ctx sid (CheckExact v) evts st = ((0, Some e), st') \<and>
        caused_by e (Conflict \<lparr>Expected = v, Actual = version_of (log (inner st) sid)\<rparr>) \<and>
        log (inner st') = log (inner st) \<and> invar (inner st')"
    by (auto simp: TrackingStore_Append_def)
next
  fix ctx sid selector
  show "\<not> iterated (TrackingStore_Stream stream ctx sid selector)"
    by (simp add: TrackingStore_Stream_def stream_fresh)
next
  fix st :: "('m, 'st) TrackingStore" and sid selector
  assume "invar (inner st)"
  from stream_feed [OF this, of sid selector]
  show "\<exists>st'. produce (TrackingStore_Stream stream Background sid selector) st =
          feed (filter (selects selector) (persisted_from sid 0 (log (inner st) sid))) None st' \<and>
        log (inner st') = log (inner st) \<and> invar (inner st')"
    by (auto simp: TrackingStore_Stream_def)
qed

end

interpretation tracked: event_store
  "TrackingStore_Append InMemoryStore_Append" "TrackingStore_Stream InMemoryStore_Stream"
  "\<lambda>es. mem_log (inner es)" "\<lambda>_. True"
  by (rule mem.tracking_event_store)

text \<open>A run of appends through a store, ignoring the results as the callers may.\<close>

fun run_appends ::
  "('m, 'st) Appender \<Rightarrow> ctx \<Rightarrow> (StreamID \<times> Check \<times> 'm Envelope list) list \<Rightarrow> 'st \<Rightarrow> 'st" where
  "run_appends store_append ctx [] st = st"
| "run_appends store_append ctx ((sid, expected, evts) # ops) st =
     run_appends store_append ctx ops (snd (store_append ctx sid expected evts st))"

lemma run_appends_tracks:
  "tracks mem_log log0 es \<Longrightarrow>
   tracks mem_log log0 (run_appends (TrackingStore_Append InMemoryStore_Append) ctx ops es)"
  by (induction ops arbitrary: es) (auto simp: mem.tracking_append_log)

lemma tracks_New: "tracks log (log st) (NewTrackingStore st)"
  by (auto simp: tracks_def NewTrackingStore_def)

text \<open>Whatever is appended through a tracking store around an in-memory store, successes and
  conflicts in any order and on any streams, the events it recorded for a stream are exactly those
  the store would replay beyond what it held when the wrapper was made, with the same versions.\<close>

theorem TrackingStore_records_replay:
  "let es = run_appends (TrackingStore_Append InMemoryStore_Append) ctx ops (NewTrackingStore es0)
   in persisted_from sid 0 (mem_log (inner es) sid) =
      persisted_from sid 0 (mem_log es0 sid) @ filter (\<lambda>p. StreamID p = sid) (Recorded es)"
proof -
  let ?es = "run_appends (TrackingStore_Append InMemoryStore_Append) ctx ops (NewTrackingStore es0)"
  have "tracks mem_log (mem_log es0) ?es"
    by (rule run_appends_tracks) (rule tracks_New)
  then obtain new where "mem_log (inner ?es) sid = mem_log es0 sid @ new"
    "filter (\<lambda>p. StreamID p = sid) (recorded ?es) =
       persisted_from sid (version_of (mem_log es0 sid)) new"
    unfolding tracks_def by blast
  then show ?thesis by (simp add: Recorded_def persisted_from_append Let_def)
qed

end
