(* ===== verification/Command.thy ===== *)
theory Command
  imports Tracking_Store
begin

text \<open>
  Package \<open>command\<close> (\<open>command/command.go\<close>, \<open>command/scenario.go\<close>): command envelopes, handlers and
  the scenario that runs a handler against an in-memory store.
\<close>

section \<open>Commands and handlers\<close>

text \<open>
  A handler works on the state \<open>'st\<close> its repositories and stores live in; \<open>None\<close> is a panic.
\<close>

type_synonym ('cmd, 'st) Command_Handler = "ctx \<Rightarrow> 'cmd Envelope \<Rightarrow> 'st \<Rightarrow> (error option \<times> 'st) option"

definition Command_HandlerFunc_Handle :: "('cmd, 'st) Command_Handler \<Rightarrow> ('cmd, 'st) Command_Handler" where
  [go_defs]: "Command_HandlerFunc_Handle fn ctx cmd st = fn ctx cmd st"

definition Command_ToEnvelope :: "'cmd \<Rightarrow> 'cmd Envelope" where
  [go_defs]: "Command_ToEnvelope cmd = \<lparr>Message = cmd, Metadata = None\<rparr>"

definition Command_ToGenericEnvelope :: "('t \<Rightarrow> 'm) \<Rightarrow> 't Envelope \<Rightarrow> 'm Envelope" where
  [go_defs]: "Command_ToGenericEnvelope as_command cmd =
     \<lparr>Message = as_command (Message cmd), Metadata = Metadata cmd\<rparr>"

text \<open>
  The type assertion \<open>cmd.Message.(T)\<close> is \<open>assert_T\<close>. On failure Go returns the zero envelope and
  false; the zero envelope is not used and the result is \<open>None\<close>.
\<close>

definition FromGenericEnvelope :: "('m \<Rightarrow> 't option) \<Rightarrow> 'm Envelope \<Rightarrow> 't Envelope option" where
  "FromGenericEnvelope assert_T cmd =
     (case assert_T (Message cmd) of
        Some v \<Rightarrow> Some \<lparr>Message = v, Metadata = Metadata cmd\<rparr>
      | None \<Rightarrow> None)"

lemma FromGenericEnvelope_ToGenericEnvelope:
  "assert_T (as_command (Message cmd)) = Some (Message cmd) \<Longrightarrow>
   FromGenericEnvelope assert_T (Command_ToGenericEnvelope as_command cmd) = Some (cmd :: 't Envelope)"
  by (cases cmd) (simp add: FromGenericEnvelope_def go_defs)

section \<open>The scenario\<close>

text \<open>
  \<open>ScenarioThen\<close> carries everything the builder collected. The elements of \<open>errors\<close> may be nil.
\<close>

datatype Command_ScenarioInit = Command_ScenarioInit

record 'm Command_ScenarioGiven =
  cmd_given :: "'m Persisted list"

record ('m, 'cmd) Command_ScenarioWhen = "'m Command_ScenarioGiven" +
  cmd_when :: "'cmd Envelope"

record ('m, 'cmd) Command_ScenarioThen = "('m, 'cmd) Command_ScenarioWhen" +
  cmd_then :: "'m Persisted list"
  cmd_errors :: "error option list"
  cmd_wantErr :: bool

definition Command_Scenario :: Command_ScenarioInit where
  [go_defs]: "Command_Scenario = Command_ScenarioInit"

definition Command_Given :: "Command_ScenarioInit \<Rightarrow> 'm Persisted list \<Rightarrow> 'm Command_ScenarioGiven" where
  [go_defs]: "Command_Given sc evts = \<lparr>cmd_given = evts\<rparr>"

definition Command_Scenario_When :: "Command_ScenarioInit \<Rightarrow> 'cmd Envelope \<Rightarrow> ('m, 'cmd) Command_ScenarioWhen" where
  [go_defs]: "Command_Scenario_When sc cmd = \<lparr>cmd_given = [], cmd_when = cmd\<rparr>"

definition Command_Scenario_Given_When ::
  "'m Command_ScenarioGiven \<Rightarrow> 'cmd Envelope \<Rightarrow> ('m, 'cmd) Command_ScenarioWhen" where
  [go_defs]: "Command_Scenario_Given_When sc cmd = \<lparr>cmd_given = cmd_given sc, cmd_when = cmd\<rparr>"

definition Command_Then ::
  "('m, 'cmd) Command_ScenarioWhen \<Rightarrow> 'm Persisted list \<Rightarrow> ('m, 'cmd) Command_ScenarioThen" where
  [go_defs]: "Command_Then sc evts = \<lparr>cmd_given = cmd_given sc, cmd_when = cmd_when sc,
     cmd_then = evts, cmd_errors = [], cmd_wantErr = False\<rparr>"

definition Command_ThenErrors ::
  "('m, 'cmd) Command_ScenarioWhen \<Rightarrow> error option list \<Rightarrow> ('m, 'cmd) Command_ScenarioThen" where
  [go_defs]: "Command_ThenErrors sc errs = \<lparr>cmd_given = cmd_given sc, cmd_when = cmd_when sc,
     cmd_then = [], cmd_errors = errs, cmd_wantErr = True\<rparr>"

definition Command_ThenError ::
  "('m, 'cmd) Command_ScenarioWhen \<Rightarrow> error option \<Rightarrow> ('m, 'cmd) Command_ScenarioThen" where
  [go_defs]: "Command_ThenError sc e = \<lparr>cmd_given = cmd_given sc, cmd_when = cmd_when sc,
     cmd_then = [], cmd_errors = [e], cmd_wantErr = True\<rparr>"

definition Command_ThenFails ::
  "('m, 'cmd) Command_ScenarioWhen \<Rightarrow> ('m, 'cmd) Command_ScenarioThen" where
  [go_defs]: "Command_ThenFails sc = \<lparr>cmd_given = cmd_given sc, cmd_when = cmd_when sc,
     cmd_then = [], cmd_errors = [], cmd_wantErr = True\<rparr>"

text \<open>
  The loop over the given events; \<open>None\<close> is the test stopped by \<open>require.NoError\<close>.
\<close>

primrec Command_seed :: "'m Persisted list \<Rightarrow> 'm InMemoryStore \<Rightarrow> 'm InMemoryStore option" where
  "Command_seed [] store = Some store"
| "Command_seed (evt # evts) store =
     (case InMemoryStore_Append Background (StreamID evt) Any [Envelope evt] store of
        ((_, Some e), store') \<Rightarrow> None
      | ((_, None), store') \<Rightarrow> Command_seed evts store')"

text \<open>
  The checks on an error that was wanted: each expected error must be found in it, unless all
  expected errors are nil.
\<close>

definition error_as_expected :: "error option list \<Rightarrow> error option \<Rightarrow> bool" where
  "error_as_expected errs e \<longleftrightarrow>
     e \<noteq> None \<and> (errors_Join errs \<noteq> None \<longrightarrow> list_all (errors_Is_opt e) errs)"

text \<open>
  \<open>AssertOn\<close>: whether the test passes, or \<open>None\<close> when the handler panics. The handler appends
  through the tracking store and streams from the store it wraps.
\<close>

definition Command_AssertOn ::
  "('m, 'cmd) Command_ScenarioThen \<Rightarrow>
   (('m, ('m, 'm InMemoryStore) TrackingStore) Store \<Rightarrow>
    ('cmd, ('m, 'm InMemoryStore) TrackingStore) Command_Handler) \<Rightarrow> bool option" where
  "Command_AssertOn sc handlerFactory =
     (case Command_seed (cmd_given sc) NewInMemoryStore of
        None \<Rightarrow> Some False
      | Some store \<Rightarrow>
          (let trackingStore = NewTrackingStore store;
               handler = handlerFactory
                 (FusedStore (TrackingStore_Append InMemoryStore_Append)
                   (\<lambda>ctx sid selector.
                     stream_on inner (\<lambda>st es. es\<lparr>inner := st\<rparr>) (InMemoryStore_Stream ctx sid selector)))
           in case handler Background (cmd_when sc) trackingStore of
                None \<Rightarrow> None
              | Some (e, trackingStore') \<Rightarrow>
                  Some (if cmd_wantErr sc then error_as_expected (cmd_errors sc) e
                        else e = None \<and> cmd_then sc = Recorded trackingStore')))"

section \<open>What the scenario checks\<close>

text \<open>
  Seeding never stops the test, whatever the versions of the given events: the store ends up with
  the given envelopes of each stream, in their order.
\<close>

lemma Command_seed_log:
  "\<exists>store'. Command_seed evts store = Some store' \<and>
     (\<forall>sid. mem_log store' sid = mem_log store sid @ map Envelope (filter (\<lambda>p. StreamID p = sid) evts))"
proof (induction evts arbitrary: store)
  case Nil
  then show ?case by simp
next
  case (Cons evt evts)
  let ?store = "store\<lparr>events := (events store)(StreamID evt \<mapsto> mem_log store (StreamID evt) @ [Envelope evt])\<rparr>"
  have step: "InMemoryStore_Append Background (StreamID evt) Any [Envelope evt] store =
      ((version_of (mem_log store (StreamID evt) @ [Envelope evt]), None), ?store)"
    by (rule InMemoryStore_Append_ok) (simp add: Any_def)
  from Cons.IH [of ?store] obtain store' where s: "Command_seed evts ?store = Some store'"
    "\<forall>sid. mem_log store' sid = mem_log ?store sid @ map Envelope (filter (\<lambda>p. StreamID p = sid) evts)"
    by blast
  show ?case
    using s by (intro exI [of _ store']) (simp add: step del: length_append)
qed

text \<open>The command scenario never fails on its preconditions: the handler under test runs on a
  store whose streams hold the given events' envelopes in order (their versions do not matter), and
  \<open>AssertOn\<close> passes exactly when the handler's error and the events the tracking store recorded
  are the expected ones.\<close>

theorem Command_AssertOn_iff:
  "\<exists>store. (\<forall>sid. mem_log store sid = map Envelope (filter (\<lambda>p. StreamID p = sid) (cmd_given sc))) \<and>
     Command_AssertOn sc handlerFactory =
       (case handlerFactory (TrackingStore_Store InMemoryStore_Store) Background (cmd_when sc)
               (NewTrackingStore store) of
          None \<Rightarrow> None
        | Some (e, es) \<Rightarrow>
            Some (if cmd_wantErr sc
                  then e \<noteq> None \<and> (set (cmd_errors sc) \<subseteq> {None} \<or> list_all (errors_Is_opt e) (cmd_errors sc))
                  else e = None \<and> cmd_then sc = Recorded es))"
proof -
  from Command_seed_log [of "cmd_given sc" NewInMemoryStore] obtain store where
    seed: "Command_seed (cmd_given sc) NewInMemoryStore = Some store"
    and log: "\<forall>sid. mem_log store sid = map Envelope (filter (\<lambda>p. StreamID p = sid) (cmd_given sc))"
    by auto
  have fused: "FusedStore (TrackingStore_Append InMemoryStore_Append)
      (\<lambda>ctx sid selector. stream_on inner (\<lambda>st es. es\<lparr>inner := st\<rparr>) (InMemoryStore_Stream ctx sid selector)) =
      TrackingStore_Store InMemoryStore_Store"
    by (simp add: go_defs TrackingStore_Stream_def fun_eq_iff)
  have checks: "error_as_expected errs e \<longleftrightarrow>
      e \<noteq> None \<and> (set errs \<subseteq> {None} \<or> list_all (errors_Is_opt e) errs)" for errs e
    using errors_Join_eq_None_iff [of errs] by (auto simp: error_as_expected_def)
  show ?thesis
    using log by (intro exI [of _ store])
      (simp add: Command_AssertOn_def seed fused checks Let_def split: option.split prod.split)
qed

end
