(* ===== verification/Aggregate_Scenario.thy ===== *)
theory Aggregate_Scenario
  imports Repository Command
begin

text \<open>
  File \<open>aggregate/scenario.go\<close>: the scenario that rehydrates an aggregate root from given events,
  runs a method on it and checks what it recorded.
\<close>

record ('id, 'm, 'z) Agg_ScenarioInit =
  init_typ :: "('id, 'm, 'z) Type"

record ('id, 'm, 'z) Agg_ScenarioGiven =
  given_typ :: "('id, 'm, 'z) Type"
  given_events :: "'m Persisted list"

text \<open>\<open>fn\<close> returns the new root or an error; \<open>None\<close> is a panic.\<close>

record ('id, 'm, 'z) Agg_ScenarioWhen =
  agg_typ :: "('id, 'm, 'z) Type"
  agg_given :: "'m Persisted list"
  agg_fn :: "unit \<Rightarrow> (error + ('m, 'z) BaseRoot_scheme) option"

record ('id, 'm, 'z) Agg_ScenarioThen = "('id, 'm, 'z) Agg_ScenarioWhen" +
  agg_version :: Version
  agg_expected :: "'m Envelope list"
  agg_errors :: "error option list"
  agg_wantErr :: bool

definition Agg_Scenario :: "('id, 'm, 'z) Type \<Rightarrow> ('id, 'm, 'z) Agg_ScenarioInit" where
  [go_defs]: "Agg_Scenario t = \<lparr>init_typ = t\<rparr>"

definition Agg_Init_When ::
  "('id, 'm, 'z) Agg_ScenarioInit \<Rightarrow> (unit \<Rightarrow> (error + ('m, 'z) BaseRoot_scheme) option) \<Rightarrow>
   ('id, 'm, 'z) Agg_ScenarioWhen" where
  [go_defs]: "Agg_Init_When sc fn = \<lparr>agg_typ = init_typ sc, agg_given = [], agg_fn = fn\<rparr>"

text \<open>
  \<open>Scenario(typ).Given(events).When(fn)\<close>: \<open>fn\<close> mutates the root it is given and may fail. The
  stream is made from a slice and carries no store.
\<close>

definition Agg_Given ::
  "('id, 'm, 'z) Agg_ScenarioInit \<Rightarrow> 'm Persisted list \<Rightarrow> ('id, 'm, 'z) Agg_ScenarioGiven" where
  [go_defs]: "Agg_Given sc evts = \<lparr>given_typ = init_typ sc, given_events = evts\<rparr>"

definition Agg_Given_When ::
  "('id, 'm, 'z) Agg_ScenarioGiven \<Rightarrow>
   (('m, 'z) BaseRoot_scheme \<Rightarrow> ('m, 'z) BaseRoot_scheme \<times> error option) \<Rightarrow>
   ('id, 'm, 'z) Agg_ScenarioWhen" where
  "Agg_Given_When sc fn =
     \<lparr>agg_typ = given_typ sc, agg_given = given_events sc,
      agg_fn = (\<lambda>_.
        (let root = Factory (given_typ sc) ();
             eventStream = SliceToStream (given_events sc)
         in case RehydrateFromEvents (Apply (given_typ sc)) root eventStream () of
              None \<Rightarrow> None
            | Some (Some e, root', _) \<Rightarrow> Some (Inl e)
            | Some (None, root', _) \<Rightarrow>
                (case fn root' of
                   (root'', Some e) \<Rightarrow> Some (Inl e)
                 | (root'', None) \<Rightarrow> Some (Inr root''))))\<rparr>"

definition Agg_Then ::
  "('id, 'm, 'z) Agg_ScenarioWhen \<Rightarrow> Version \<Rightarrow> 'm Envelope list \<Rightarrow> ('id, 'm, 'z) Agg_ScenarioThen" where
  [go_defs]: "Agg_Then sc v evts = \<lparr>agg_typ = agg_typ sc, agg_given = agg_given sc, agg_fn = agg_fn sc,
     agg_version = v, agg_expected = evts, agg_errors = [], agg_wantErr = False\<rparr>"

definition Agg_ThenErrors ::
  "('id, 'm, 'z) Agg_ScenarioWhen \<Rightarrow> error option list \<Rightarrow> ('id, 'm, 'z) Agg_ScenarioThen" where
  [go_defs]: "Agg_ThenErrors sc errs = \<lparr>agg_typ = agg_typ sc, agg_given = agg_given sc, agg_fn = agg_fn sc,
     agg_version = 0, agg_expected = [], agg_errors = errs, agg_wantErr = True\<rparr>"

definition Agg_ThenError ::
  "('id, 'm, 'z) Agg_ScenarioWhen \<Rightarrow> error option \<Rightarrow> ('id, 'm, 'z) Agg_ScenarioThen" where
  [go_defs]: "Agg_ThenError sc e = \<lparr>agg_typ = agg_typ sc, agg_given = agg_given sc, agg_fn = agg_fn sc,
     agg_version = 0, agg_expected = [], agg_errors = [e], agg_wantErr = True\<rparr>"

definition Agg_ThenFails :: "('id, 'm, 'z) Agg_ScenarioWhen \<Rightarrow> ('id, 'm, 'z) Agg_ScenarioThen" where
  [go_defs]: "Agg_ThenFails sc = \<lparr>agg_typ = agg_typ sc, agg_given = agg_given sc, agg_fn = agg_fn sc,
     agg_version = 0, agg_expected = [], agg_errors = [], agg_wantErr = True\<rparr>"

definition Agg_AssertOn :: "('id, 'm, 'z) Agg_ScenarioThen \<Rightarrow> bool option" where
  "Agg_AssertOn sc =
     (case agg_fn sc () of
        None \<Rightarrow> None
      | Some res \<Rightarrow>
          Some (if agg_wantErr sc
                then (case res of Inl e \<Rightarrow> error_as_expected (agg_errors sc) (Some e) | Inr root \<Rightarrow> False)
                else
                  (case res of
                     Inl e \<Rightarrow> False
                   | Inr root \<Rightarrow>
                       (let (evts, root') = FlushRecordedEvents root
                        in agg_expected sc = evts \<and> agg_version sc = version root'))))"

section \<open>What the scenario checks\<close>

context aggregate_type
begin

lemma rehydrate_slice:
  assumes "replay (Apply t) (map Message es) (Factory t ()) = (q, None)"
  shows "RehydrateFromEvents (Apply t) (Factory t ()) (SliceToStream (persisted_from sid 0 es)) st =
           Some (None, at_base (version_of es) [] q, st)"
  using rehydrate_fold [OF fresh_factory(1) assms, of sid]
  by (simp add: RehydrateFromEvents_def for_range_fresh Err_def fresh_factory)

lemma scenario_checks:
  assumes q: "replay (Apply t) (map Message before) (Factory t ()) = (q, None)"
  shows "Agg_AssertOn (Agg_Then (Agg_Given_When (Agg_Given (Agg_Scenario t) (persisted_from sid 0 before)) (RecordThat t evts))
            v expected) =
         Some (snd (replay (Apply t) (map Message evts) q) = None \<and>
               expected = evts \<and> v = version_of (before @ evts))"
proof (cases "snd (replay (Apply t) (map Message evts) q)")
  case None
  then obtain p where "replay (Apply t) (map Message evts) q = (p, None)"
    by (metis prod.collapse)
  then have "replay (Apply t) (map Message evts) (at_base (version_of before) [] q) =
      (at_base (version_of before) [] p, None)"
    by (simp add: replay_oblivious)
  from recordThat_replay [OF this] None show ?thesis
    by (simp add: Agg_AssertOn_def Agg_Given_When_def go_defs rehydrate_slice [OF q]
        FlushRecordedEvents_eq)
next
  case (Some x)
  then have "snd (recordThat (Apply t) evts (at_base (version_of before) [] q)) \<noteq> None"
    by (simp add: recordThat_ok_iff replay_oblivious)
  then obtain r e where "recordThat (Apply t) evts (at_base (version_of before) [] q) = (r, Some e)"
    by (metis not_None_eq prod.collapse)
  with Some show ?thesis
    by (simp add: Agg_AssertOn_def Agg_Given_When_def go_defs rehydrate_slice [OF q])
qed

end

end
