(* ===== verification/Go_Time.thy ===== *)
theory Go_Time
  imports Go_Errors
begin

text \<open>
  What the repository uses of Go's package \<open>time\<close> and of 16-byte identifiers.

  A \<open>time.Time\<close> is an instant, in seconds and nanoseconds since January 1 of year 1 UTC, with the
  offset east of UTC of its location at that instant. An identifier \<open>uuid.UUID\<close> is an array of
  16 bytes, compared as a value; \<open>uuid.Nil\<close> is the array of zeros. Formatting and parsing of
  identifiers belong to another module and are parameters wherever they are used.
\<close>

record Time =
  abs_sec :: int
  nsec :: int
  zone_offset :: int

definition zero_Time :: Time where
  "zero_Time = \<lparr>abs_sec = 0, nsec = 0, zone_offset = 0\<rparr>"

definition IsZero :: "Time \<Rightarrow> bool" where
  "IsZero t \<longleftrightarrow> abs_sec t = 0 \<and> nsec t = 0"

lemma IsZero_zero_Time [simp]: "IsZero zero_Time"
  by (simp add: IsZero_def zero_Time_def)

type_synonym UUID = "128 word"

definition uuid_Nil :: UUID where
  "uuid_Nil = 0"

text \<open>The same instant in UTC.\<close>

definition in_UTC :: "Time \<Rightarrow> Time" where
  "in_UTC t = t\<lparr>zone_offset := 0\<rparr>"

section \<open>Sample identifiers\<close>

text \<open>One printer of identifiers with its parser, for concrete inputs.\<close>

definition unary :: "UUID \<Rightarrow> string" where
  "unary i = replicate (unat i) CHR ''1''"

lemma inj_unary: "inj unary"
  by (rule injI) (metis length_replicate unary_def unsigned_word_eqI)

definition parse_unary :: "string \<Rightarrow> error + UUID" where
  "parse_unary s = (if list_all (\<lambda>c. c = CHR ''1'') s then Inr (word_of_nat (length s))
                    else Inl (Sentinel ''invalid UUID''))"

lemma parse_unary_unary: "parse_unary (unary i) = Inr i"
  by (simp add: parse_unary_def unary_def list_all_iff)

end
