(* ===== verification/Todo_List.thy ===== *)
theory Todo_List
  imports Repository Go_Time
begin

text \<open>
  The aggregate of the todo list service: \<open>examples/todolist/internal/todolist/event.go\<close>,
  \<open>item.go\<close> and \<open>todolist.go\<close>.

  \<open>tl.Items\<close> is a slice of pointers that nothing else shares; an item pointer is modelled by its
  index in the slice and the slice holds the items themselves.
\<close>

section \<open>Domain events\<close>

type_synonym ID = UUID
type_synonym ItemID = UUID

text \<open>
  The messages a todo list can meet; \<open>OtherMessage\<close> is any other type behind the interface.
\<close>

datatype todo_event =
    TodoListWasCreated ID string string Time
  | TodoListItemWasAdded ItemID string string Time Time
  | TodoListItemMarkedAsDone ItemID
  | TodoListItemMarkedAsPending ItemID
  | TodoListItemWasDeleted ItemID
  | OtherMessage string

fun todo_event_Name :: "todo_event \<Rightarrow> string" where
  "todo_event_Name (TodoListWasCreated i title owner created) = ''TodoListWasCreated''"
| "todo_event_Name (TodoListItemWasAdded i title description due created) = ''TodoListItemWasAdded''"
| "todo_event_Name (TodoListItemMarkedAsDone i) = ''TodoListItemMarkedAsDone''"
| "todo_event_Name (TodoListItemMarkedAsPending i) = ''TodoListItemMarkedAsPending''"
| "todo_event_Name (TodoListItemWasDeleted i) = ''TodoListItemWasDeleted''"
| "todo_event_Name (OtherMessage name) = name"

section \<open>Items\<close>

record Item = "todo_event BaseRoot" +
  item_ID :: ItemID
  item_Title :: string
  item_Description :: string
  item_Completed :: bool
  item_DueDate :: Time
  item_CreationTime :: Time

definition zero_Item :: Item where
  "zero_Item = \<lparr>version = 0, recordedEvents = [], item_ID = uuid_Nil, item_Title = '''',
     item_Description = '''', item_Completed = False, item_DueDate = zero_Time,
     item_CreationTime = zero_Time\<rparr>"

fun Item_Apply :: "(todo_event, Item) apply_method" where
  "Item_Apply (TodoListItemWasAdded i title description due created) item =
     (item\<lparr>item_ID := i, item_Title := title, item_Description := description,
           item_Completed := False, item_DueDate := due, item_CreationTime := created\<rparr>, None)"
| "Item_Apply (TodoListItemMarkedAsDone i) item = (item\<lparr>item_Completed := True\<rparr>, None)"
| "Item_Apply (TodoListItemMarkedAsPending i) item = (item\<lparr>item_Completed := False\<rparr>, None)"
| "Item_Apply evt item = (item, Some (Errorf ''todolist.Item.Apply: unsupported event, %T'' []))"

section \<open>The aggregate root\<close>

record TodoList = "todo_event BaseRoot" +
  list_ID :: ID
  list_Title :: string
  list_Owner :: string
  list_CreationTime :: Time
  Items :: "Item list"

definition zero_TodoList :: TodoList where
  "zero_TodoList = \<lparr>version = 0, recordedEvents = [], list_ID = uuid_Nil, list_Title = '''',
     list_Owner = '''', list_CreationTime = zero_Time, Items = []\<rparr>"

fun itemByID :: "Item list \<Rightarrow> ItemID \<Rightarrow> nat option" where
  "itemByID [] i = None"
| "itemByID (item # items) i =
     (if item_ID item = i then Some 0 else map_option Suc (itemByID items i))"

definition applyItemEvent :: "ItemID \<Rightarrow> todo_event \<Rightarrow> TodoList \<Rightarrow> TodoList \<times> error option" where
  "applyItemEvent i evt todo =
     (case itemByID (Items todo) i of
        None \<Rightarrow> (todo, Some (Errorf ''todolist.TodoList.Apply: item not found'' []))
      | Some k \<Rightarrow>
          (case Item_Apply evt (Items todo ! k) of
             (item, e) \<Rightarrow>
               (todo\<lparr>Items := (Items todo)[k := item]\<rparr>,
                map_option (\<lambda>e. Errorf ''todolist.TodoList.Apply: failed to apply item event, %w'' [e]) e)))"

primrec delete_loop :: "ItemID \<Rightarrow> Item list \<Rightarrow> Item list \<Rightarrow> Item list" where
  "delete_loop i [] items = items"
| "delete_loop i (item # rest) items =
     (if item_ID item = i then delete_loop i rest items else delete_loop i rest (items @ [item]))"

fun TodoList_Apply :: "(todo_event, TodoList) apply_method" where
  "TodoList_Apply (TodoListWasCreated i title owner created) todo =
     (todo\<lparr>list_ID := i, list_Title := title, list_Owner := owner, list_CreationTime := created\<rparr>, None)"
| "TodoList_Apply (TodoListItemWasAdded i title description due created) todo =
     (case Item_Apply (TodoListItemWasAdded i title description due created) zero_Item of
        (item, Some e) \<Rightarrow>
          (todo, Some (Errorf ''todolist.TodoList.Apply: failed to apply item event, %w'' [e]))
      | (item, None) \<Rightarrow> (todo\<lparr>Items := Items todo @ [item]\<rparr>, None))"
| "TodoList_Apply (TodoListItemMarkedAsDone i) todo = applyItemEvent i (TodoListItemMarkedAsDone i) todo"
| "TodoList_Apply (TodoListItemMarkedAsPending i) todo = applyItemEvent i (TodoListItemMarkedAsPending i) todo"
| "TodoList_Apply (TodoListItemWasDeleted i) todo = (todo\<lparr>Items := delete_loop i (Items todo) []\<rparr>, None)"
| "TodoList_Apply (OtherMessage name) todo =
     (todo, Some (Errorf ''todolist.TodoList.Apply: invalid event, %T'' []))"

text \<open>\<open>uuid_String\<close> is \<open>uuid.UUID.String\<close>.\<close>

definition TodoList_Type :: "(UUID \<Rightarrow> string) \<Rightarrow> (ID, todo_event, unit TodoList_ext) Type" where
  "TodoList_Type uuid_String =
     \<lparr>Name = ''TodoList'', Factory = (\<lambda>_. zero_TodoList), Apply = TodoList_Apply,
      AggregateID = list_ID, String = uuid_String\<rparr>"

section \<open>Commands on a list\<close>

definition ErrEmptyID :: error where
  "ErrEmptyID = Sentinel ''todolist.TodoList: empty id provided''"
definition ErrEmptyTitle :: error where
  "ErrEmptyTitle = Sentinel ''todolist.TodoList: empty title provided''"
definition ErrNoOwnerSpecified :: error where
  "ErrNoOwnerSpecified = Sentinel ''todolist.TodoList: no owner specified''"
definition ErrEmptyItemID :: error where
  "ErrEmptyItemID = Sentinel ''todolist.TodoList: empty item id provided''"
definition ErrEmptyItemTitle :: error where
  "ErrEmptyItemTitle = Sentinel ''todolist.TodoList: empty item title provided''"
definition ErrItemAlreadyExists :: error where
  "ErrItemAlreadyExists = Sentinel ''todolist.TodoList: item already exists''"
definition ErrItemNotFound :: error where
  "ErrItemNotFound = Sentinel ''todolist.TodoList: item was not found in list''"

lemmas todo_error_defs = ErrEmptyID_def ErrEmptyTitle_def ErrNoOwnerSpecified_def ErrEmptyItemID_def
  ErrEmptyItemTitle_def ErrItemAlreadyExists_def ErrItemNotFound_def

definition Create :: "ID \<Rightarrow> string \<Rightarrow> string \<Rightarrow> Time \<Rightarrow> error + TodoList" where
  "Create i title owner now =
     (let wrapErr = (\<lambda>e. Errorf ''todolist.Create: failed to create new TodoList, %w'' [e]) in
      if i = uuid_Nil then Inl (wrapErr ErrEmptyID)
      else if title = '''' then Inl (wrapErr ErrEmptyTitle)
      else if owner = '''' then Inl (wrapErr ErrNoOwnerSpecified)
      else
        (case recordThat TodoList_Apply [ToEnvelope (TodoListWasCreated i title owner now)] zero_TodoList of
           (todoList, Some e) \<Rightarrow> Inl (Errorf ''todolist.Create: failed to apply domain event, %w'' [e])
         | (todoList, None) \<Rightarrow> Inr todoList))"

definition AddItem ::
  "ItemID \<Rightarrow> string \<Rightarrow> string \<Rightarrow> Time \<Rightarrow> Time \<Rightarrow> TodoList \<Rightarrow> TodoList \<times> error option" where
  "AddItem i title description dueDate now todo =
     (let wrapErr = (\<lambda>e. Errorf ''todolist.AddItem: failed to add new TodoItem to list, %w'' [e]) in
      if i = uuid_Nil then (todo, Some (wrapErr ErrEmptyItemID))
      else if title = '''' then (todo, Some (wrapErr ErrEmptyItemTitle))
      else if itemByID (Items todo) i \<noteq> None then (todo, Some (wrapErr ErrItemAlreadyExists))
      else
        (case recordThat TodoList_Apply
                [ToEnvelope (TodoListItemWasAdded i title description dueDate now)] todo of
           (todo', Some e) \<Rightarrow> (todo', Some (Errorf ''todolist.AddItem: failed to apply domain event, %w'' [e]))
         | (todo', None) \<Rightarrow> (todo', None)))"

definition recordItemEvent ::
  "ItemID \<Rightarrow> (unit \<Rightarrow> todo_event Envelope) \<Rightarrow> TodoList \<Rightarrow> TodoList \<times> error option" where
  "recordItemEvent i eventFactory todo =
     (if i = uuid_Nil then (todo, Some ErrEmptyItemID)
      else if itemByID (Items todo) i = None then (todo, Some ErrItemNotFound)
      else recordThat TodoList_Apply [eventFactory ()] todo)"

definition MarkItemAsDone :: "ItemID \<Rightarrow> TodoList \<Rightarrow> TodoList \<times> error option" where
  "MarkItemAsDone i todo =
     (case recordItemEvent i (\<lambda>_. ToEnvelope (TodoListItemMarkedAsDone i)) todo of
        (todo', Some e) \<Rightarrow> (todo', Some (Errorf ''todolist.MarkItemAsDone: failed to mark item as done, %w'' [e]))
      | (todo', None) \<Rightarrow> (todo', None))"

definition MarkItemAsPending :: "ItemID \<Rightarrow> TodoList \<Rightarrow> TodoList \<times> error option" where
  "MarkItemAsPending i todo =
     (case recordItemEvent i (\<lambda>_. ToEnvelope (TodoListItemMarkedAsPending i)) todo of
        (todo', Some e) \<Rightarrow>
          (todo', Some (Errorf ''todolist.MarkItemAsPending: failed to mark item as pending, %w'' [e]))
      | (todo', None) \<Rightarrow> (todo', None))"

definition DeleteItem :: "ItemID \<Rightarrow> TodoList \<Rightarrow> TodoList \<times> error option" where
  "DeleteItem i todo =
     (case recordItemEvent i (\<lambda>_. ToEnvelope (TodoListItemWasDeleted i)) todo of
        (todo', Some e) \<Rightarrow> (todo', Some (Errorf ''todolist.DeleteItem: failed to delete item, %w'' [e]))
      | (todo', None) \<Rightarrow> (todo', None))"

end
