(* ===== verification/Todo_Domain.thy ===== *)
theory Todo_Domain
  imports Todo_List
begin

text \<open>
  What the todo list aggregate guarantees: its \<open>Apply\<close> keeps the contract \<open>aggregate_root\<close>, its
  commands refine a map from item identifiers to items, and they keep the items' identifiers
  distinct.
\<close>

section \<open>Lookup and deletion in the slice of items\<close>

lemma itemByID_None_iff: "itemByID items i = None \<longleftrightarrow> i \<notin> item_ID ` set items"
  by (induction items) auto

lemma itemByID_SomeD:
  "itemByID items i = Some k \<Longrightarrow> k < length items \<and> item_ID (items ! k) = i"
  by (induction items arbitrary: k) (auto split: if_splits)

lemma delete_loop_eq: "delete_loop i items acc = acc @ filter (\<lambda>x. item_ID x \<noteq> i) items"
  by (induction items arbitrary: acc) auto

section \<open>Apply\<close>

lemma TodoList_Apply_oblivious:
  "TodoList_Apply m (at_base v es r) =
     (at_base v es (fst (TodoList_Apply m r)), snd (TodoList_Apply m r))"
  by (cases m) (simp_all add: at_base_def applyItemEvent_def split: option.split prod.split)

interpretation todo: aggregate_root TodoList_Apply
  by unfold_locales (rule TodoList_Apply_oblivious)

text \<open>A single recorded event, for the aggregate's commands.\<close>

lemma record_one:
  "recordThat TodoList_Apply [ToEnvelope m] todo =
     (case TodoList_Apply m todo of
        (q, Some e) \<Rightarrow> (q, Some (Errorf ''aggregate.BaseRoot: failed to record event, %w'' [e]))
      | (q, None) \<Rightarrow> (at_base (version todo + 1) (recordedEvents todo @ [ToEnvelope m]) q, None))"
  using todo.apply_base [of m todo]
  by (auto simp: go_defs base_update_at_base split: prod.splits option.splits)

lemma Items_at_base [simp]: "Items (at_base v es todo) = Items todo"
  and list_ID_at_base [simp]: "list_ID (at_base v es todo) = list_ID todo"
  and list_Title_at_base [simp]: "list_Title (at_base v es todo) = list_Title todo"
  and list_Owner_at_base [simp]: "list_Owner (at_base v es todo) = list_Owner todo"
  and list_CreationTime_at_base [simp]: "list_CreationTime (at_base v es todo) = list_CreationTime todo"
  by (simp_all add: at_base_def)

section \<open>The abstract board\<close>

record item_view =
  view_title :: string
  view_description :: string
  view_completed :: bool
  view_due :: Time
  view_created :: Time

definition view_of :: "Item \<Rightarrow> item_view" where
  "view_of x = \<lparr>view_title = item_Title x, view_description = item_Description x,
     view_completed = item_Completed x, view_due = item_DueDate x, view_created = item_CreationTime x\<rparr>"

definition board :: "TodoList \<Rightarrow> ItemID \<rightharpoonup> item_view" where
  "board todo = map_of (map (\<lambda>x. (item_ID x, view_of x)) (Items todo))"

text \<open>The invariant: identifiers are distinct and not nil, and no title is empty.\<close>

definition items_ok :: "TodoList \<Rightarrow> bool" where
  "items_ok todo \<longleftrightarrow> distinct (map item_ID (Items todo)) \<and>
     (\<forall>x \<in> set (Items todo). item_ID x \<noteq> uuid_Nil \<and> item_Title x \<noteq> '''')"

text \<open>The commands on an existing list, and what each means on the board.\<close>

datatype todo_op =
    OpAdd ItemID string string Time Time
  | OpDone ItemID
  | OpPending ItemID
  | OpDelete ItemID

fun run_op :: "todo_op \<Rightarrow> TodoList \<Rightarrow> TodoList \<times> error option" where
  "run_op (OpAdd i title description due now) todo = AddItem i title description due now todo"
| "run_op (OpDone i) todo = MarkItemAsDone i todo"
| "run_op (OpPending i) todo = MarkItemAsPending i todo"
| "run_op (OpDelete i) todo = DeleteItem i todo"

definition on_item ::
  "ItemID \<Rightarrow> (item_view \<Rightarrow> (ItemID \<rightharpoonup> item_view)) \<Rightarrow> (ItemID \<rightharpoonup> item_view) \<Rightarrow> error + (ItemID \<rightharpoonup> item_view)" where
  "on_item i f b =
     (if i = uuid_Nil then Inl ErrEmptyItemID
      else case b i of None \<Rightarrow> Inl ErrItemNotFound | Some x \<Rightarrow> Inr (f x))"

fun board_op :: "todo_op \<Rightarrow> (ItemID \<rightharpoonup> item_view) \<Rightarrow> error + (ItemID \<rightharpoonup> item_view)" where
  "board_op (OpAdd i title description due now) b =
     (if i = uuid_Nil then Inl ErrEmptyItemID
      else if title = '''' then Inl ErrEmptyItemTitle
      else if i \<in> dom b then Inl ErrItemAlreadyExists
      else Inr (b(i \<mapsto> \<lparr>view_title = title, view_description = description, view_completed = False,
                       view_due = due, view_created = now\<rparr>)))"
| "board_op (OpDone i) b = on_item i (\<lambda>x. b(i \<mapsto> x\<lparr>view_completed := True\<rparr>)) b"
| "board_op (OpPending i) b = on_item i (\<lambda>x. b(i \<mapsto> x\<lparr>view_completed := False\<rparr>)) b"
| "board_op (OpDelete i) b = on_item i (\<lambda>x. b(i := None)) b"

lemma dom_board: "dom (board todo) = item_ID ` set (Items todo)"
  by (auto simp: board_def dom_map_of_conv_image_fst image_image)

lemma itemByID_board: "itemByID (Items todo) i = None \<longleftrightarrow> board todo i = None"
  using dom_board [of todo] by (auto simp: itemByID_None_iff domIff)

lemma map_of_view_update:
  assumes "distinct (map item_ID items)" and "k < length items" and "item_ID x = item_ID (items ! k)"
  shows "map_of (map (\<lambda>x. (item_ID x, view_of x)) (items[k := x])) =
         (map_of (map (\<lambda>x. (item_ID x, view_of x)) items))(item_ID x \<mapsto> view_of x)"
  using assms
proof (induction items arbitrary: k)
  case Nil
  then show ?case by simp
next
  case (Cons y items)
  show ?case
  proof (cases k)
    case 0
    with Cons.prems show ?thesis by (simp add: fun_eq_iff)
  next
    case (Suc k')
    with Cons.prems have "item_ID (items ! k') \<in> item_ID ` set items" by simp
    with Suc Cons.prems have "item_ID y \<noteq> item_ID x" by auto
    with Suc Cons show ?thesis by (auto simp: fun_upd_twist)
  qed
qed

lemma map_of_view_filter:
  "map_of (map (\<lambda>x. (item_ID x, view_of x)) (filter (\<lambda>x. item_ID x \<noteq> i) items)) =
   (map_of (map (\<lambda>x. (item_ID x, view_of x)) items))(i := None)"
  by (induction items) (auto simp: fun_eq_iff)

lemma map_of_view_nth:
  "distinct (map item_ID items) \<Longrightarrow> k < length items \<Longrightarrow>
   map_of (map (\<lambda>x. (item_ID x, view_of x)) items) (item_ID (items ! k)) = Some (view_of (items ! k))"
  by (induction items arbitrary: k) (auto simp: nth_Cons split: nat.split, metis image_eqI nth_mem)

lemma map_item_ID_update:
  "item_ID x = item_ID (items ! k) \<Longrightarrow> map item_ID (items[k := x]) = map item_ID items"
  by (cases "k < length items")
    (simp_all add: map_update list_update_same_conv list_update_beyond linorder_not_less)

section \<open>The commands\<close>

text \<open>Every effect of a command goes through a guard and one recorded event that always applies.\<close>

lemma Apply_marked:
  assumes "itemByID (Items todo) i = Some k"
  shows "TodoList_Apply (TodoListItemMarkedAsDone i) todo =
           (todo\<lparr>Items := (Items todo)[k := (Items todo ! k)\<lparr>item_Completed := True\<rparr>]\<rparr>, None)"
    and "TodoList_Apply (TodoListItemMarkedAsPending i) todo =
           (todo\<lparr>Items := (Items todo)[k := (Items todo ! k)\<lparr>item_Completed := False\<rparr>]\<rparr>, None)"
  using assms by (simp_all add: applyItemEvent_def)

definition new_item :: "ItemID \<Rightarrow> string \<Rightarrow> string \<Rightarrow> Time \<Rightarrow> Time \<Rightarrow> Item" where
  "new_item i title description due now =
     zero_Item\<lparr>item_ID := i, item_Title := title, item_Description := description,
       item_Completed := False, item_DueDate := due, item_CreationTime := now\<rparr>"

definition recorded_on :: "todo_event \<Rightarrow> TodoList \<Rightarrow> Item list \<Rightarrow> TodoList" where
  "recorded_on m todo items =
     at_base (version todo + 1) (recordedEvents todo @ [ToEnvelope m]) (todo\<lparr>Items := items\<rparr>)"

lemma Items_recorded_on [simp]: "Items (recorded_on m todo items) = items"
  by (simp add: recorded_on_def)

lemma AddItem_eq:
  "AddItem i title description due now todo =
     (if i = uuid_Nil then
        (todo, Some (Errorf ''todolist.AddItem: failed to add new TodoItem to list, %w'' [ErrEmptyItemID]))
      else if title = '''' then
        (todo, Some (Errorf ''todolist.AddItem: failed to add new TodoItem to list, %w'' [ErrEmptyItemTitle]))
      else if board todo i \<noteq> None then
        (todo, Some (Errorf ''todolist.AddItem: failed to add new TodoItem to list, %w'' [ErrItemAlreadyExists]))
      else (recorded_on (TodoListItemWasAdded i title description due now) todo
              (Items todo @ [new_item i title description due now]), None))"
  by (simp add: AddItem_def record_one Let_def itemByID_board recorded_on_def new_item_def
      del: recordThat.simps)

text \<open>The three commands on one item share their shape.\<close>

definition item_command :: "string \<Rightarrow> todo_event \<Rightarrow> ItemID \<Rightarrow> TodoList \<Rightarrow> Item list \<Rightarrow> TodoList \<times> error option" where
  "item_command msg m i todo items =
     (if i = uuid_Nil then (todo, Some (Errorf msg [ErrEmptyItemID]))
      else if board todo i = None then (todo, Some (Errorf msg [ErrItemNotFound]))
      else (recorded_on m todo items, None))"

definition item_index :: "TodoList \<Rightarrow> ItemID \<Rightarrow> nat" where
  "item_index todo i = the (itemByID (Items todo) i)"

lemma item_index:
  assumes "board todo i \<noteq> None"
  shows "itemByID (Items todo) i = Some (item_index todo i)"
    and "item_index todo i < length (Items todo)" and "item_ID (Items todo ! item_index todo i) = i"
proof -
  from assms obtain k where "itemByID (Items todo) i = Some k"
    using itemByID_board [of todo i] by auto
  then show "itemByID (Items todo) i = Some (item_index todo i)"
    and "item_index todo i < length (Items todo)" and "item_ID (Items todo ! item_index todo i) = i"
    using itemByID_SomeD by (simp_all add: item_index_def)
qed

abbreviation with_completed :: "bool \<Rightarrow> TodoList \<Rightarrow> ItemID \<Rightarrow> Item list" where
  "with_completed c todo i \<equiv>
     (Items todo)[item_index todo i := (Items todo ! item_index todo i)\<lparr>item_Completed := c\<rparr>]"

lemma item_commands_eq:
  "MarkItemAsDone i todo =
     item_command ''todolist.MarkItemAsDone: failed to mark item as done, %w''
       (TodoListItemMarkedAsDone i) i todo (with_completed True todo i)"
  "MarkItemAsPending i todo =
     item_command ''todolist.MarkItemAsPending: failed to mark item as pending, %w''
       (TodoListItemMarkedAsPending i) i todo (with_completed False todo i)"
  "DeleteItem i todo =
     item_command ''todolist.DeleteItem: failed to delete item, %w''
       (TodoListItemWasDeleted i) i todo (filter (\<lambda>x. item_ID x \<noteq> i) (Items todo))"
  using item_index(1) [of todo i]
  by (auto simp: MarkItemAsDone_def MarkItemAsPending_def DeleteItem_def recordItemEvent_def
      item_command_def itemByID_board record_one Apply_marked recorded_on_def delete_loop_eq
      simp del: TodoList_Apply.simps(3,4) recordThat.simps)

lemma board_recorded_on:
  "board (recorded_on m todo items) = map_of (map (\<lambda>x. (item_ID x, view_of x)) items)"
  by (simp add: board_def)

lemma board_add:
  "board todo i = None \<Longrightarrow>
   board (recorded_on m todo (Items todo @ [new_item i title description due now])) =
   (board todo)(i \<mapsto> \<lparr>view_title = title, view_description = description, view_completed = False,
                     view_due = due, view_created = now\<rparr>)"
  by (auto simp: board_def new_item_def view_of_def map_add_def fun_eq_iff split: option.split)

lemma board_completed:
  assumes "items_ok todo" and "board todo i = Some x"
  shows "board (recorded_on m todo (with_completed c todo i)) =
         (board todo)(i \<mapsto> x\<lparr>view_completed := c\<rparr>)"
proof -
  let ?k = "item_index todo i"
  have ne: "board todo i \<noteq> None" using assms(2) by simp
  have "board todo i = Some (view_of (Items todo ! ?k))"
    using map_of_view_nth [of "Items todo" ?k] assms(1) item_index(2,3) [OF ne]
    by (simp add: board_def items_ok_def)
  with assms(2) have x: "x = view_of (Items todo ! ?k)" by simp
  show ?thesis
    using map_of_view_update [of "Items todo" ?k "(Items todo ! ?k)\<lparr>item_Completed := c\<rparr>"]
      assms(1) item_index(2,3) [OF ne]
    by (simp add: board_recorded_on) (simp add: board_def items_ok_def x view_of_def)
qed

lemma board_delete:
  "board (recorded_on m todo (filter (\<lambda>x. item_ID x \<noteq> i) (Items todo))) = (board todo)(i := None)"
  by (simp add: board_def map_of_view_filter)

section \<open>What every command keeps\<close>

lemma run_op_records:
  "run_op oper todo = (todo', None) \<Longrightarrow> \<exists>m. recordThat TodoList_Apply [ToEnvelope m] todo = (todo', None)"
  by (cases oper) (fastforce simp: AddItem_def MarkItemAsDone_def MarkItemAsPending_def DeleteItem_def
      recordItemEvent_def Let_def simp del: recordThat.simps split: if_splits prod.splits option.splits)+

lemma run_op_fields:
  assumes "run_op oper todo = (todo', None)"
  shows "version todo' = version todo + 1" "list_ID todo' = list_ID todo" "list_Title todo' = list_Title todo"
    "list_Owner todo' = list_Owner todo" "list_CreationTime todo' = list_CreationTime todo"
  using assms
  by (cases oper; auto simp: AddItem_eq item_commands_eq item_command_def recorded_on_def split: if_splits)+

lemma items_ok_completed:
  assumes "items_ok todo" and "board todo i \<noteq> None"
  shows "items_ok (recorded_on m todo (with_completed c todo i))"
  using assms item_index(2,3) [of todo i]
  by (auto simp: items_ok_def map_item_ID_update dest!: set_update_subset_insert [THEN subsetD])

lemma run_op_items_ok:
  assumes "items_ok todo"
  shows "items_ok (fst (run_op oper todo))"
proof (cases oper)
  case (OpAdd i title description due now)
  with assms show ?thesis
    using dom_board [of todo] by (auto simp: AddItem_eq items_ok_def new_item_def domIff)
next
  case (OpDelete i)
  with assms show ?thesis
    by (auto simp: item_commands_eq item_command_def items_ok_def distinct_map_filter)
qed (use assms in \<open>auto simp: item_commands_eq item_command_def items_ok_completed\<close>)

lemma todo_commands_core:
  assumes "items_ok todo"
  shows "case run_op oper todo of
           (todo', None) \<Rightarrow> board_op oper (board todo) = Inr (board todo')
         | (todo', Some e) \<Rightarrow> todo' = todo \<and> (\<exists>c. board_op oper (board todo) = Inl c \<and> caused_by e c)"
proof (cases oper)
  case (OpAdd i title description due now)
  then show ?thesis
    by (auto simp: AddItem_eq board_add todo_error_defs domIff)
qed (use assms in \<open>auto simp: item_commands_eq item_command_def board_completed
  board_delete on_item_def todo_error_defs\<close>)

text \<open>C17: Each command on a list whose items are well formed does on the list exactly what it
  means on the map from identifiers to items: on success the new list's map is the abstract
  operation's result, and otherwise the list is untouched and the returned error wraps the very
  error value (\<open>ErrEmptyItemID\<close>, \<open>ErrEmptyItemTitle\<close>, \<open>ErrItemAlreadyExists\<close>, \<open>ErrItemNotFound\<close>)
  the operation calls for, checked in the code's order.\<close>

theorem todo_commands_refine_board:
  assumes "items_ok todo"
  shows "case run_op oper todo of
           (todo', None) \<Rightarrow> board_op oper (board todo) = Inr (board todo')
         | (todo', Some e) \<Rightarrow> todo' = todo \<and> (\<exists>c. board_op oper (board todo) = Inl c \<and> caused_by e c)"
  using assms by (rule todo_commands_core)

theorem todo_commands_refine_board_witness:
  fixes todo :: TodoList
  defines "todo \<equiv> zero_TodoList\<lparr>Items := [new_item 7 ''milk'' '''' zero_Time zero_Time]\<rparr>"
  shows "items_ok todo \<and>
    (case run_op (OpDone 7) todo of
       (todo', None) \<Rightarrow> board_op (OpDone 7) (board todo) = Inr (board todo')
     | (todo', Some e) \<Rightarrow> todo' = todo \<and> (\<exists>c. board_op (OpDone 7) (board todo) = Inl c \<and> caused_by e c)) \<and>
    snd (run_op (OpDone 7) todo) = None"
proof -
  have ok: "items_ok todo" by (simp add: items_ok_def todo_def new_item_def uuid_Nil_def)
  have "snd (run_op (OpDone 7) todo) = None"
    by (simp add: item_commands_eq item_command_def todo_def new_item_def uuid_Nil_def board_def)
  with ok todo_commands_refine_board [OF ok, of "OpDone 7"] show ?thesis by (intro conjI)
qed

section \<open>Lists built by commands\<close>

lemma zero_TodoList_simps [simp]: "version zero_TodoList = 0" "recordedEvents zero_TodoList = []" "Items zero_TodoList = []"
  by (simp_all add: zero_TodoList_def)

lemma Create_eq:
  "Create l title owner now =
     (let wrapErr = (\<lambda>e. Errorf ''todolist.Create: failed to create new TodoList, %w'' [e]) in
      if l = uuid_Nil then Inl (wrapErr ErrEmptyID)
      else if title = '''' then Inl (wrapErr ErrEmptyTitle)
      else if owner = '''' then Inl (wrapErr ErrNoOwnerSpecified)
      else Inr (at_base 1 [ToEnvelope (TodoListWasCreated l title owner now)]
                 (zero_TodoList\<lparr>list_ID := l, list_Title := title, list_Owner := owner,
                                list_CreationTime := now\<rparr>)))"
  by (simp add: Create_def record_one Let_def del: recordThat.simps)

definition run_ops :: "todo_op list \<Rightarrow> TodoList \<Rightarrow> TodoList" where
  "run_ops ops todo = fold (\<lambda>oper todo. fst (run_op oper todo)) ops todo"

text \<open>
  A list is well formed when its own fields and its items are, its version counts its events and these are
  its complete account: recording them on a new root gives the list.
\<close>

definition well_formed :: "TodoList \<Rightarrow> bool" where
  "well_formed todo \<longleftrightarrow> list_ID todo \<noteq> uuid_Nil \<and> list_Title todo \<noteq> '''' \<and> list_Owner todo \<noteq> '''' \<and> items_ok todo \<and>
     version todo = version_of (recordedEvents todo) \<and>
     recordThat TodoList_Apply (recordedEvents todo) zero_TodoList = (todo, None)"

lemma well_formed_Create:
  assumes "Create l title owner now = Inr todo"
  shows "well_formed todo"
proof -
  from assms have ok: "l \<noteq> uuid_Nil" "title \<noteq> ''''" "owner \<noteq> ''''"
    and todo: "todo = at_base 1 [ToEnvelope (TodoListWasCreated l title owner now)]
      (zero_TodoList\<lparr>list_ID := l, list_Title := title, list_Owner := owner, list_CreationTime := now\<rparr>)"
    by (auto simp: Create_eq Let_def split: if_splits)
  have "recordThat TodoList_Apply [ToEnvelope (TodoListWasCreated l title owner now)] zero_TodoList = (todo, None)"
    by (simp add: record_one todo del: recordThat.simps)
  with ok show ?thesis by (simp add: well_formed_def items_ok_def todo at_base_def del: recordThat.simps)
qed

lemma well_formed_run_op:
  assumes "well_formed todo"
  shows "well_formed (fst (run_op oper todo))"
proof (cases "run_op oper todo")
  case (Pair todo' e)
  have ok: "items_ok todo" using assms by (simp add: well_formed_def)
  show ?thesis
  proof (cases e)
    case (Some x)
    with todo_commands_core [OF ok, of oper] Pair assms show ?thesis by simp
  next
    case None
    with Pair have run: "run_op oper todo = (todo', None)" by simp
    from run_op_records [OF this] obtain m where m: "recordThat TodoList_Apply [ToEnvelope m] todo = (todo', None)" by blast
    then have "recordedEvents todo' = recordedEvents todo @ [ToEnvelope m]"
      by (auto simp: record_one simp del: recordThat.simps split: prod.splits option.splits)
    moreover from this m assms have "recordThat TodoList_Apply (recordedEvents todo') zero_TodoList = (todo', None)"
      by (simp add: well_formed_def recordThat_append del: recordThat.simps)
    ultimately show ?thesis
      using assms run_op_fields [OF run] run_op_items_ok [OF ok, of oper] by (simp add: well_formed_def run)
  qed
qed

text \<open>C18: Every list that is created and then changed by any sequence of commands, whichever of them fail, has an identifier,
  a title and an owner, items with distinct identifiers that are not nil and with titles, the version that counts its events,
  and events that record exactly it on a new root.\<close>

theorem todo_list_well_formed:
  assumes "Create l title owner now = Inr todo"
  shows "well_formed (run_ops ops todo)"
proof -
  have "well_formed (fold (\<lambda>oper todo. fst (run_op oper todo)) ops todo)" if "well_formed todo" for todo
    using that by (induction ops arbitrary: todo) (simp_all add: well_formed_run_op)
  with well_formed_Create [OF assms] show ?thesis by (simp add: run_ops_def)
qed

theorem todo_list_well_formed_witness:
  "\<exists>todo. Create 1 ''groceries'' ''ann'' zero_Time = Inr todo \<and>
     well_formed (run_ops [OpAdd 7 ''milk'' '''' zero_Time zero_Time, OpAdd 7 ''eggs'' '''' zero_Time zero_Time, OpDone 7, OpDelete 8] todo)"
proof -
  obtain todo where "Create 1 ''groceries'' ''ann'' zero_Time = Inr todo"
    by (simp add: Create_eq Let_def uuid_Nil_def)
  with todo_list_well_formed [OF this] show ?thesis by blast
qed

end
