(* ===== verification/Query.thy ===== *)
theory Query
  imports InMemory_Store
begin

text \<open>
  Package \<open>query\<close> (\<open>query/query.go\<close>, \<open>query/scenario.go\<close>): query envelopes, handlers and the
  scenario that feeds a query handler with events before asking it.
\<close>

section \<open>Queries and handlers\<close>

type_synonym ('q, 'r, 'st) Query_Handler = "ctx \<Rightarrow> 'q Envelope \<Rightarrow> 'st \<Rightarrow> ((error + 'r) \<times> 'st) option"

definition Query_HandlerFunc_Handle :: "('q, 'r, 'st) Query_Handler \<Rightarrow> ('q, 'r, 'st) Query_Handler" where
  [go_defs]: "Query_HandlerFunc_Handle f ctx q st = f ctx q st"

definition Query_ToEnvelope :: "'q \<Rightarrow> 'q Envelope" where
  [go_defs]: "Query_ToEnvelope query = \<lparr>Message = query, Metadata = None\<rparr>"

text \<open>
  \<open>ProcessorHandler\<close>: a handler of queries that also processes persisted events. Its state
  is the event store it was made with and a state of its own.
\<close>

record ('m, 'q, 'r, 'st) ProcessorHandler =
  Handle :: "('q, 'r, 'st) Query_Handler"
  Process :: "('m, 'st) Processor"

section \<open>The scenario\<close>

datatype Query_ScenarioInit = Query_ScenarioInit

record 'm Query_ScenarioGiven =
  qry_given :: "'m Persisted list"

record ('m, 'q) Query_ScenarioWhen = "'m Query_ScenarioGiven" +
  qry_when :: "'q Envelope"

text \<open>\<open>then\<close> is the zero value of the result type, \<open>zero\<close>, when an error is wanted.\<close>

record ('m, 'q, 'r) Query_ScenarioThen = "('m, 'q) Query_ScenarioWhen" +
  qry_then :: 'r
  qry_thenError :: "error option"
  qry_wantError :: bool

definition Query_Scenario :: Query_ScenarioInit where
  [go_defs]: "Query_Scenario = Query_ScenarioInit"

definition Query_Given :: "Query_ScenarioInit \<Rightarrow> 'm Persisted list \<Rightarrow> 'm Query_ScenarioGiven" where
  [go_defs]: "Query_Given sc evts = \<lparr>qry_given = evts\<rparr>"

definition Query_Scenario_When :: "Query_ScenarioInit \<Rightarrow> 'q Envelope \<Rightarrow> ('m, 'q) Query_ScenarioWhen" where
  [go_defs]: "Query_Scenario_When sc q = \<lparr>qry_given = [], qry_when = q\<rparr>"

definition Query_Scenario_Given_When ::
  "'m Query_ScenarioGiven \<Rightarrow> 'q Envelope \<Rightarrow> ('m, 'q) Query_ScenarioWhen" where
  [go_defs]: "Query_Scenario_Given_When sc q = \<lparr>qry_given = qry_given sc, qry_when = q\<rparr>"

definition Query_Then :: "('m, 'q) Query_ScenarioWhen \<Rightarrow> 'r \<Rightarrow> ('m, 'q, 'r) Query_ScenarioThen" where
  [go_defs]: "Query_Then sc result = \<lparr>qry_given = qry_given sc, qry_when = qry_when sc,
     qry_then = result, qry_thenError = None, qry_wantError = False\<rparr>"

definition Query_ThenError ::
  "'r \<Rightarrow> ('m, 'q) Query_ScenarioWhen \<Rightarrow> error option \<Rightarrow> ('m, 'q, 'r) Query_ScenarioThen" where
  [go_defs]: "Query_ThenError zero sc e = \<lparr>qry_given = qry_given sc, qry_when = qry_when sc,
     qry_then = zero, qry_thenError = e, qry_wantError = True\<rparr>"

definition Query_ThenFails ::
  "'r \<Rightarrow> ('m, 'q) Query_ScenarioWhen \<Rightarrow> ('m, 'q, 'r) Query_ScenarioThen" where
  [go_defs]: "Query_ThenFails zero sc = \<lparr>qry_given = qry_given sc, qry_when = qry_when sc,
     qry_then = zero, qry_thenError = None, qry_wantError = True\<rparr>"

text \<open>
  The loop over the given events: append each at its own version, then let the handler process it.
  \<open>None\<close> is the test stopped by \<open>require.NoError\<close>.
\<close>

primrec Query_seed ::
  "('m, 'm InMemoryStore \<times> 'h) Processor \<Rightarrow> 'm Persisted list \<Rightarrow> 'm InMemoryStore \<times> 'h \<Rightarrow>
   ('m InMemoryStore \<times> 'h) option" where
  "Query_seed process [] st = Some st"
| "Query_seed process (evt # evts) st =
     (case InMemoryStore_Append Background (StreamID evt) (CheckExact (Version evt - 1))
             [Envelope evt] (fst st) of
        ((_, Some e), store') \<Rightarrow> None
      | ((_, None), store') \<Rightarrow>
          (case process evt (store', snd st) of
             (Some e, st') \<Rightarrow> None
           | (None, st') \<Rightarrow> Query_seed process evts st'))"

definition Query_AssertOn ::
  "('m, 'q, 'r) Query_ScenarioThen \<Rightarrow>
   (('m, 'm InMemoryStore \<times> 'h) Store \<Rightarrow> ('m, 'q, 'r, 'm InMemoryStore \<times> 'h) ProcessorHandler) \<Rightarrow>
   'h \<Rightarrow> bool option" where
  "Query_AssertOn sc handlerFactory h =
     (let queryHandler = handlerFactory
            \<lparr>Append = (\<lambda>ctx sid expected evts st.
                 let (r, store) = InMemoryStore_Append ctx sid expected evts (fst st) in (r, (store, snd st))),
             Stream = (\<lambda>ctx sid selector.
                 stream_on fst (\<lambda>store st. (store, snd st)) (InMemoryStore_Stream ctx sid selector))\<rparr>
      in case Query_seed (Process queryHandler) (qry_given sc) (NewInMemoryStore, h) of
           None \<Rightarrow> Some False
         | Some st \<Rightarrow>
             (case Handle queryHandler Background (qry_when sc) st of
                None \<Rightarrow> None
              | Some (actual, st') \<Rightarrow>
                  Some (if \<not> qry_wantError sc
                        then (case actual of Inl e \<Rightarrow> False | Inr r \<Rightarrow> qry_then sc = r)
                        else (case actual of
                                Inl e \<Rightarrow> qry_thenError sc = None \<or> errors_Is_opt (Some e) (qry_thenError sc)
                              | Inr r \<Rightarrow> False))))"

section \<open>What seeding establishes\<close>

text \<open>
  Unlike the command scenario, this one insists on the versions: the events of a stream must be
  given in order, numbered from 1.
\<close>

definition seeded :: "'m Persisted list \<Rightarrow> 'm InMemoryStore \<Rightarrow> bool" where
  "seeded evts store \<longleftrightarrow>
     (\<forall>sid. persisted_from sid 0 (mem_log store sid) = filter (\<lambda>p. StreamID p = sid) evts)"

lemma Query_seed_seeded:
  assumes "seeded before (fst st)"
    and frame: "\<And>evt st e st'. process evt st = (e, st') \<Longrightarrow> fst st' = fst st"
    and "Query_seed process evts st = Some st'"
  shows "seeded (before @ evts) (fst st')"
  using assms(1,3)
proof (induction evts arbitrary: st before)
  case Nil
  then show ?case by simp
next
  case (Cons evt evts)
  let ?sid = "StreamID evt" and ?log = "mem_log (fst st)"
  have v: "Version evt - 1 = version_of (?log ?sid)"
  proof (rule ccontr)
    assume "Version evt - 1 \<noteq> version_of (?log ?sid)"
    with Cons.prems(2) show False by (simp add: InMemoryStore_Append_conflict)
  qed
  let ?store = "(fst st)\<lparr>events := (events (fst st))(?sid \<mapsto> ?log ?sid @ [Envelope evt])\<rparr>"
  from Cons.prems(2) obtain st1 where st1: "process evt (?store, snd st) = (None, st1)"
    "Query_seed process evts st1 = Some st'"
    by (simp add: InMemoryStore_Append_ok v split: prod.splits option.splits)
  have evt: "\<lparr>StreamID = ?sid, Version = version_of (?log ?sid) + 1, Envelope = Envelope evt\<rparr> = evt"
    using v by (simp flip: v)
  have "seeded (before @ [evt]) ?store"
    using Cons.prems(1) by (simp add: seeded_def persisted_from_append evt)
  then have "seeded (before @ [evt]) (fst st1)" using frame [OF st1(1)] by simp
  from Cons.IH [OF this st1(2)] show ?case by simp
qed

text \<open>When the preconditions of a query scenario go through, for a handler that does not write
  to the event store, the store replays exactly the given events of every stream, with the given
  versions; a scenario whose given versions have a gap or a repetition cannot pass.\<close>

theorem Query_seed_replays:
  assumes "\<And>evt st e st'. process evt st = (e, st') \<Longrightarrow> fst st' = fst st"
    and "Query_seed process evts (NewInMemoryStore, h) = Some st'"
  shows "persisted_from sid 0 (mem_log (fst st') sid) = filter (\<lambda>p. StreamID p = sid) evts"
proof -
  have "seeded [] (fst (NewInMemoryStore, h))" by (simp add: seeded_def)
  from Query_seed_seeded [OF this assms] show ?thesis by (simp add: seeded_def)
qed

theorem Query_seed_replays_witness:
  fixes evt1 evt2 :: "nat Persisted"
  defines "evt1 \<equiv> \<lparr>StreamID = ''a'', Version = 1, Envelope = ToEnvelope 10\<rparr>"
    and "evt2 \<equiv> \<lparr>StreamID = ''a'', Version = 2, Envelope = ToEnvelope 20\<rparr>"
  shows "\<exists>store. Query_seed (\<lambda>evt st. (None, st)) [evt1, evt2] (NewInMemoryStore, ()) = Some (store, ()) \<and>
     persisted_from ''a'' 0 (mem_log store ''a'') = [evt1, evt2]"
proof -
  let ?p = "\<lambda>evt (st :: nat InMemoryStore \<times> unit). (None :: error option, st)"
  obtain store where s: "Query_seed ?p [evt1, evt2] (NewInMemoryStore, ()) = Some (store, ())"
    by (simp add: evt1_def evt2_def InMemoryStore_Append_ok)
  have "persisted_from ''a'' 0 (mem_log (fst (store, ())) ''a'') =
      filter (\<lambda>p. StreamID p = ''a'') [evt1, evt2]"
    by (rule Query_seed_replays [OF _ s]) auto
  with s show ?thesis by (simp add: evt1_def evt2_def)
qed

end
