(* ===== verification/Todo_Handlers.thy ===== *)
theory Todo_Handlers
  imports Todo_Domain Command Query
begin

text \<open>
  The command and query handlers of the todo list service
  (\<open>examples/todolist/internal/todolist/*_command.go\<close>, \<open>get_query.go\<close>, \<open>repository.go\<close>). A handler is
  the function of its dependencies: the clock and the repository. \<open>h.Clock()\<close> is called once.
\<close>

section \<open>Commands and queries\<close>

record TodoList_CreateCommand =
  create_ID :: ID
  create_Title :: string
  create_Owner :: string

record AddItemCommand =
  add_TodoListID :: ID
  add_TodoItemID :: ItemID
  add_Title :: string
  add_Description :: string
  add_DueDate :: Time

record MarkItemAsDoneCommand =
  done_TodoListID :: ID
  done_TodoItemID :: ItemID

record MarkItemAsPendingCommand =
  pending_TodoListID :: ID
  pending_TodoItemID :: ItemID

record DeleteItemCommand =
  delete_TodoListID :: ID
  delete_TodoItemID :: ItemID

record GetQuery =
  get_ID :: ID

text \<open>\<open>Name\<close> of the commands and the query.\<close>

definition TodoList_CreateCommand_Name :: "TodoList_CreateCommand \<Rightarrow> string" where
  "TodoList_CreateCommand_Name _ = ''CreateTodoList''"

definition AddItemCommand_Name :: "AddItemCommand \<Rightarrow> string" where
  "AddItemCommand_Name _ = ''AddTodoListItem''"

definition MarkItemAsDoneCommand_Name :: "MarkItemAsDoneCommand \<Rightarrow> string" where
  "MarkItemAsDoneCommand_Name _ = ''MarkTodoListItemAsDone''"

definition MarkItemAsPendingCommand_Name :: "MarkItemAsPendingCommand \<Rightarrow> string" where
  "MarkItemAsPendingCommand_Name _ = ''MarkTodoListItemAsPending''"

definition DeleteItemCommand_Name :: "DeleteItemCommand \<Rightarrow> string" where
  "DeleteItemCommand_Name _ = ''DeleteTodoListItem''"

definition GetQuery_Name :: "GetQuery \<Rightarrow> string" where
  "GetQuery_Name _ = ''GetTodoList''"

type_synonym 'st Todo_Repository = "(ID, TodoList, 'st) Repository"
type_synonym 'st Todo_Saver = "(TodoList, 'st) Saver"
type_synonym 'st Todo_Getter = "(ID, TodoList, 'st) Getter"

section \<open>Handlers\<close>

definition TodoList_CreateCommandHandler_Handle ::
  "(unit \<Rightarrow> Time) \<Rightarrow> 'st Todo_Saver \<Rightarrow> (TodoList_CreateCommand, 'st) Command_Handler" where
  "TodoList_CreateCommandHandler_Handle clock saver ctx cmd st =
     (let now = clock () in
      case Create (create_ID (Message cmd)) (create_Title (Message cmd)) (create_Owner (Message cmd)) now of
        Inl e \<Rightarrow>
          Some (Some (Errorf ''todolist.CreateCommandHandler: failed to create new todolist, %w'' [e]), st)
      | Inr todo \<Rightarrow>
          (case saver ctx todo st of
             (Some e, _, st') \<Rightarrow>
               Some (Some (Errorf ''todolist.CreateCommandHandler: failed to save todolist to repository, %w'' [e]), st')
           | (None, _, st') \<Rightarrow> Some (None, st')))"

definition AddItemCommandHandler_Handle ::
  "(unit \<Rightarrow> Time) \<Rightarrow> 'st Todo_Repository \<Rightarrow> (AddItemCommand, 'st) Command_Handler" where
  "AddItemCommandHandler_Handle clock repository ctx cmd st =
     (case Get repository ctx (add_TodoListID (Message cmd)) st of
        None \<Rightarrow> None
      | Some (Inl e, st') \<Rightarrow>
          Some (Some (Errorf ''todolist.AddItemCommandHandler: failed to get TodoList from repository, %w'' [e]), st')
      | Some (Inr todo, st') \<Rightarrow>
          (let now = clock () in
           case AddItem (add_TodoItemID (Message cmd)) (add_Title (Message cmd))
                  (add_Description (Message cmd)) (add_DueDate (Message cmd)) now todo of
             (todo', Some e) \<Rightarrow>
               Some (Some (Errorf ''todolist.AddItemCommandHandler: failed to add item to TodoList, %w'' [e]), st')
           | (todo', None) \<Rightarrow>
               (case Save repository ctx todo' st' of
                  (Some e, _, st'') \<Rightarrow>
                    Some (Some (Errorf ''todolist.AddItemCommandHandler: failed to save new TodoList version, %w'' [e]), st'')
                | (None, _, st'') \<Rightarrow> Some (None, st''))))"

definition MarkItemAsDoneCommandHandler_Handle ::
  "'st Todo_Repository \<Rightarrow> (MarkItemAsDoneCommand, 'st) Command_Handler" where
  "MarkItemAsDoneCommandHandler_Handle repository ctx cmd st =
     (case Get repository ctx (done_TodoListID (Message cmd)) st of
        None \<Rightarrow> None
      | Some (Inl e, st') \<Rightarrow>
          Some (Some (Errorf ''todolist.MarkItemAsDoneCommandHandler: failed to get TodoList from repository, %w'' [e]), st')
      | Some (Inr todo, st') \<Rightarrow>
          (case MarkItemAsDone (done_TodoItemID (Message cmd)) todo of
             (todo', Some e) \<Rightarrow>
               Some (Some (Errorf ''todolist.MarkItemAsDoneCommandHandler: failed to mark item as done, %w'' [e]), st')
           | (todo', None) \<Rightarrow>
               (case Save repository ctx todo' st' of
                  (Some e, _, st'') \<Rightarrow>
                    Some (Some (Errorf ''todolist.MarkItemAsDoneCommandHandler: failed to save new TodoList version, %w'' [e]), st'')
                | (None, _, st'') \<Rightarrow> Some (None, st''))))"

definition MarkItemAsPendingCommandHandler_Handle ::
  "'st Todo_Repository \<Rightarrow> (MarkItemAsPendingCommand, 'st) Command_Handler" where
  "MarkItemAsPendingCommandHandler_Handle repository ctx cmd st =
     (case Get repository ctx (pending_TodoListID (Message cmd)) st of
        None \<Rightarrow> None
      | Some (Inl e, st') \<Rightarrow>
          Some (Some (Errorf ''todolist.MarkItemAsPendingCommandHandler: failed to get TodoList from repository, %w'' [e]), st')
      | Some (Inr todo, st') \<Rightarrow>
          (case MarkItemAsPending (pending_TodoItemID (Message cmd)) todo of
             (todo', Some e) \<Rightarrow>
               Some (Some (Errorf ''todolist.MarkItemAsPendingCommandHandler: failed to mark item as pending, %w'' [e]), st')
           | (todo', None) \<Rightarrow>
               (case Save repository ctx todo' st' of
                  (Some e, _, st'') \<Rightarrow>
                    Some (Some (Errorf ''todolist.MarkItemAsPendingCommandHandler: failed to save new TodoList version, %w'' [e]), st'')
                | (None, _, st'') \<Rightarrow> Some (None, st''))))"

definition DeleteItemCommandHandler_Handle ::
  "'st Todo_Repository \<Rightarrow> (DeleteItemCommand, 'st) Command_Handler" where
  "DeleteItemCommandHandler_Handle repository ctx cmd st =
     (case Get repository ctx (delete_TodoListID (Message cmd)) st of
        None \<Rightarrow> None
      | Some (Inl e, st') \<Rightarrow>
          Some (Some (Errorf ''todolist.DeleteItemCommandHandler: failed to get TodoList from repository, %w'' [e]), st')
      | Some (Inr todo, st') \<Rightarrow>
          (case DeleteItem (delete_TodoItemID (Message cmd)) todo of
             (todo', Some e) \<Rightarrow>
               Some (Some (Errorf ''todolist.DeleteItemCommandHandler: failed to delete item, %w'' [e]), st')
           | (todo', None) \<Rightarrow>
               (case Save repository ctx todo' st' of
                  (Some e, _, st'') \<Rightarrow>
                    Some (Some (Errorf ''todolist.DeleteItemCommandHandler: failed to save new TodoList version, %w'' [e]), st'')
                | (None, _, st'') \<Rightarrow> Some (None, st''))))"

definition GetQueryHandler_Handle :: "'st Todo_Getter \<Rightarrow> (GetQuery, TodoList, 'st) Query_Handler" where
  "GetQueryHandler_Handle getter ctx q st =
     (if get_ID (Message q) = uuid_Nil
      then Some (Inl (Errorf ''todolist.GetQueryHandler: invalid query provided, %w'' [ErrEmptyID]), st)
      else
        (case getter ctx (get_ID (Message q)) st of
           None \<Rightarrow> None
         | Some (Inl e, st') \<Rightarrow>
             Some (Inl (Errorf ''todolist.GetQueryHandler: failed to get TodoList from repository, %w'' [e]), st')
         | Some (Inr todo, st') \<Rightarrow> Some (Inr todo, st')))"

section \<open>Requests to the service\<close>

text \<open>
  The commands of the service as one type, so that runs of requests can be stated: creating a list,
  or one of the four item commands on the list with a given identifier.
\<close>

datatype todo_request =
    CreateRequest ID string string Time
  | ItemRequest ID todo_op

fun handle_request ::
  "'st Todo_Repository \<Rightarrow> todo_request \<Rightarrow> 'st \<Rightarrow> (error option \<times> 'st) option" where
  "handle_request repository (CreateRequest i title owner now) st =
     TodoList_CreateCommandHandler_Handle (\<lambda>_. now) (Save repository) Background
       (Command_ToEnvelope \<lparr>create_ID = i, create_Title = title, create_Owner = owner\<rparr>) st"
| "handle_request repository (ItemRequest l (OpAdd i title description due now)) st =
     AddItemCommandHandler_Handle (\<lambda>_. now) repository Background
       (Command_ToEnvelope \<lparr>add_TodoListID = l, add_TodoItemID = i, add_Title = title,
          add_Description = description, add_DueDate = due\<rparr>) st"
| "handle_request repository (ItemRequest l (OpDone i)) st =
     MarkItemAsDoneCommandHandler_Handle repository Background
       (Command_ToEnvelope \<lparr>done_TodoListID = l, done_TodoItemID = i\<rparr>) st"
| "handle_request repository (ItemRequest l (OpPending i)) st =
     MarkItemAsPendingCommandHandler_Handle repository Background
       (Command_ToEnvelope \<lparr>pending_TodoListID = l, pending_TodoItemID = i\<rparr>) st"
| "handle_request repository (ItemRequest l (OpDelete i)) st =
     DeleteItemCommandHandler_Handle repository Background
       (Command_ToEnvelope \<lparr>delete_TodoListID = l, delete_TodoItemID = i\<rparr>) st"

text \<open>All item handlers have the same shape: get, run the operation, save.\<close>

definition get_run_save ::
  "string \<Rightarrow> string \<Rightarrow> string \<Rightarrow> 'st Todo_Repository \<Rightarrow> ID \<Rightarrow> todo_op \<Rightarrow> 'st \<Rightarrow> (error option \<times> 'st) option" where
  "get_run_save get_msg run_msg save_msg repository l oper st =
     (case Get repository Background l st of
        None \<Rightarrow> None
      | Some (Inl e, st') \<Rightarrow> Some (Some (Errorf get_msg [e]), st')
      | Some (Inr todo, st') \<Rightarrow>
          (case run_op oper todo of
             (todo', Some e) \<Rightarrow> Some (Some (Errorf run_msg [e]), st')
           | (todo', None) \<Rightarrow>
               (case Save repository Background todo' st' of
                  (Some e, _, st'') \<Rightarrow> Some (Some (Errorf save_msg [e]), st'')
                | (None, _, st'') \<Rightarrow> Some (None, st''))))"

lemma handle_ItemRequest_shapes:
  "handle_request repository (ItemRequest l (OpAdd i title description due now)) st =
     get_run_save ''todolist.AddItemCommandHandler: failed to get TodoList from repository, %w''
       ''todolist.AddItemCommandHandler: failed to add item to TodoList, %w''
       ''todolist.AddItemCommandHandler: failed to save new TodoList version, %w''
       repository l (OpAdd i title description due now) st"
  "handle_request repository (ItemRequest l (OpDone i)) st =
     get_run_save ''todolist.MarkItemAsDoneCommandHandler: failed to get TodoList from repository, %w''
       ''todolist.MarkItemAsDoneCommandHandler: failed to mark item as done, %w''
       ''todolist.MarkItemAsDoneCommandHandler: failed to save new TodoList version, %w''
       repository l (OpDone i) st"
  "handle_request repository (ItemRequest l (OpPending i)) st =
     get_run_save ''todolist.MarkItemAsPendingCommandHandler: failed to get TodoList from repository, %w''
       ''todolist.MarkItemAsPendingCommandHandler: failed to mark item as pending, %w''
       ''todolist.MarkItemAsPendingCommandHandler: failed to save new TodoList version, %w''
       repository l (OpPending i) st"
  "handle_request repository (ItemRequest l (OpDelete i)) st =
     get_run_save ''todolist.DeleteItemCommandHandler: failed to get TodoList from repository, %w''
       ''todolist.DeleteItemCommandHandler: failed to delete item, %w''
       ''todolist.DeleteItemCommandHandler: failed to save new TodoList version, %w''
       repository l (OpDelete i) st"
  by (simp_all only: handle_request.simps run_op.simps get_run_save_def Command_ToEnvelope_def Let_def
      AddItemCommandHandler_Handle_def MarkItemAsDoneCommandHandler_Handle_def
      MarkItemAsPendingCommandHandler_Handle_def DeleteItemCommandHandler_Handle_def
      Envelope.select_convs AddItemCommand.select_convs MarkItemAsDoneCommand.select_convs
      MarkItemAsPendingCommand.select_convs DeleteItemCommand.select_convs)

lemma handle_ItemRequest:
  "\<exists>get_msg run_msg save_msg.
     handle_request repository (ItemRequest l oper) st = get_run_save get_msg run_msg save_msg repository l oper st"
  by (cases oper) (blast intro: handle_ItemRequest_shapes)+

end
