(* ===== verification/Todo_Service.thy ===== *)
theory Todo_Service
  imports Todo_Handlers
begin

text \<open>
  The todo list service as a whole: its handlers over any repository that keeps
  \<open>repository_contract\<close>, refined to a map from list identifiers to lists, and the instance wired by
  \<open>examples/todolist/main.go\<close>, an event-sourced repository over an in-memory store.
\<close>

declare recordThat.simps(2) [simp del]

lemma TodoList_Type_simps [simp]:
  "Apply (TodoList_Type us) = TodoList_Apply" "Factory (TodoList_Type us) x = zero_TodoList"
  "AggregateID (TodoList_Type us) = list_ID" "String (TodoList_Type us) = us"
  by (simp_all add: TodoList_Type_def)

section \<open>The service as a map of lists\<close>

record list_view =
  lv_title :: string
  lv_owner :: string
  lv_created :: Time
  lv_version :: Version
  lv_board :: "ItemID \<rightharpoonup> item_view"

definition list_view_of :: "TodoList \<Rightarrow> list_view" where
  "list_view_of todo = \<lparr>lv_title = list_Title todo, lv_owner = list_Owner todo,
     lv_created = list_CreationTime todo, lv_version = version todo, lv_board = board todo\<rparr>"

text \<open>What each request means: a new map of lists, or the cause of the failure.\<close>

fun service_request :: "todo_request \<Rightarrow> (ID \<rightharpoonup> list_view) \<Rightarrow> error + (ID \<rightharpoonup> list_view)" where
  "service_request (CreateRequest l title owner now) m =
     (if l = uuid_Nil then Inl ErrEmptyID
      else if title = '''' then Inl ErrEmptyTitle
      else if owner = '''' then Inl ErrNoOwnerSpecified
      else case m l of
             Some v \<Rightarrow> Inl (Conflict \<lparr>Expected = 0, Actual = lv_version v\<rparr>)
           | None \<Rightarrow> Inr (m(l \<mapsto> \<lparr>lv_title = title, lv_owner = owner, lv_created = now,
                                lv_version = 1, lv_board = Map.empty\<rparr>)))"
| "service_request (ItemRequest l oper) m =
     (case m l of
        None \<Rightarrow> Inl ErrRootNotFound
      | Some v \<Rightarrow>
          (case board_op oper (lv_board v) of
             Inl c \<Rightarrow> Inl c
           | Inr b \<Rightarrow> Inr (m(l \<mapsto> v\<lparr>lv_version := lv_version v + 1, lv_board := b\<rparr>))))"

text \<open>An outcome of a handler agrees with an outcome of the service when both succeed, or the
  returned error wraps the cause.\<close>

fun agrees :: "error option \<Rightarrow> error option \<Rightarrow> bool" where
  "agrees None None \<longleftrightarrow> True"
| "agrees (Some e) (Some c) \<longleftrightarrow> caused_by e c"
| "agrees _ _ \<longleftrightarrow> False"

text \<open>The lists a service holds are well formed and stored under their own identifier.\<close>

definition lists_ok :: "(ID \<Rightarrow> TodoList option) \<Rightarrow> bool" where
  "lists_ok held \<longleftrightarrow>
     (\<forall>l todo. held l = Some todo \<longrightarrow> list_ID todo = l \<and> items_ok todo)"

definition versions_within :: "nat \<Rightarrow> (ID \<Rightarrow> TodoList option) \<Rightarrow> bool" where
  "versions_within n held \<longleftrightarrow> (\<forall>l todo. held l = Some todo \<longrightarrow> unat (version todo) \<le> n)"

definition service_of :: "(ID \<Rightarrow> TodoList option) \<Rightarrow> ID \<rightharpoonup> list_view" where
  "service_of held = (\<lambda>l. map_option list_view_of (held l))"

lemma service_of_upd: "service_of (held(l := Some todo)) = (service_of held)(l \<mapsto> list_view_of todo)"
  by (auto simp: service_of_def)

lemma list_view_of_flushed [simp]: "list_view_of (flushed todo) = list_view_of todo"
  by (simp add: list_view_of_def board_def)

lemma items_ok_at_base [simp]: "items_ok (at_base v es todo) = items_ok todo"
  by (simp add: items_ok_def)

lemma held_upd:
  "lists_ok held \<Longrightarrow> list_ID todo = l \<Longrightarrow> items_ok todo \<Longrightarrow> lists_ok (held(l := Some todo))"
  "versions_within n held \<Longrightarrow> unat (version todo) \<le> n \<Longrightarrow> versions_within n (held(l := Some todo))"
  by (auto simp: lists_ok_def versions_within_def split: if_splits)

section \<open>Runs of requests\<close>

text \<open>Requests handled one after the other; the run stops at a panic.\<close>

fun run_requests ::
  "'st Todo_Repository \<Rightarrow> todo_request list \<Rightarrow> 'st \<Rightarrow> (error option list \<times> 'st) option" where
  "run_requests repository [] st = Some ([], st)"
| "run_requests repository (req # reqs) st =
     (case handle_request repository req st of
        None \<Rightarrow> None
      | Some (r, st') \<Rightarrow> map_option (\<lambda>(rs, st''). (r # rs, st'')) (run_requests repository reqs st'))"

fun service_run :: "todo_request list \<Rightarrow> (ID \<rightharpoonup> list_view) \<Rightarrow> error option list \<times> (ID \<rightharpoonup> list_view)" where
  "service_run [] m = ([], m)"
| "service_run (req # reqs) m =
     (case service_request req m of
        Inl c \<Rightarrow> (let (cs, m') = service_run reqs m in (Some c # cs, m'))
      | Inr m1 \<Rightarrow> (let (cs, m') = service_run reqs m1 in (None # cs, m')))"

section \<open>Handlers over a repository\<close>

locale todo_repository =
  repository_contract get save "TodoList_Type us" stored invar
  for get :: "'st Todo_Getter" and save :: "'st Todo_Saver" and us :: "UUID \<Rightarrow> string"
    and stored :: "'st \<Rightarrow> ID \<Rightarrow> TodoList option" and invar :: "'st \<Rightarrow> bool"
begin

abbreviation repository :: "'st Todo_Repository" where
  "repository \<equiv> \<lparr>Get = get, Save = save\<rparr>"

text \<open>Saving one new event on a stored list, or on a new one.\<close>

lemma save_recorded:
  assumes "inj us" and "invar st"
    and "recordThat TodoList_Apply [ToEnvelope m] (base_root (TodoList_Type us) (stored st l)) = (todo, None)"
    and "list_ID todo = l"
    and "unat (version (base_root (TodoList_Type us) (stored st l))) + 1 < 2 ^ 32"
  obtains st' where "save Background todo st = (None, flushed todo, st')"
    and "stored st' = (stored st)(l := Some (flushed todo))" and "invar st'"
proof -
  from save_ok [of st "[ToEnvelope m]" l todo] assms(2-5) obtain st' where
    s: "save Background todo st = (None, flushed todo, st')" "stored st' l = Some (flushed todo)" "invar st'"
    and frame: "\<forall>j. us j \<noteq> us l \<longrightarrow> stored st' j = stored st j"
    by auto
  have "stored st' = (stored st)(l := Some (flushed todo))"
    using s(2) frame assms(1) by (auto simp: fun_eq_iff inj_eq)
  with s that show thesis by blast
qed

lemma create_request:
  assumes "inj us" and "invar st"
  shows "\<exists>r st'. handle_request repository (CreateRequest l title owner now) st = Some (r, st') \<and> invar st' \<and>
     (case service_request (CreateRequest l title owner now) (service_of (stored st)) of
        Inl c \<Rightarrow> agrees r (Some c) \<and> stored st' = stored st
      | Inr m \<Rightarrow> agrees r None \<and> (\<exists>todo. stored st' = (stored st)(l := Some todo) \<and> list_ID todo = l \<and>
                   items_ok todo \<and> unat (version todo) = 1 \<and> m = service_of (stored st')))"
proof (cases "l = uuid_Nil \<or> title = '''' \<or> owner = ''''")
  case True
  then show ?thesis
    using assms(2) by (auto simp: TodoList_CreateCommandHandler_Handle_def Create_eq Let_def go_defs todo_error_defs)
next
  case False
  let ?todo = "at_base 1 [ToEnvelope (TodoListWasCreated l title owner now)]
      (zero_TodoList\<lparr>list_ID := l, list_Title := title, list_Owner := owner, list_CreationTime := now\<rparr>)"
  have create: "Create l title owner now = Inr ?todo" using False by (simp add: Create_eq)
  show ?thesis
  proof (cases "stored st l")
    case None
    have "recordThat TodoList_Apply [ToEnvelope (TodoListWasCreated l title owner now)] zero_TodoList = (?todo, None)"
      by (simp add: record_one del: recordThat.simps)
    with assms None obtain st' where "save Background ?todo st = (None, flushed ?todo, st')"
      "stored st' = (stored st)(l := Some (flushed ?todo))" "invar st'"
      using save_recorded [of st "TodoListWasCreated l title owner now" l ?todo] by (auto simp: base_root_def)
    with False None create show ?thesis
      by (simp add: TodoList_CreateCommandHandler_Handle_def Command_ToEnvelope_def service_of_upd)
        (auto simp: service_of_def list_view_of_def board_def items_ok_def intro!: exI [of _ "flushed ?todo"])
  next
    case (Some old)
    from stored_flushed [OF assms(2) Some] have v: "version old \<noteq> 0" by simp
    with Some save_conflict [OF assms(2), of ?todo] obtain e st' where
      "save Background ?todo st = (Some e, flushed ?todo, st')"
      "caused_by e (Conflict \<lparr>Expected = 0, Actual = version old\<rparr>)" "stored st' = stored st" "invar st'"
      by (auto simp: base_root_def)
    with False Some create show ?thesis
      by (simp add: TodoList_CreateCommandHandler_Handle_def Command_ToEnvelope_def service_of_def
          list_view_of_def)
  qed
qed

lemma item_request:
  assumes "inj us" and inv: "invar st" and ok: "lists_ok (stored st)"
    and bound: "\<And>todo. stored st l = Some todo \<Longrightarrow> unat (version todo) + 1 < 2 ^ 32"
  shows "\<exists>r st'. handle_request repository (ItemRequest l oper) st = Some (r, st') \<and> invar st' \<and>
     (case service_request (ItemRequest l oper) (service_of (stored st)) of
        Inl c \<Rightarrow> agrees r (Some c) \<and> stored st' = stored st
      | Inr m \<Rightarrow> agrees r None \<and> (\<exists>old todo. stored st l = Some old \<and>
                   stored st' = (stored st)(l := Some todo) \<and> list_ID todo = l \<and> items_ok todo \<and>
                   version todo = version old + 1 \<and> m = service_of (stored st')))"
proof -
  from handle_ItemRequest [of repository l oper st] obtain get_msg run_msg save_msg where
    h: "handle_request repository (ItemRequest l oper) st =
          get_run_save get_msg run_msg save_msg repository l oper st" by blast
  show ?thesis
  proof (cases "stored st l")
    case None
    from get_missing [OF inv None] obtain e st' where "get Background l st = Some (Inl e, st')"
      "caused_by e ErrRootNotFound" "stored st' = stored st" "invar st'" by blast
    with None show ?thesis by (simp add: h get_run_save_def service_of_def)
  next
    case (Some old)
    from get_found [OF inv Some] obtain st1 where g: "get Background l st = Some (Inr old, st1)"
      "stored st1 = stored st" "invar st1" by blast
    from ok Some have old: "items_ok old" "list_ID old = l" by (auto simp: lists_ok_def)
    note ref = todo_commands_core [OF old(1), of oper]
    show ?thesis
    proof (cases "run_op oper old")
      case (Pair todo x)
      show ?thesis
      proof (cases x)
        case (Some e)
        with ref Pair \<open>stored st l = Some old\<close> g show ?thesis
          by (auto simp: h get_run_save_def service_of_def list_view_of_def)
      next
        case None
        with Pair have run: "run_op oper old = (todo, None)" by simp
        from run_op_records [OF run] obtain m where
          "recordThat TodoList_Apply [ToEnvelope m] old = (todo, None)" by blast
        with \<open>inj us\<close> g run_op_fields [OF run] old(2) bound [OF \<open>stored st l = Some old\<close>] \<open>stored st l = Some old\<close>
        obtain st2 where s: "save Background todo st1 = (None, flushed todo, st2)"
          "stored st2 = (stored st)(l := Some (flushed todo))" "invar st2"
          using save_recorded [of st1 m l todo] by (auto simp: base_root_def)
        have "items_ok todo" using run_op_items_ok [OF old(1), of oper] run by simp
        moreover from ref run have "board_op oper (board old) = Inr (board todo)" by simp
        ultimately show ?thesis
          using g s run run_op_fields [OF run] old(2) \<open>stored st l = Some old\<close>
          by (simp add: h get_run_save_def service_of_upd)
            (auto simp: service_of_def list_view_of_def board_def intro!: exI [of _ "flushed todo"])
      qed
    qed
  qed
qed

text \<open>One request: the handler does what the service does, and keeps the lists well formed.\<close>

lemma request_refines:
  assumes "inj us" and inv: "invar st" and ok: "lists_ok (stored st)"
    and within: "versions_within n (stored st)" and n: "Suc n < 2 ^ 32"
  shows "\<exists>r st'. handle_request repository req st = Some (r, st') \<and> invar st' \<and>
     lists_ok (stored st') \<and> versions_within (Suc n) (stored st') \<and>
     (case service_request req (service_of (stored st)) of
        Inl c \<Rightarrow> agrees r (Some c) \<and> stored st' = stored st
      | Inr m \<Rightarrow> agrees r None \<and> m = service_of (stored st'))"
proof (cases req)
  case (CreateRequest l title owner now)
  have within': "versions_within (Suc n) (stored st)"
    using within by (auto simp: versions_within_def le_Suc_eq)
  from create_request [OF assms(1) inv, of l title owner now] obtain r st' where
    "handle_request repository req st = Some (r, st')" "invar st'"
    "case service_request req (service_of (stored st)) of
        Inl c \<Rightarrow> agrees r (Some c) \<and> stored st' = stored st
      | Inr m \<Rightarrow> agrees r None \<and> (\<exists>todo. stored st' = (stored st)(l := Some todo) \<and> list_ID todo = l \<and>
                   items_ok todo \<and> unat (version todo) = 1 \<and> m = service_of (stored st'))"
    unfolding CreateRequest by blast
  with ok within' show ?thesis by (auto simp: held_upd split: sum.splits)
next
  case (ItemRequest l oper)
  have within': "versions_within (Suc n) (stored st)"
    using within by (auto simp: versions_within_def le_Suc_eq)
  have bound: "unat (version todo) + 1 < 2 ^ 32" if "stored st l = Some todo" for todo
    using within that n by (auto simp: versions_within_def dest!: spec)
  have succ: "unat (version old + 1) \<le> Suc n" if "stored st l = Some old" for old
    using within that bound [OF that] by (auto simp: versions_within_def unat_word_ariths)
  from item_request [OF assms(1) inv ok bound, of l oper] obtain r st' where
    "handle_request repository req st = Some (r, st')" "invar st'"
    "case service_request req (service_of (stored st)) of
        Inl c \<Rightarrow> agrees r (Some c) \<and> stored st' = stored st
      | Inr m \<Rightarrow> agrees r None \<and> (\<exists>old todo. stored st l = Some old \<and>
                   stored st' = (stored st)(l := Some todo) \<and> list_ID todo = l \<and> items_ok todo \<and>
                   version todo = version old + 1 \<and> m = service_of (stored st'))"
    unfolding ItemRequest by blast
  with ok within' succ show ?thesis by (auto simp: held_upd split: sum.splits)
qed

text \<open>A query for a list answers with the stored list and changes nothing.\<close>

lemma get_request:
  assumes inv: "invar st" and l: "get_ID (Message q) = l"
  shows "\<exists>r st'. GetQueryHandler_Handle get Background q st = Some (r, st') \<and>
     stored st' = stored st \<and> invar st' \<and>
     (case stored st l of
        Some todo \<Rightarrow> r = (if l = uuid_Nil then r else Inr todo)
      | None \<Rightarrow> \<exists>e. r = Inl e \<and> caused_by e (if l = uuid_Nil then ErrEmptyID else ErrRootNotFound)) \<and>
     (l = uuid_Nil \<longrightarrow> (\<exists>e. r = Inl e \<and> caused_by e ErrEmptyID))"
proof (cases "stored st l")
  case None
  from get_missing [OF inv None] obtain e st' where "get Background l st = Some (Inl e, st')"
    "caused_by e ErrRootNotFound" "stored st' = stored st" "invar st'" by blast
  with None l inv show ?thesis
    by (simp add: GetQueryHandler_Handle_def todo_error_defs)
next
  case (Some todo)
  from get_found [OF inv Some] obtain st' where "get Background l st = Some (Inr todo, st')"
    "stored st' = stored st" "invar st'" by blast
  with Some l inv show ?thesis
    by (simp add: GetQueryHandler_Handle_def todo_error_defs)
qed

text \<open>A run of requests: the outcomes agree one by one.\<close>

lemma run_refines:
  assumes "inj us"
  shows "invar st \<Longrightarrow> lists_ok (stored st) \<Longrightarrow> versions_within n (stored st) \<Longrightarrow> n + length reqs < 2 ^ 32 \<Longrightarrow>
     \<exists>rs st'. run_requests repository reqs st = Some (rs, st') \<and> invar st' \<and> lists_ok (stored st') \<and>
       versions_within (n + length reqs) (stored st') \<and>
       list_all2 agrees rs (fst (service_run reqs (service_of (stored st)))) \<and>
       service_of (stored st') = snd (service_run reqs (service_of (stored st)))"
proof (induction reqs arbitrary: st n)
  case Nil
  then show ?case by simp
next
  case (Cons req reqs)
  have n: "Suc n < 2 ^ 32" using Cons.prems(4) by simp
  from request_refines [OF assms Cons.prems(1-3) n, of req] obtain r st1 where
    h: "handle_request repository req st = Some (r, st1)"
    and st1: "invar st1" "lists_ok (stored st1)" "versions_within (Suc n) (stored st1)"
    and out: "case service_request req (service_of (stored st)) of
        Inl c \<Rightarrow> agrees r (Some c) \<and> stored st1 = stored st
      | Inr m \<Rightarrow> agrees r None \<and> m = service_of (stored st1)" by blast
  have "Suc n + length reqs < 2 ^ 32" using Cons.prems(4) by simp
  from Cons.IH [OF st1 this] obtain rs st' where
    "run_requests repository reqs st1 = Some (rs, st')" "invar st'" "lists_ok (stored st')"
    "versions_within (Suc n + length reqs) (stored st')"
    "list_all2 agrees rs (fst (service_run reqs (service_of (stored st1))))"
    "service_of (stored st') = snd (service_run reqs (service_of (stored st1)))" by blast
  with h out show ?case by (auto split: sum.splits prod.splits)
qed

end

section \<open>The service of \<open>main.go\<close>\<close>

interpretation todo_type: aggregate_type "TodoList_Type us" for us :: "UUID \<Rightarrow> string"
  by unfold_locales (simp_all add: TodoList_Apply_oblivious)

interpretation todo_es: event_sourced InMemoryStore_Append InMemoryStore_Stream mem_log "\<lambda>_. True" "TodoList_Type us"
  for us :: "UUID \<Rightarrow> string"
  by unfold_locales

text \<open>\<open>todoListRepository\<close>, over the store \<open>eventStore\<close>.\<close>

definition todoListRepository :: "(UUID \<Rightarrow> string) \<Rightarrow> todo_event InMemoryStore Todo_Repository" where
  "todoListRepository uuid_String = EventSourcedRepository_Repository
     (NewEventSourcedRepository InMemoryStore_Store (TodoList_Type uuid_String))"

text \<open>The lists a store holds: the fold of each list's log.\<close>

definition stored_lists :: "(UUID \<Rightarrow> string) \<Rightarrow> todo_event InMemoryStore \<Rightarrow> ID \<Rightarrow> TodoList option" where
  "stored_lists us st l =
     (let es = mem_log st (us l) in
      if es = [] then None
      else Some (at_base (version_of es) [] (fst (replay TodoList_Apply (map Message es) zero_TodoList))))"

definition logs_ok :: "(UUID \<Rightarrow> string) \<Rightarrow> todo_event InMemoryStore \<Rightarrow> bool" where
  "logs_ok us st \<longleftrightarrow> (\<forall>l. length (mem_log st (us l)) < 2 ^ 32 \<and>
     snd (replay TodoList_Apply (map Message (mem_log st (us l))) zero_TodoList) = None)"

lemma stored_lists_eq: "event_sourced.es_stored mem_log (TodoList_Type us) = stored_lists us"
  by (simp add: fun_eq_iff stored_lists_def todo_es.es_stored_def Let_def)

lemma logs_ok_eq: "event_sourced.es_invar mem_log (\<lambda>_. True) (TodoList_Type us) = logs_ok us"
  by (simp add: fun_eq_iff logs_ok_def todo_es.es_invar_def)

interpretation todo_mem: todo_repository "Get (todoListRepository us)" "Save (todoListRepository us)" us
  "stored_lists us" "logs_ok us" for us :: "UUID \<Rightarrow> string"
  using todo_es.es_repository [of us]
  by (simp add: todo_repository_def todoListRepository_def go_defs stored_lists_eq logs_ok_eq)

section \<open>Properties of the service\<close>

lemma stored_lists_New [simp]: "stored_lists us NewInMemoryStore = (\<lambda>_. None)"
  by (simp add: stored_lists_def NewInMemoryStore_def fun_eq_iff)

lemma logs_ok_New [simp]: "logs_ok us NewInMemoryStore"
  by (simp add: logs_ok_def NewInMemoryStore_def)

lemma held_none [simp]: "lists_ok (\<lambda>_. None)" "versions_within n (\<lambda>_. None)" "service_of (\<lambda>_. None) = Map.empty"
  by (simp_all add: lists_ok_def versions_within_def service_of_def)

lemma todoListRepository_eta: "\<lparr>Get = Get (todoListRepository us), Save = Save (todoListRepository us)\<rparr> = todoListRepository us"
  by simp

text \<open>An injective rendering of identifiers, for the witnesses.\<close>

text \<open>Any sequence of requests to the service wired in \<open>main.go\<close>, started on an empty store,
  behaves as the abstract service, a map from list identifiers to lists: no request panics, each
  outcome is a success exactly when the abstract request succeeds and otherwise wraps the one cause the
  abstract service gives (invalid input, a conflict with the stored version when a list exists
  already, a missing list or item), and what the store holds in the end is the abstract map.\<close>

lemma todo_service_refines:
  assumes "inj us" and "length reqs < 2 ^ 32"
  shows "\<exists>rs st. run_requests (todoListRepository us) reqs NewInMemoryStore = Some (rs, st) \<and>
     list_all2 agrees rs (fst (service_run reqs Map.empty)) \<and>
     service_of (stored_lists us st) = snd (service_run reqs Map.empty)"
proof -
  have "0 + length reqs < 2 ^ 32" using assms(2) by simp
  from todo_mem.run_refines [OF assms(1) logs_ok_New _ _ this] show ?thesis
    unfolding todoListRepository_eta by auto
qed

text \<open>Two clients load the same stored list and each run a command on it that succeeds. Whoever
  saves first is stored; the other's save fails with a \<open>ConflictError\<close> that names the version it
  started from and the version stored since, and the first one's list stays stored: no update is
  lost.\<close>

theorem todo_no_lost_update:
  assumes st: "logs_ok us st" "lists_ok (stored_lists us st)" "stored_lists us st l = Some todo"
    and runs: "run_op op1 todo = (todo1, None)" "run_op op2 todo = (todo2, None)"
    and bound: "unat (version todo) + 1 < 2 ^ 32"
  shows "\<exists>st1 e st2. Save (todoListRepository us) Background todo1 st = (None, flushed todo1, st1) \<and>
     Save (todoListRepository us) Background todo2 st1 = (Some e, flushed todo2, st2) \<and>
     errors_As e = Some \<lparr>Expected = version todo, Actual = version todo + 1\<rparr> \<and>
     stored_lists us st2 l = Some (flushed todo1)"
proof -
  from run_op_records runs obtain m1 m2 where
    rec: "recordThat TodoList_Apply [ToEnvelope m1] todo = (todo1, None)"
      "recordThat TodoList_Apply [ToEnvelope m2] todo = (todo2, None)" by blast
  have "recordedEvents todo = []" using todo_mem.stored_flushed [OF st(1,3)] by simp
  then have evs: "recordedEvents todo2 = [ToEnvelope m2]"
    by (rule_tac todo.recordThat_okD [OF rec(2)]) simp
  have "list_ID todo = l" using st(2,3) by (simp add: lists_ok_def)
  with todo_mem.second_save_conflicts [OF st(1), of "[ToEnvelope m1]" l todo1 "[ToEnvelope m2]" todo2]
    rec(1) evs run_op_fields [OF runs(1)] run_op_fields [OF runs(2)] st(3) bound
  show ?thesis by (simp add: base_root_def) (blast intro: caused_by_As)
qed

definition groceries :: "todo_event Envelope" where
  "groceries = ToEnvelope (TodoListWasCreated 1 ''groceries'' ''ann'' zero_Time)"

definition groceries_store :: "todo_event InMemoryStore" where
  "groceries_store = \<lparr>events = [unary 1 \<mapsto> [groceries]]\<rparr>"

definition groceries_list :: TodoList where
  "groceries_list = at_base 1 [] (zero_TodoList\<lparr>list_ID := 1, list_Title := ''groceries'', list_Owner := ''ann''\<rparr>)"

lemma mem_log_groceries: "mem_log groceries_store (unary l) = (if l = 1 then [groceries] else [])"
  using inj_unary by (auto simp: groceries_store_def slice_at_def inj_eq)

lemma groceries_apply:
  "TodoList_Apply (Message groceries) zero_TodoList =
     (zero_TodoList\<lparr>list_ID := 1, list_Title := ''groceries'', list_Owner := ''ann''\<rparr>, None)"
  by (simp add: groceries_def go_defs zero_TodoList_def)

lemma stored_groceries: "stored_lists unary groceries_store = [1 \<mapsto> groceries_list]"
  by (simp add: fun_eq_iff stored_lists_def mem_log_groceries groceries_apply groceries_list_def)

lemma groceries_ok:
  "logs_ok unary groceries_store" "lists_ok (stored_lists unary groceries_store)" "items_ok groceries_list"
  by (simp_all add: logs_ok_def mem_log_groceries groceries_apply stored_groceries lists_ok_def groceries_list_def
      items_ok_def)

theorem todo_no_lost_update_witness:
  "\<exists>todo1 todo2 st1 e st2. Save (todoListRepository unary) Background todo1 groceries_store = (None, flushed todo1, st1) \<and>
     Save (todoListRepository unary) Background todo2 st1 = (Some e, flushed todo2, st2) \<and>
     errors_As e = Some \<lparr>Expected = 1, Actual = 2\<rparr> \<and>
     stored_lists unary st2 1 = Some (flushed todo1)"
proof -
  have ok: "\<exists>t. run_op (OpAdd i ''milk'' '''' zero_Time zero_Time) groceries_list = (t, None)" if "i \<noteq> 0" for i
    using that by (simp add: AddItem_eq uuid_Nil_def groceries_list_def board_def)
  obtain todo1 where r1: "run_op (OpAdd 5 ''milk'' '''' zero_Time zero_Time) groceries_list = (todo1, None)"
    using ok [of 5] by auto
  obtain todo2 where r2: "run_op (OpAdd 6 ''milk'' '''' zero_Time zero_Time) groceries_list = (todo2, None)"
    using ok [of 6] by auto
  have st: "stored_lists unary groceries_store 1 = Some groceries_list" and v: "version groceries_list = 1"
    by (simp_all add: stored_groceries groceries_list_def)
  from todo_no_lost_update [OF groceries_ok(1,2) st r1 r2] show ?thesis
    by (simp add: v) blast
qed

text \<open>A query for a list answers with exactly the stored list and changes nothing that is stored;
  for the nil identifier it reports \<open>ErrEmptyID\<close>, and for a list that does not exist
  \<open>ErrRootNotFound\<close>.\<close>

theorem GetQueryHandler_answers:
  assumes "logs_ok us st"
  shows "\<exists>r st'. GetQueryHandler_Handle (Get (todoListRepository us)) Background (Query_ToEnvelope \<lparr>get_ID = l\<rparr>) st =
       Some (r, st') \<and>
     stored_lists us st' = stored_lists us st \<and> logs_ok us st' \<and>
     (if l = uuid_Nil then \<exists>e. r = Inl e \<and> caused_by e ErrEmptyID
      else case stored_lists us st l of
             None \<Rightarrow> \<exists>e. r = Inl e \<and> caused_by e ErrRootNotFound
           | Some todo \<Rightarrow> r = Inr todo)"
proof -
  have l: "get_ID (Message (Query_ToEnvelope \<lparr>get_ID = l\<rparr>)) = l" by (simp add: Query_ToEnvelope_def)
  from todo_mem.get_request [OF assms l] show ?thesis
    by (cases "stored_lists us st l") (fastforce split: if_splits)+
qed

theorem GetQueryHandler_answers_witness:
  "\<exists>st'. GetQueryHandler_Handle (Get (todoListRepository unary)) Background (Query_ToEnvelope \<lparr>get_ID = 1\<rparr>)
     groceries_store = Some (Inr groceries_list, st')"
  using GetQueryHandler_answers [OF groceries_ok(1), of 1] by (auto simp: uuid_Nil_def stored_groceries)

end
