(* ===== verification/Event_Sourcing.thy ===== *)
theory Event_Sourcing
  imports Aggregate_Scenario Todo_Service
begin

text \<open>
  What event sourcing promises for every aggregate type that keeps the contract \<open>aggregate_type\<close>,
  over an in-memory event store. The todo list aggregate is the concrete case of the witnesses.
\<close>

lemma event_sourced_mem:
  "aggregate_type t \<Longrightarrow> event_sourced InMemoryStore_Append InMemoryStore_Stream mem_log (\<lambda>_. True) t"
  by (rule event_sourced.intro [OF mem.event_store_axioms])

lemma aggregate_type_todo: "aggregate_type (TodoList_Type us)"
  by (rule todo_type.aggregate_type_axioms)

abbreviation es_repo :: "('id, 'm, 'z) Type \<Rightarrow> ('id, 'm, 'z, 'm InMemoryStore) EventSourcedRepository" where
  "es_repo t \<equiv> NewEventSourcedRepository InMemoryStore_Store t"

section \<open>Recording\<close>

text \<open>\<open>RecordThat\<close> applies the events in order. When all apply, they are appended to the root's
  uncommitted events and the version grows by their number; when one fails, exactly the events
  before it have been applied, recorded and counted, and the error wraps the cause.\<close>

theorem RecordThat_outcome:
  assumes "aggregate_root (Apply t)"
  shows "case RecordThat t evts root of
     (root', None) \<Rightarrow>
        version root' = version root + version_of evts \<and> recordedEvents root' = recordedEvents root @ evts
   | (root', Some e) \<Rightarrow>
        \<exists>before evt rest cause root\<^sub>1. evts = before @ evt # rest \<and>
          RecordThat t before root = (root\<^sub>1, None) \<and> Apply t (Message evt) root\<^sub>1 = (root', Some cause) \<and>
          version root' = version root + version_of before \<and>
          recordedEvents root' = recordedEvents root @ before \<and>
          e = Errorf ''aggregate.BaseRoot: failed to record event, %w'' [cause]"
proof (cases "RecordThat t evts root")
  case (Pair root' x)
  then have rec: "recordThat (Apply t) evts root = (root', x)" by (simp add: go_defs)
  show ?thesis
  proof (cases x)
    case None
    from aggregate_root.recordThat_okD [OF assms rec [unfolded None]] obtain q where
      "root' = at_base (version root + version_of evts) (recordedEvents root @ evts) q" by blast
    then show ?thesis by (simp add: Pair None)
  next
    case (Some e)
    from aggregate_root.recordThat_error [OF assms rec [unfolded Some]] obtain before evt rest cause q r1 where
      "evts = before @ evt # rest" "recordThat (Apply t) before root = (r1, None)"
      "Apply t (Message evt) r1 = (root', Some cause)"
      "e = Errorf ''aggregate.BaseRoot: failed to record event, %w'' [cause]"
      "version root' = version root + version_of before" "recordedEvents root' = recordedEvents root @ before" .
    then show ?thesis
      unfolding RecordThat_def rec Some prod.case option.case
      by (intro exI [of _ before] exI [of _ evt] exI [of _ rest] exI [of _ cause] exI [of _ r1] conjI)
  qed
qed

theorem RecordThat_outcome_witness:
  "\<exists>root' e before. RecordThat (TodoList_Type unary) [groceries, ToEnvelope (TodoListItemMarkedAsDone 4)] zero_TodoList =
       (root', Some e) \<and> version root' = version_of before \<and> recordedEvents root' = before \<and> before = [groceries]"
proof -
  let ?evts = "[groceries, ToEnvelope (TodoListItemMarkedAsDone 4)]"
  have fail: "RecordThat (TodoList_Type unary) ?evts zero_TodoList =
      (groceries_list\<lparr>recordedEvents := [groceries]\<rparr>,
       Some (Errorf ''aggregate.BaseRoot: failed to record event, %w''
         [Errorf ''todolist.TodoList.Apply: item not found'' []]))"
    by (simp add: go_defs recordThat.simps(2) groceries_apply groceries_list_def base_update_at_base applyItemEvent_def)
  have root: "aggregate_root (Apply (TodoList_Type unary))" by (simp add: todo.aggregate_root_axioms)
  have "recordedEvents (groceries_list\<lparr>recordedEvents := [groceries]\<rparr>) = [groceries]" by simp
  with RecordThat_outcome [OF root, where evts = ?evts and root = zero_TodoList] show ?thesis
    unfolding fail by (auto simp: exI [of _ "[groceries]"])
qed

section \<open>Rehydrating\<close>

text \<open>Rehydrating a fresh root from the events that were recorded on one gives that root back, with
  the same version and state and no uncommitted events.\<close>

lemma RehydrateFromEvents_RecordThat:
  assumes "aggregate_type t" and "RecordThat t evts (Factory t ()) = (root, None)"
  shows "RehydrateFromEvents (Apply t) (Factory t ()) (SliceToStream (persisted_from sid 0 evts)) st =
     Some (None, flushed root, st)"
proof -
  have "aggregate_root (Apply t)" using assms(1) by (simp add: aggregate_type_def)
  from aggregate_root.recordThat_okD [OF this assms(2) [unfolded RecordThat_def]] obtain q where
    q: "replay (Apply t) (map Message evts) (Factory t ()) = (q, None)"
    and root: "root = at_base (version (Factory t ()) + version_of evts) (recordedEvents (Factory t ()) @ evts) q"
    by blast
  from aggregate_type.rehydrate_slice [OF assms(1) q] root aggregate_type.fresh_factory [OF assms(1)]
  show ?thesis by simp
qed

lemma groceries_recorded:
  "RecordThat (TodoList_Type unary) [groceries] (Factory (TodoList_Type unary) ()) =
     (groceries_list\<lparr>recordedEvents := [groceries]\<rparr>, None)"
  by (simp add: go_defs recordThat.simps(2) groceries_apply groceries_list_def base_update_at_base)

section \<open>Saving and loading\<close>

text \<open>C14: A client that loads a root from an event-sourced repository over an in-memory store, records
  events on it and saves it succeeds, and the next client to load the identifier gets the saved
  root.\<close>

theorem EventSourcedRepository_Save_then_Get:
  assumes "aggregate_type t"
    and "EventSourcedRepository_Get (es_repo t) Background i st = Some (Inr root, st\<^sub>0)"
    and "RecordThat t evts root = (root', None)" and "evts \<noteq> []" and "AggregateID t root' = i"
    and "length (mem_log st (String t i)) + length evts < 2 ^ 32"
  shows "\<exists>st\<^sub>1 st\<^sub>2. EventSourcedRepository_Save (es_repo t) Background root' st = (None, flushed root', st\<^sub>1) \<and>
     EventSourcedRepository_Get (es_repo t) Background i st\<^sub>1 = Some (Inr (flushed root'), st\<^sub>2)"
  using event_sourced.load_record_save_load [OF event_sourced_mem [OF assms(1)] TrueI] assms
  by (simp add: InMemoryStore_Store_def)

lemma get_groceries:
  "\<exists>st. EventSourcedRepository_Get (es_repo (TodoList_Type unary)) Background 1 groceries_store =
     Some (Inr groceries_list, st)"
  using todo_mem.get_found [OF groceries_ok(1), of 1 groceries_list]
  by (auto simp: stored_groceries todoListRepository_def go_defs)

definition milk :: "todo_event Envelope" where
  "milk = ToEnvelope (TodoListItemWasAdded 5 ''milk'' '''' zero_Time zero_Time)"

lemma milk_recorded:
  "\<exists>todo. RecordThat (TodoList_Type unary) [milk] groceries_list = (todo, None) \<and> list_ID todo = 1"
  by (simp add: go_defs recordThat.simps(2) milk_def groceries_list_def)

theorem EventSourcedRepository_Save_then_Get_witness:
  "\<exists>todo st\<^sub>1 st\<^sub>2. RecordThat (TodoList_Type unary) [milk] groceries_list = (todo, None) \<and>
     EventSourcedRepository_Save (es_repo (TodoList_Type unary)) Background todo groceries_store =
       (None, flushed todo, st\<^sub>1) \<and>
     EventSourcedRepository_Get (es_repo (TodoList_Type unary)) Background 1 st\<^sub>1 = Some (Inr (flushed todo), st\<^sub>2)"
proof -
  obtain st where g: "EventSourcedRepository_Get (es_repo (TodoList_Type unary)) Background 1 groceries_store =
      Some (Inr groceries_list, st)" using get_groceries by blast
  obtain todo where r: "RecordThat (TodoList_Type unary) [milk] groceries_list = (todo, None)"
    and "list_ID todo = 1" using milk_recorded by blast
  then have i: "AggregateID (TodoList_Type unary) todo = 1" by simp
  have "length (mem_log groceries_store (String (TodoList_Type unary) 1)) + length [milk] < 2 ^ 32"
    by (simp add: mem_log_groceries)
  from EventSourcedRepository_Save_then_Get [OF aggregate_type_todo g r _ i this] r show ?thesis
    by blast
qed

text \<open>C4: Two clients load the same root and each record events on it. The one that saves second gets
  an error in which \<open>errors.As\<close> finds a \<open>ConflictError\<close> with the version both had loaded and the
  version the first one committed, and the store holds the events of the first one only.\<close>

theorem EventSourcedRepository_second_writer_conflicts:
  assumes "aggregate_type t"
    and "EventSourcedRepository_Get (es_repo t) Background i st = Some (Inr root, st\<^sub>0)"
    and "RecordThat t evts1 root = (root1, None)" "evts1 \<noteq> []" "AggregateID t root1 = i"
    and "RecordThat t evts2 root = (root2, None)" "evts2 \<noteq> []" "AggregateID t root2 = i"
    and "length (mem_log st (String t i)) + length evts1 < 2 ^ 32"
  shows "\<exists>st\<^sub>1 e st\<^sub>2. EventSourcedRepository_Save (es_repo t) Background root1 st = (None, flushed root1, st\<^sub>1) \<and>
     EventSourcedRepository_Save (es_repo t) Background root2 st\<^sub>1 = (Some e, flushed root2, st\<^sub>2) \<and>
     errors_As e = Some \<lparr>Expected = version root, Actual = version root1\<rparr> \<and>
     mem_log st\<^sub>2 = (mem_log st)(String t i := mem_log st (String t i) @ evts1)"
  using event_sourced.second_writer_conflicts [OF event_sourced_mem [OF assms(1)] TrueI] assms
  by (simp add: InMemoryStore_Store_def) (blast intro: caused_by_As)

theorem EventSourcedRepository_second_writer_conflicts_witness:
  "\<exists>todo st\<^sub>1 e st\<^sub>2. RecordThat (TodoList_Type unary) [milk] groceries_list = (todo, None) \<and>
     EventSourcedRepository_Save (es_repo (TodoList_Type unary)) Background todo groceries_store =
       (None, flushed todo, st\<^sub>1) \<and>
     EventSourcedRepository_Save (es_repo (TodoList_Type unary)) Background todo st\<^sub>1 =
       (Some e, flushed todo, st\<^sub>2) \<and>
     errors_As e = Some \<lparr>Expected = 1, Actual = version todo\<rparr>"
proof -
  obtain st where g: "EventSourcedRepository_Get (es_repo (TodoList_Type unary)) Background 1 groceries_store =
      Some (Inr groceries_list, st)" using get_groceries by blast
  obtain todo where r: "RecordThat (TodoList_Type unary) [milk] groceries_list = (todo, None)"
    and "list_ID todo = 1" using milk_recorded by blast
  then have i: "AggregateID (TodoList_Type unary) todo = 1" by simp
  have "length (mem_log groceries_store (String (TodoList_Type unary) 1)) + length [milk] < 2 ^ 32"
    by (simp add: mem_log_groceries)
  from EventSourcedRepository_second_writer_conflicts [OF aggregate_type_todo g r _ i r _ i this] r show ?thesis
    by (simp add: groceries_list_def) blast
qed

theorem EventSourcedRepository_retry_is_void_witness:
  "\<exists>todo e st\<^sub>1. EventSourcedRepository_Save (es_repo (TodoList_Type unary)) Background todo NewInMemoryStore =
       (Some e, flushed todo, st\<^sub>1) \<and>
     EventSourcedRepository_Save (es_repo (TodoList_Type unary)) Background (flushed todo) st\<^sub>1 =
       (None, flushed todo, st\<^sub>1)"
proof -
  let ?todo = "at_base 2 [milk] groceries_list"
  obtain e where "EventSourcedRepository_Save (es_repo (TodoList_Type unary)) Background ?todo NewInMemoryStore =
       (Some e, flushed ?todo, NewInMemoryStore)"
    by (simp add: EventSourcedRepository_Save_def FlushRecordedEvents_eq go_defs InMemoryStore_Append_conflict)
  from EventSourcedRepository_retry_is_void [OF this] this show ?thesis by blast
qed

section \<open>Scenarios\<close>

text \<open>C27: The aggregate scenario \<open>Scenario(t).Given(before).When(RecordThat evts).Then(v, expected)\<close>, with
  given events that apply, passes exactly when all the events apply after the given ones, the
  expected events are exactly the recorded ones and the expected version is the number of given and
  recorded events together.\<close>

theorem Agg_AssertOn_Then_iff:
  assumes "aggregate_type t" and "replay (Apply t) (map Message before) (Factory t ()) = (q, None)"
  shows "Agg_AssertOn (Agg_Then (Agg_Given_When (Agg_Given (Agg_Scenario t) (persisted_from sid 0 before)) (RecordThat t evts))
            v expected) =
     Some (snd (replay (Apply t) (map Message evts) q) = None \<and> expected = evts \<and> v = version_of (before @ evts))"
  using aggregate_type.scenario_checks [OF assms] .

theorem Agg_AssertOn_Then_iff_witness:
  "Agg_AssertOn (Agg_Then (Agg_Given_When (Agg_Given (Agg_Scenario (TodoList_Type unary)) (persisted_from ''x'' 0 [groceries]))
       (RecordThat (TodoList_Type unary) [milk])) 2 [milk]) = Some True \<and>
   Agg_AssertOn (Agg_Then (Agg_Given_When (Agg_Given (Agg_Scenario (TodoList_Type unary)) (persisted_from ''x'' 0 [groceries]))
       (RecordThat (TodoList_Type unary) [milk])) 1 [milk]) = Some False"
proof -
  obtain q where "replay (Apply (TodoList_Type unary)) (map Message [groceries]) (Factory (TodoList_Type unary) ()) = (q, None)"
    by (simp add: groceries_apply)
  from Agg_AssertOn_Then_iff [OF aggregate_type_todo this] show ?thesis
    by (simp add: milk_def go_defs)
qed

end
