(* ===== verification/User_Aggregate.thy ===== *)
theory User_Aggregate
  imports Event_Sourcing Go_Time Query
begin

text \<open>
  The user aggregate the repository's own suites run on: \<open>internal/user/event.go\<close>, \<open>aggregate.go\<close>
  and \<open>create_user.go\<close>.
\<close>

section \<open>Domain events\<close>

datatype user_kind =
    UserWasCreated string string Time string
  | UserEmailWasUpdated string

text \<open>\<open>Kind\<close> is an interface value and may be nil.\<close>

record user_Event =
  evt_ID :: UUID
  evt_RecordTime :: Time
  evt_Kind :: "user_kind option"

text \<open>A message is a pointer to an \<open>Event\<close> or any other type behind the interface.\<close>

datatype user_msg = UserEvent user_Event | ForeignMessage string

fun user_kind_Name :: "user_kind \<Rightarrow> string" where
  "user_kind_Name (UserWasCreated firstName lastName birthDate email) = ''UserWasCreated''"
| "user_kind_Name (UserEmailWasUpdated email) = ''UserEmailWasUpdated''"

text \<open>\<open>Name\<close> panics on a nil \<open>Kind\<close>.\<close>

fun user_msg_Name :: "user_msg \<Rightarrow> string option" where
  "user_msg_Name (UserEvent evt) = map_option user_kind_Name (evt_Kind evt)"
| "user_msg_Name (ForeignMessage name) = Some name"

section \<open>The aggregate\<close>

record User = "user_msg BaseRoot" +
  user_id :: UUID
  user_firstName :: string
  user_lastName :: string
  user_birthDate :: Time
  user_email :: string

definition zero_User :: User where
  "zero_User = \<lparr>version = 0, recordedEvents = [], user_id = uuid_Nil, user_firstName = '''',
     user_lastName = '''', user_birthDate = zero_Time, user_email = ''''\<rparr>"

fun User_Apply :: "(user_msg, User) apply_method" where
  "User_Apply (ForeignMessage name) user =
     (user, Some (Errorf ''user.Apply: unexpected event type, %T'' []))"
| "User_Apply (UserEvent userEvent) user =
     (case evt_Kind userEvent of
        Some (UserWasCreated firstName lastName birthDate email) \<Rightarrow>
          (user\<lparr>user_id := evt_ID userEvent, user_firstName := firstName, user_lastName := lastName,
                user_birthDate := birthDate, user_email := email\<rparr>, None)
      | Some (UserEmailWasUpdated email) \<Rightarrow> (user\<lparr>user_email := email\<rparr>, None)
      | None \<Rightarrow> (user, Some (Errorf ''user.Apply: unexpected event kind type, %T'' [])))"

definition User_Type :: "(UUID \<Rightarrow> string) \<Rightarrow> (UUID, user_msg, unit User_ext) Type" where
  "User_Type uuid_String = \<lparr>Name = ''User'', Factory = (\<lambda>_. zero_User), Apply = User_Apply,
     AggregateID = user_id, String = uuid_String\<rparr>"

definition ErrInvalidFirstName :: error where
  "ErrInvalidFirstName = Sentinel ''user: invalid first name, is empty''"
definition ErrInvalidLastName :: error where
  "ErrInvalidLastName = Sentinel ''user: invalid last name, is empty''"
definition ErrInvalidEmail :: error where
  "ErrInvalidEmail = Sentinel ''user: invalid email name, is empty''"
definition ErrInvalidBirthDate :: error where
  "ErrInvalidBirthDate = Sentinel ''user: invalid birthdate, is empty''"

lemmas user_error_defs = ErrInvalidFirstName_def ErrInvalidLastName_def ErrInvalidEmail_def ErrInvalidBirthDate_def

definition User_Create :: "UUID \<Rightarrow> string \<Rightarrow> string \<Rightarrow> string \<Rightarrow> Time \<Rightarrow> Time \<Rightarrow> error + User" where
  "User_Create i firstName lastName email birthDate now =
     (let invalidArgs = [];
          invalidArgs = (if firstName = '''' then invalidArgs @ [Some ErrInvalidFirstName] else invalidArgs);
          invalidArgs = (if lastName = '''' then invalidArgs @ [Some ErrInvalidLastName] else invalidArgs);
          invalidArgs = (if email = '''' then invalidArgs @ [Some ErrInvalidEmail] else invalidArgs);
          invalidArgs = (if IsZero birthDate then invalidArgs @ [Some ErrInvalidBirthDate] else invalidArgs)
      in case errors_Join invalidArgs of
           Some e \<Rightarrow> Inl (Errorf ''user.Create: invalid arguments provided, %w'' [e])
         | None \<Rightarrow>
             (case recordThat User_Apply
                     [ToEnvelope (UserEvent \<lparr>evt_ID = i, evt_RecordTime = now,
                        evt_Kind = Some (UserWasCreated firstName lastName birthDate email)\<rparr>)] zero_User of
                (user, Some e) \<Rightarrow> Inl (Errorf ''user.Create: failed to record domain event, %w'' [e])
              | (user, None) \<Rightarrow> Inr user))"

definition UpdateEmail :: "string \<Rightarrow> Time \<Rightarrow> Metadata \<Rightarrow> User \<Rightarrow> User \<times> error option" where
  "UpdateEmail email now metadata user =
     (if email = '''' then (user, Some ErrInvalidEmail)
      else
        (case recordThat User_Apply
                [\<lparr>Message = UserEvent \<lparr>evt_ID = user_id user, evt_RecordTime = now,
                    evt_Kind = Some (UserEmailWasUpdated email)\<rparr>, Metadata = metadata\<rparr>] user of
           (user', Some e) \<Rightarrow> (user', Some (Errorf ''user.UpdateEmail: failed to record domain event, %w'' [e]))
         | (user', None) \<Rightarrow> (user', None)))"

section \<open>Creating users\<close>

record User_CreateCommand =
  ucmd_FirstName :: string
  ucmd_LastName :: string
  ucmd_BirthDate :: Time
  ucmd_Email :: string

definition User_CreateCommand_Name :: "User_CreateCommand \<Rightarrow> string" where
  "User_CreateCommand_Name _ = ''CreateUser''"

definition User_CreateCommandHandler_Handle ::
  "(unit \<Rightarrow> Time) \<Rightarrow> (unit \<Rightarrow> UUID) \<Rightarrow> (User, 'st) Saver \<Rightarrow> (User_CreateCommand, 'st) Command_Handler" where
  "User_CreateCommandHandler_Handle clock uuid_generator saver ctx cmd st =
     (let newUserID = uuid_generator () in
      case User_Create newUserID (ucmd_FirstName (Message cmd)) (ucmd_LastName (Message cmd))
             (ucmd_Email (Message cmd)) (ucmd_BirthDate (Message cmd)) (clock ()) of
        Inl e \<Rightarrow> Some (Some (Errorf ''user.CreateCommandHandler: failed to create new User, %w'' [e]), st)
      | Inr user \<Rightarrow>
          (case saver ctx user st of
             (Some e, _, st') \<Rightarrow>
               Some (Some (Errorf ''user.CreateCommandHandler: failed to save new User to repository, %w'' [e]), st')
           | (None, _, st') \<Rightarrow> Some (None, st')))"

section \<open>The aggregate type\<close>

lemma User_Type_simps [simp]:
  "Apply (User_Type us) = User_Apply" "Factory (User_Type us) x = zero_User"
  "AggregateID (User_Type us) = user_id" "String (User_Type us) = us"
  by (simp_all add: User_Type_def)

lemma zero_User_simps [simp]:
  "version zero_User = 0" "recordedEvents zero_User = []"
  by (simp_all add: zero_User_def)

lemma user_fields_at_base [simp]:
  "user_id (at_base v es u) = user_id u" "user_firstName (at_base v es u) = user_firstName u"
  "user_lastName (at_base v es u) = user_lastName u" "user_birthDate (at_base v es u) = user_birthDate u"
  "user_email (at_base v es u) = user_email u"
  by (simp_all add: at_base_def)

lemma User_Apply_oblivious:
  "User_Apply m (at_base v es r) = (at_base v es (fst (User_Apply m r)), snd (User_Apply m r))"
  by (cases m) (simp_all add: at_base_def split: option.split user_kind.split)

interpretation user: aggregate_root User_Apply
  by unfold_locales (rule User_Apply_oblivious)

interpretation user_type: aggregate_type "User_Type us" for us :: "UUID \<Rightarrow> string"
  by unfold_locales (simp_all add: User_Apply_oblivious)

interpretation user_es: event_sourced InMemoryStore_Append InMemoryStore_Stream mem_log "\<lambda>_. True" "User_Type us"
  for us :: "UUID \<Rightarrow> string"
  by unfold_locales

text \<open>The two events of a user, and the users they make.\<close>

definition created :: "UUID \<Rightarrow> string \<Rightarrow> string \<Rightarrow> Time \<Rightarrow> Time \<Rightarrow> string \<Rightarrow> user_msg Envelope" where
  "created i firstName lastName birthDate now email =
     ToEnvelope (UserEvent \<lparr>evt_ID = i, evt_RecordTime = now,
       evt_Kind = Some (UserWasCreated firstName lastName birthDate email)\<rparr>)"

definition updated :: "UUID \<Rightarrow> Time \<Rightarrow> string \<Rightarrow> user_msg Envelope" where
  "updated i now email =
     ToEnvelope (UserEvent \<lparr>evt_ID = i, evt_RecordTime = now, evt_Kind = Some (UserEmailWasUpdated email)\<rparr>)"

definition new_user :: "UUID \<Rightarrow> string \<Rightarrow> string \<Rightarrow> string \<Rightarrow> Time \<Rightarrow> Time \<Rightarrow> User" where
  "new_user i firstName lastName email birthDate now =
     at_base 1 [created i firstName lastName birthDate now email]
       (zero_User\<lparr>user_id := i, user_firstName := firstName, user_lastName := lastName,
          user_birthDate := birthDate, user_email := email\<rparr>)"

definition with_email :: "string \<Rightarrow> Time \<Rightarrow> Metadata \<Rightarrow> User \<Rightarrow> User" where
  "with_email email now metadata user =
     at_base (version user + 1) (recordedEvents user @ [(updated (user_id user) now email)\<lparr>Metadata := metadata\<rparr>])
       (user\<lparr>user_email := email\<rparr>)"

lemma user_simps [simp]:
  "user_id (new_user i f l e b now) = i" "version (new_user i f l e b now) = 1"
  "recordedEvents (new_user i f l e b now) = [created i f l b now e]"
  "user_id (with_email e now m u) = user_id u" "version (with_email e now m u) = version u + 1"
  "recordedEvents (with_email e now m u) = recordedEvents u @ [(updated (user_id u) now e)\<lparr>Metadata := m\<rparr>]"
  by (simp_all add: new_user_def with_email_def)

lemma User_Create_ok:
  "firstName \<noteq> '''' \<Longrightarrow> lastName \<noteq> '''' \<Longrightarrow> email \<noteq> '''' \<Longrightarrow> \<not> IsZero birthDate \<Longrightarrow>
   User_Create i firstName lastName email birthDate now = Inr (new_user i firstName lastName email birthDate now)"
  by (simp add: User_Create_def errors_Join_def List.map_filter_def recordThat.simps(2) go_defs base_update_at_base
      new_user_def created_def)

lemma UpdateEmail_eq:
  "UpdateEmail email now metadata user =
     (if email = '''' then (user, Some ErrInvalidEmail) else (with_email email now metadata user, None))"
  by (simp add: UpdateEmail_def recordThat.simps(2) base_update_at_base with_email_def updated_def go_defs)

lemma user_recorded:
  "recordThat User_Apply [created i f l b now e] zero_User = (new_user i f l e b now, None)"
  "recordThat User_Apply [(updated (user_id u) now e)\<lparr>Metadata := m\<rparr>] u = (with_email e now m u, None)"
  by (simp_all add: recordThat.simps(2) created_def updated_def go_defs base_update_at_base new_user_def with_email_def)

text \<open>C22: \<open>Create\<close> collects all invalid arguments: the error it returns is, for \<open>errors.Is\<close>, each of the
  sentinels whose argument is empty and none of the others. With valid arguments it returns a user
  at version 1 with the given data and the creation event recorded.\<close>

theorem User_Create_reports_all:
  "case User_Create i firstName lastName email birthDate now of
     Inl e \<Rightarrow>
       (firstName = '''' \<or> lastName = '''' \<or> email = '''' \<or> IsZero birthDate) \<and>
       (errors_Is e ErrInvalidFirstName \<longleftrightarrow> firstName = '''') \<and>
       (errors_Is e ErrInvalidLastName \<longleftrightarrow> lastName = '''') \<and>
       (errors_Is e ErrInvalidEmail \<longleftrightarrow> email = '''') \<and>
       (errors_Is e ErrInvalidBirthDate \<longleftrightarrow> IsZero birthDate)
   | Inr user \<Rightarrow>
       firstName \<noteq> '''' \<and> lastName \<noteq> '''' \<and> email \<noteq> '''' \<and> \<not> IsZero birthDate \<and>
       user_id user = i \<and> user_firstName user = firstName \<and> user_lastName user = lastName \<and>
       user_email user = email \<and> user_birthDate user = birthDate \<and> version user = 1 \<and>
       length (recordedEvents user) = 1"
proof (cases "firstName = '''' \<or> lastName = '''' \<or> email = '''' \<or> IsZero birthDate")
  case True
  then show ?thesis
    by (auto simp: User_Create_def errors_Join_def List.map_filter_def user_error_defs)
next
  case False
  then show ?thesis by (simp add: User_Create_ok new_user_def)
qed

end
