(* ===== verification/User_By_Email.thy ===== *)
theory User_By_Email
  imports User_Aggregate
begin

text \<open>
  The read model \<open>internal/user/user_by_email.go\<close>: a processor of user events that answers queries by
  email, what its operations do while they hold the handler's lock.
\<close>

record View =
  view_ID :: UUID
  view_Email :: string
  view_FirstName :: string
  view_LastName :: string
  view_BirthDate :: Time
  view_Version :: Version

definition ErrNotFound :: error where
  "ErrNotFound = Sentinel ''user: not found''"

type_synonym GetByEmail = string

definition GetByEmail_Name :: "GetByEmail \<Rightarrow> string" where
  "GetByEmail_Name _ = ''GetUserByEmail''"

record GetByEmailHandler =
  view_data :: "string \<rightharpoonup> View"
  idToEmail :: "UUID \<rightharpoonup> string"

definition NewGetByEmailHandler :: GetByEmailHandler where
  "NewGetByEmailHandler = \<lparr>view_data = Map.empty, idToEmail = Map.empty\<rparr>"

definition GetByEmailHandler_Handle :: "(GetByEmail, View, GetByEmailHandler) Query_Handler" where
  "GetByEmailHandler_Handle ctx q handler =
     (case view_data handler (Message q) of
        None \<Rightarrow>
          Some (Inl (Errorf ''user.GetByEmailHandler: failed to get User by email, %w'' [ErrNotFound]), handler)
      | Some user \<Rightarrow> Some (Inr user, handler))"

text \<open>The two \<open>errors.New\<close> inside \<open>Process\<close> are fresh values nobody can compare with.\<close>

definition GetByEmailHandler_Process :: "(user_msg, GetByEmailHandler) Processor" where
  "GetByEmailHandler_Process evt handler =
     (case Message (Envelope evt) of
        ForeignMessage name \<Rightarrow>
          (Some (Errorf ''user.GetByEmailHandler: unexpected event type, %T'' []), handler)
      | UserEvent userEvent \<Rightarrow>
          (case evt_Kind userEvent of
             Some (UserWasCreated firstName lastName birthDate email) \<Rightarrow>
               (None, handler\<lparr>idToEmail := (idToEmail handler)(evt_ID userEvent \<mapsto> email),
                  view_data := (view_data handler)(email \<mapsto>
                    \<lparr>view_ID = evt_ID userEvent, view_Email = email, view_FirstName = firstName,
                     view_LastName = lastName, view_BirthDate = birthDate, view_Version = Version evt\<rparr>)\<rparr>)
           | Some (UserEmailWasUpdated email) \<Rightarrow>
               (case idToEmail handler (evt_ID userEvent) of
                  None \<Rightarrow>
                    (Some (Errorf ''user.GetByEmailHandler: expected id to have been registered, none found'' []), handler)
                | Some previousEmail \<Rightarrow>
                    (case view_data handler previousEmail of
                       None \<Rightarrow>
                         (Some (Errorf ''user.GetByEmailHandler: expected view to be registered, none found'' []), handler)
                     | Some view \<Rightarrow>
                         if Version evt \<le> view_Version view then (None, handler)
                         else
                           (let view = view\<lparr>view_Email := email\<rparr>
                            in (None, handler\<lparr>idToEmail := (idToEmail handler)(evt_ID userEvent \<mapsto> view_Email view),
                                  view_data := (view_data handler)(view_Email view \<mapsto> view)\<rparr>))))
           | None \<Rightarrow> (Some (Errorf ''user.GetByEmailHandler: unexpected User event kind, %T'' []), handler)))"

text \<open>As a \<open>ProcessorHandler\<close> of the query scenario, which ignores the event store it is given.\<close>

definition GetByEmail_ProcessorHandler ::
  "(user_msg, GetByEmail, View, user_msg InMemoryStore \<times> GetByEmailHandler) ProcessorHandler" where
  "GetByEmail_ProcessorHandler =
     \<lparr>Handle = (\<lambda>ctx q (store, h). map_option (\<lambda>(r, h'). (r, (store, h'))) (GetByEmailHandler_Handle ctx q h)),
      Process = (\<lambda>evt (store, h). let (e, h') = GetByEmailHandler_Process evt h in (e, (store, h')))\<rparr>"

section \<open>The life of one user\<close>

text \<open>Processing a list of persisted events, stopping at an error.\<close>

fun process_all :: "user_msg Persisted list \<Rightarrow> GetByEmailHandler \<Rightarrow> error option \<times> GetByEmailHandler" where
  "process_all [] h = (None, h)"
| "process_all (evt # evts) h =
     (case GetByEmailHandler_Process evt h of (Some e, h') \<Rightarrow> (Some e, h') | (None, h') \<Rightarrow> process_all evts h')"

lemma process_created:
  "GetByEmailHandler_Process \<lparr>StreamID = sid, Version = v, Envelope = created i f l b now email\<rparr> h =
     (None, \<lparr>view_data = (view_data h)(email \<mapsto> \<lparr>view_ID = i, view_Email = email, view_FirstName = f,
               view_LastName = l, view_BirthDate = b, view_Version = v\<rparr>),
             idToEmail = (idToEmail h)(i \<mapsto> email)\<rparr>)"
  by (simp add: GetByEmailHandler_Process_def created_def go_defs)

lemma process_updated:
  assumes "idToEmail h i = Some old" and "view_data h old = Some view" and "view_Version view < v"
  shows "GetByEmailHandler_Process \<lparr>StreamID = sid, Version = v, Envelope = updated i now email\<rparr> h =
     (None, \<lparr>view_data = (view_data h)(email \<mapsto> view\<lparr>view_Email := email\<rparr>),
             idToEmail = (idToEmail h)(i \<mapsto> email)\<rparr>)"
  using assms by (simp add: GetByEmailHandler_Process_def updated_def go_defs)

text \<open>
  Every email the user ever had keeps its entry, and all entries keep the version of the creation.
\<close>

lemma process_updates:
  assumes "idToEmail h i = Some old" and "view_data h old = Some view" and "view_Version view \<le> v"
    and "unat v + length emails < 2 ^ 32"
  shows "\<exists>h'. process_all (persisted_from sid v (map (updated i now) emails)) h = (None, h') \<and>
     idToEmail h' i = Some (last (old # emails)) \<and>
     (\<forall>email. view_data h' email =
        (if email \<in> set emails then Some (view\<lparr>view_Email := email\<rparr>) else view_data h email))"
  using assms
proof (induction emails arbitrary: h old view v)
  case Nil
  then show ?case by simp
next
  case (Cons e emails)
  have "unat (v + 1) = unat v + 1" using Cons.prems(4) by (simp add: unat_word_ariths)
  then have less: "v < v + 1" and bound: "unat (v + 1) + length emails < 2 ^ 32"
    using Cons.prems(4) by (simp_all add: word_less_nat_alt)
  have "view_Version view < v + 1" using Cons.prems(3) less by (rule le_less_trans)
  note step = process_updated [OF Cons.prems(1,2) this, of sid now e]
  let ?h = "\<lparr>view_data = (view_data h)(e \<mapsto> view\<lparr>view_Email := e\<rparr>), idToEmail = (idToEmail h)(i \<mapsto> e)\<rparr>"
  have "view_Version (view\<lparr>view_Email := e\<rparr>) \<le> v + 1"
    using \<open>view_Version view < v + 1\<close> by simp
  from Cons.IH [of ?h e "view\<lparr>view_Email := e\<rparr>" "v + 1", OF _ _ this bound] step show ?case
    by (auto simp: fun_upd_apply)
qed

text \<open>C23: After a user's stream, its creation and any number of email updates, has been processed in
  order by a fresh handler, a query finds the user under the current email with the data it was
  created with; and it still finds a view under every earlier email, each with the version of the
  creation. Any other email is not found.\<close>

theorem GetByEmail_keeps_every_email:
  assumes "length emails + 1 < 2 ^ 32"
  shows "\<exists>h. process_all (persisted_from sid 0 (created i f l b now email # map (updated i now) emails))
       NewGetByEmailHandler = (None, h) \<and>
     idToEmail h i = Some (last (email # emails)) \<and>
     (\<forall>q. GetByEmailHandler_Handle ctx (Query_ToEnvelope q) h =
        Some (if q \<in> set (email # emails)
              then Inr \<lparr>view_ID = i, view_Email = q, view_FirstName = f, view_LastName = l,
                        view_BirthDate = b, view_Version = 1\<rparr>
              else Inl (Errorf ''user.GetByEmailHandler: failed to get User by email, %w'' [ErrNotFound]), h))"
proof -
  let ?view = "\<lparr>view_ID = i, view_Email = email, view_FirstName = f, view_LastName = l, view_BirthDate = b,
      view_Version = 1\<rparr>"
  let ?h = "\<lparr>view_data = [email \<mapsto> ?view], idToEmail = [i \<mapsto> email]\<rparr>"
  have "process_all (persisted_from sid 0 (created i f l b now email # map (updated i now) emails)) NewGetByEmailHandler =
      process_all (persisted_from sid 1 (map (updated i now) emails)) ?h"
    by (simp add: process_created NewGetByEmailHandler_def)
  with process_updates [of ?h i email ?view 1 emails sid now] assms obtain h where
    run: "process_all (persisted_from sid 0 (created i f l b now email # map (updated i now) emails)) NewGetByEmailHandler =
        (None, h)" and "idToEmail h i = Some (last (email # emails))"
    and "\<forall>q. view_data h q = (if q \<in> set emails then Some (?view\<lparr>view_Email := q\<rparr>) else view_data ?h q)"
    by auto
  moreover from this(3) have "view_data h q = (if q \<in> set (email # emails) then Some (?view\<lparr>view_Email := q\<rparr>) else None)" for q
    by simp
  ultimately show ?thesis
    by (intro exI [of _ h]) (simp add: GetByEmailHandler_Handle_def Query_ToEnvelope_def)
qed

theorem GetByEmail_keeps_every_email_witness:
  "\<exists>h. process_all (persisted_from ''u'' 0 (created 1 ''Jo'' ''Doe'' zero_Time zero_Time ''old'' #
         map (updated 1 zero_Time) [''new''])) NewGetByEmailHandler = (None, h) \<and>
     GetByEmailHandler_Handle Background (Query_ToEnvelope ''old'') h =
       Some (Inr \<lparr>view_ID = 1, view_Email = ''old'', view_FirstName = ''Jo'', view_LastName = ''Doe'',
                  view_BirthDate = zero_Time, view_Version = 1\<rparr>, h)"
  using GetByEmail_keeps_every_email [of "[''new'']" "''u''" 1 "''Jo''" "''Doe''" zero_Time zero_Time "''old''" Background]
  by auto

text \<open>C26: Processing an email update once more after a later one puts the user back under the older
  email: the version kept in the view never moves past the creation, so the check against
  re-processing lets the old event through.\<close>

theorem GetByEmail_redelivery_regresses:
  assumes "process_all (persisted_from sid 0 [created i f l b now email, updated i now email2, updated i now email3])
       NewGetByEmailHandler = (None, h)"
  shows "idToEmail h i = Some email3 \<and>
     (\<exists>h'. GetByEmailHandler_Process \<lparr>StreamID = sid, Version = 2, Envelope = updated i now email2\<rparr> h = (None, h') \<and>
           idToEmail h' i = Some email2)"
proof -
  let ?view = "\<lparr>view_ID = i, view_Email = email, view_FirstName = f, view_LastName = l, view_BirthDate = b,
      view_Version = 1\<rparr>"
  let ?h = "\<lparr>view_data = [email \<mapsto> ?view], idToEmail = [i \<mapsto> email]\<rparr>"
  have "process_all (persisted_from sid 0 (created i f l b now email # map (updated i now) [email2, email3])) NewGetByEmailHandler =
      process_all (persisted_from sid 1 (map (updated i now) [email2, email3])) ?h"
    by (simp add: process_created NewGetByEmailHandler_def)
  with process_updates [of ?h i email ?view 1 "[email2, email3]" sid now] assms
  have h: "idToEmail h i = Some email3" "view_data h email3 = Some (?view\<lparr>view_Email := email3\<rparr>)"
    by auto
  from process_updated [OF h, of 2 sid now email2] h(1) show ?thesis by auto
qed

theorem GetByEmail_redelivery_regresses_witness:
  "\<exists>h h'. process_all (persisted_from ''u'' 0 [created 1 ''Jo'' ''Doe'' zero_Time zero_Time ''a'',
         updated 1 zero_Time ''b'', updated 1 zero_Time ''c'']) NewGetByEmailHandler = (None, h) \<and>
     idToEmail h 1 = Some ''c'' \<and>
     GetByEmailHandler_Process \<lparr>StreamID = ''u'', Version = 2, Envelope = updated 1 zero_Time ''b''\<rparr> h = (None, h') \<and>
     idToEmail h' 1 = Some ''b''"
proof -
  obtain h where h: "process_all (persisted_from ''u'' 0 [created 1 ''Jo'' ''Doe'' zero_Time zero_Time ''a'',
         updated 1 zero_Time ''b'', updated 1 zero_Time ''c'']) NewGetByEmailHandler = (None, h)"
    by (simp add: process_created process_updated NewGetByEmailHandler_def)
  from GetByEmail_redelivery_regresses [OF h] h show ?thesis by blast
qed

end
