(* ===== verification/Go_Sync.thy ===== *)
theory Go_Sync
  imports Main
begin

text \<open>
  What the repository uses of package \<open>sync\<close>: the readers-writer mutex, as the steps goroutines take on it.
\<close>

text \<open>
  \<open>Lock\<close> takes the mutex among writers and announces itself (\<open>holder\<close>), which keeps new readers out, and
  then waits for the readers inside to leave (\<open>active\<close>). \<open>RLock\<close> waits while a writer is announced. A
  goroutine is in \<open>readers\<close> as often as it holds a read lock.
\<close>

type_synonym tid = nat

record RWMutex =
  holder :: "tid option"
  active :: bool
  readers :: "tid list"

definition free_mutex :: RWMutex where
  "free_mutex = \<lparr>holder = None, active = False, readers = []\<rparr>"

definition announce :: "tid \<Rightarrow> RWMutex \<Rightarrow> RWMutex" where
  "announce t mx = mx\<lparr>holder := Some t\<rparr>"

definition acquire :: "RWMutex \<Rightarrow> RWMutex" where
  "acquire mx = mx\<lparr>active := True\<rparr>"

definition Unlock :: "RWMutex \<Rightarrow> RWMutex" where
  "Unlock mx = mx\<lparr>holder := None, active := False\<rparr>"

definition RLock :: "tid \<Rightarrow> RWMutex \<Rightarrow> RWMutex" where
  "RLock t mx = mx\<lparr>readers := t # readers mx\<rparr>"

definition RUnlock :: "tid \<Rightarrow> RWMutex \<Rightarrow> RWMutex" where
  "RUnlock t mx = mx\<lparr>readers := remove1 t (readers mx)\<rparr>"

lemmas mutex_defs = announce_def acquire_def Unlock_def RLock_def RUnlock_def

end
