(* ===== verification/Locked_Object.thy ===== *)
theory Locked_Object
  imports Go_Sync
begin

text \<open>
  Objects whose operations run under a \<open>sync.RWMutex\<close>, as \<open>TrackingStore\<close> and \<open>GetByEmailHandler\<close> do it: an operation takes the write
  lock or the read lock first, runs its body in single steps that other goroutines' steps interleave with,
  and releases the lock when it returns. The object's operations are parameters:
  \<^item> \<open>writer\<close>: the operation takes the write lock;
  \<^item> \<open>enter\<close>: the program point and local variables it starts its body with;
  \<^item> \<open>micro\<close>: one step of a body, which goes on or gives the result, on the object's state.
\<close>

section \<open>Calls and steps\<close>

text \<open>
  \<open>b\<close> is the length of the history when the operation was called, \<open>p\<close> its position in the history once its body is through; as the history and
  the returned calls they only serve the statements.
\<close>

datatype ('op, 'l, 'r) locked_call =
    Called nat 'op
  | Waiting nat 'op
  | Inside nat 'op 'l
  | Done nat nat 'op 'r

record ('op, 'r) locked_return =
  lr_tid :: tid
  lr_op :: 'op
  lr_called :: nat
  lr_effect :: nat
  lr_returned :: nat
  lr_result :: 'r

record ('op, 'l, 'st, 'r) locked =
  lk_mutex :: RWMutex
  lk_state :: 'st
  lk_calls :: "tid \<Rightarrow> ('op, 'l, 'r) locked_call option"
  lk_history :: "(tid \<times> 'op \<times> 'r) list"
  lk_finished :: "('op, 'r) locked_return list"

definition locked_start :: "'st \<Rightarrow> ('op, 'l, 'st, 'r) locked" where
  "locked_start st0 = \<lparr>lk_mutex = free_mutex, lk_state = st0, lk_calls = (\<lambda>_. None), lk_history = [], lk_finished = []\<rparr>"

abbreviation set_call ::
  "tid \<Rightarrow> ('op, 'l, 'r) locked_call option \<Rightarrow> ('op, 'l, 'st, 'r) locked \<Rightarrow> ('op, 'l, 'st, 'r) locked" where
  "set_call t c s \<equiv> s\<lparr>lk_calls := (lk_calls s)(t := c)\<rparr>"

inductive locked_step ::
  "('op \<Rightarrow> bool) \<Rightarrow> ('op \<Rightarrow> 'l) \<Rightarrow> ('l \<Rightarrow> 'st \<Rightarrow> ('l + 'r) \<times> 'st) \<Rightarrow>
   ('op, 'l, 'st, 'r) locked \<Rightarrow> ('op, 'l, 'st, 'r) locked \<Rightarrow> bool"
  for writer :: "'op \<Rightarrow> bool" and enter :: "'op \<Rightarrow> 'l" and micro :: "'l \<Rightarrow> 'st \<Rightarrow> ('l + 'r) \<times> 'st" where
  call: "lk_calls s t = None \<Longrightarrow>
     locked_step writer enter micro s (set_call t (Some (Called (length (lk_history s)) oper)) s)"
| announce: "lk_calls s t = Some (Called b oper) \<Longrightarrow> writer oper \<Longrightarrow> holder (lk_mutex s) = None \<Longrightarrow>
     locked_step writer enter micro s (set_call t (Some (Waiting b oper)) (s\<lparr>lk_mutex := announce t (lk_mutex s)\<rparr>))"
| acquire: "lk_calls s t = Some (Waiting b oper) \<Longrightarrow> readers (lk_mutex s) = [] \<Longrightarrow>
     locked_step writer enter micro s (set_call t (Some (Inside b oper (enter oper))) (s\<lparr>lk_mutex := acquire (lk_mutex s)\<rparr>))"
| rlock: "lk_calls s t = Some (Called b oper) \<Longrightarrow> \<not> writer oper \<Longrightarrow> holder (lk_mutex s) = None \<Longrightarrow>
     locked_step writer enter micro s (set_call t (Some (Inside b oper (enter oper))) (s\<lparr>lk_mutex := RLock t (lk_mutex s)\<rparr>))"
| go_on: "lk_calls s t = Some (Inside b oper l) \<Longrightarrow> micro l (lk_state s) = (Inl l', st') \<Longrightarrow>
     locked_step writer enter micro s (set_call t (Some (Inside b oper l')) (s\<lparr>lk_state := st'\<rparr>))"
| complete: "lk_calls s t = Some (Inside b oper l) \<Longrightarrow> micro l (lk_state s) = (Inr r, st') \<Longrightarrow>
     locked_step writer enter micro s (set_call t (Some (Done b (length (lk_history s)) oper r))
       (s\<lparr>lk_state := st', lk_history := lk_history s @ [(t, oper, r)]\<rparr>))"
| ret: "lk_calls s t = Some (Done b p oper r) \<Longrightarrow>
     locked_step writer enter micro s (set_call t None
       (s\<lparr>lk_mutex := (if writer oper then Unlock (lk_mutex s) else RUnlock t (lk_mutex s)),
          lk_finished := lk_finished s @ [\<lparr>lr_tid = t, lr_op = oper, lr_called = b, lr_effect = p,
                                          lr_returned = length (lk_history s), lr_result = r\<rparr>]\<rparr>))"

inductive locked_reachable ::
  "('op \<Rightarrow> bool) \<Rightarrow> ('op \<Rightarrow> 'l) \<Rightarrow> ('l \<Rightarrow> 'st \<Rightarrow> ('l + 'r) \<times> 'st) \<Rightarrow> 'st \<Rightarrow> ('op, 'l, 'st, 'r) locked \<Rightarrow> bool"
  for writer :: "'op \<Rightarrow> bool" and enter :: "'op \<Rightarrow> 'l" and micro :: "'l \<Rightarrow> 'st \<Rightarrow> ('l + 'r) \<times> 'st" and st0 :: 'st where
  start: "locked_reachable writer enter micro st0 (locked_start st0)"
| next_state: "locked_reachable writer enter micro st0 s \<Longrightarrow> locked_step writer enter micro s s' \<Longrightarrow>
     locked_reachable writer enter micro st0 s'"

text \<open>A body run to its end without interference.\<close>

inductive runs_body :: "('l \<Rightarrow> 'st \<Rightarrow> ('l + 'r) \<times> 'st) \<Rightarrow> 'l \<Rightarrow> 'st \<Rightarrow> 'r \<Rightarrow> 'st \<Rightarrow> bool"
  for micro :: "'l \<Rightarrow> 'st \<Rightarrow> ('l + 'r) \<times> 'st" where
  last_step: "micro l st = (Inr r, st') \<Longrightarrow> runs_body micro l st r st'"
| more_steps: "micro l st = (Inl l1, st1) \<Longrightarrow> runs_body micro l1 st1 r st' \<Longrightarrow> runs_body micro l st r st'"

lemma runs_body_Inr: "runs_body micro l st r st' \<Longrightarrow> micro l st = (Inr x, st1) \<Longrightarrow> x = r \<and> st1 = st'"
  by (cases rule: runs_body.cases) auto

lemma runs_body_Inl: "runs_body micro l st r st' \<Longrightarrow> micro l st = (Inl l1, st1) \<Longrightarrow> runs_body micro l1 st1 r st'"
  by (cases rule: runs_body.cases) auto

lemma runs_body_iff:
  "runs_body micro l st r st' \<longleftrightarrow>
   (case micro l st of (Inl l1, st1) \<Rightarrow> runs_body micro l1 st1 r st' | (Inr r1, st1) \<Rightarrow> r1 = r \<and> st1 = st')"
  by (auto dest: runs_body_Inr runs_body_Inl intro: runs_body.intros split: prod.splits sum.splits)

text \<open>A history is legal when the operations, one after the other, give the recorded results.\<close>

fun replay_ops :: "('op \<Rightarrow> 'st \<Rightarrow> 'r \<times> 'st) \<Rightarrow> (tid \<times> 'op \<times> 'r) list \<Rightarrow> 'st \<Rightarrow> 'st option" where
  "replay_ops seq [] st = Some st"
| "replay_ops seq ((t, oper, r) # h) st = (let (r', st') = seq oper st in if r' = r then replay_ops seq h st' else None)"

lemma replay_ops_append:
  "replay_ops seq (h @ [x]) st = (case replay_ops seq h st of None \<Rightarrow> None | Some st' \<Rightarrow> replay_ops seq [x] st')"
  by (induction seq h st rule: replay_ops.induct) (auto split: prod.splits)

section \<open>Schedules\<close>

text \<open>The same steps as a function: at each turn the schedule names a goroutine, which calls an operation or goes on.\<close>

fun locked_turn ::
  "('op \<Rightarrow> bool) \<Rightarrow> ('op \<Rightarrow> 'l) \<Rightarrow> ('l \<Rightarrow> 'st \<Rightarrow> ('l + 'r) \<times> 'st) \<Rightarrow> tid \<times> 'op option \<Rightarrow>
   ('op, 'l, 'st, 'r) locked \<Rightarrow> ('op, 'l, 'st, 'r) locked option" where
  "locked_turn writer enter micro (t, Some oper) s =
     (if lk_calls s t = None then Some (set_call t (Some (Called (length (lk_history s)) oper)) s) else None)"
| "locked_turn writer enter micro (t, None) s =
     (case lk_calls s t of
        None \<Rightarrow> None
      | Some (Called b oper) \<Rightarrow>
          (if holder (lk_mutex s) \<noteq> None then None
           else if writer oper then Some (set_call t (Some (Waiting b oper)) (s\<lparr>lk_mutex := announce t (lk_mutex s)\<rparr>))
           else Some (set_call t (Some (Inside b oper (enter oper))) (s\<lparr>lk_mutex := RLock t (lk_mutex s)\<rparr>)))
      | Some (Waiting b oper) \<Rightarrow>
          (if readers (lk_mutex s) = []
           then Some (set_call t (Some (Inside b oper (enter oper))) (s\<lparr>lk_mutex := acquire (lk_mutex s)\<rparr>)) else None)
      | Some (Inside b oper l) \<Rightarrow>
          (case micro l (lk_state s) of
             (Inl l', st') \<Rightarrow> Some (set_call t (Some (Inside b oper l')) (s\<lparr>lk_state := st'\<rparr>))
           | (Inr r, st') \<Rightarrow> Some (set_call t (Some (Done b (length (lk_history s)) oper r))
               (s\<lparr>lk_state := st', lk_history := lk_history s @ [(t, oper, r)]\<rparr>)))
      | Some (Done b p oper r) \<Rightarrow> Some (set_call t None
          (s\<lparr>lk_mutex := (if writer oper then Unlock (lk_mutex s) else RUnlock t (lk_mutex s)),
             lk_finished := lk_finished s @ [\<lparr>lr_tid = t, lr_op = oper, lr_called = b, lr_effect = p,
                                             lr_returned = length (lk_history s), lr_result = r\<rparr>]\<rparr>)))"

fun locked_turns ::
  "('op \<Rightarrow> bool) \<Rightarrow> ('op \<Rightarrow> 'l) \<Rightarrow> ('l \<Rightarrow> 'st \<Rightarrow> ('l + 'r) \<times> 'st) \<Rightarrow> (tid \<times> 'op option) list \<Rightarrow>
   ('op, 'l, 'st, 'r) locked \<Rightarrow> ('op, 'l, 'st, 'r) locked option" where
  "locked_turns writer enter micro [] s = Some s"
| "locked_turns writer enter micro (x # sched) s =
     Option.bind (locked_turn writer enter micro x s) (locked_turns writer enter micro sched)"

lemma locked_turn_step: "locked_turn writer enter micro x s = Some s' \<Longrightarrow> locked_step writer enter micro s s'"
proof (induction writer enter micro x s rule: locked_turn.induct)
  case (1 writer enter micro t oper s)
  then show ?case by (auto split: if_splits intro: locked_step.call)
next
  case (2 writer enter micro t s)
  show ?case
  proof (cases "\<exists>b p oper r. lk_calls s t = Some (Done b p oper r)")
    case True
    then obtain b p oper r where d: "lk_calls s t = Some (Done b p oper r)" by blast
    with 2 show ?thesis using locked_step.ret [OF d, of writer enter micro] by simp
  next
    case False
    with 2 show ?thesis
      by (auto split: option.splits locked_call.splits if_splits prod.splits sum.splits intro: locked_step.intros [simplified])
  qed
qed

lemma locked_turns_reachable:
  "locked_reachable writer enter micro st0 s \<Longrightarrow> locked_turns writer enter micro sched s = Some s' \<Longrightarrow>
   locked_reachable writer enter micro st0 s'"
  by (induction sched arbitrary: s) (auto simp: bind_eq_Some_conv dest: locked_turn_step intro: locked_reachable.next_state)

section \<open>Who is inside\<close>

fun wants_write :: "('op \<Rightarrow> bool) \<Rightarrow> ('op, 'l, 'r) locked_call option \<Rightarrow> bool" where
  "wants_write writer (Some (Waiting b oper)) = True"
| "wants_write writer (Some (Inside b oper l)) = writer oper"
| "wants_write writer (Some (Done b p oper r)) = writer oper"
| "wants_write writer _ = False"

fun owns :: "('op \<Rightarrow> bool) \<Rightarrow> ('op, 'l, 'r) locked_call option \<Rightarrow> bool" where
  "owns writer (Some (Inside b oper l)) = writer oper"
| "owns writer (Some (Done b p oper r)) = writer oper"
| "owns writer _ = False"

fun reads :: "('op \<Rightarrow> bool) \<Rightarrow> ('op, 'l, 'r) locked_call option \<Rightarrow> bool" where
  "reads writer (Some (Inside b oper l)) = (\<not> writer oper)"
| "reads writer (Some (Done b p oper r)) = (\<not> writer oper)"
| "reads writer _ = False"

definition locked_inv :: "('op \<Rightarrow> bool) \<Rightarrow> ('op, 'l, 'st, 'r) locked \<Rightarrow> bool" where
  "locked_inv writer s \<longleftrightarrow>
     (\<forall>t. holder (lk_mutex s) = Some t \<longleftrightarrow> wants_write writer (lk_calls s t)) \<and>
     (\<forall>t. active (lk_mutex s) \<and> holder (lk_mutex s) = Some t \<longleftrightarrow> owns writer (lk_calls s t)) \<and>
     (holder (lk_mutex s) = None \<longrightarrow> \<not> active (lk_mutex s)) \<and>
     (\<forall>t. count_list (readers (lk_mutex s)) t = (if reads writer (lk_calls s t) then 1 else 0)) \<and>
     (active (lk_mutex s) \<longrightarrow> readers (lk_mutex s) = []) \<and>
     (\<forall>t b oper. lk_calls s t = Some (Waiting b oper) \<longrightarrow> writer oper)"

lemma owns_wants: "owns writer c \<Longrightarrow> wants_write writer c"
  by (cases "(writer, c)" rule: owns.cases) auto

lemma owns_InsideI: "c = Some (Inside b oper l) \<Longrightarrow> writer oper \<Longrightarrow> owns writer c"
  by simp

lemma owns_excludes:
  assumes "locked_inv writer s" and "owns writer (lk_calls s t)" and "u \<noteq> t"
  shows "\<not> owns writer (lk_calls s u)" "\<not> reads writer (lk_calls s u)" "\<not> wants_write writer (lk_calls s u)"
proof -
  from assms(1,2) have h: "active (lk_mutex s)" "holder (lk_mutex s) = Some t" "readers (lk_mutex s) = []"
    by (auto simp: locked_inv_def)
  with assms(1,3) show "\<not> owns writer (lk_calls s u)" "\<not> wants_write writer (lk_calls s u)"
    unfolding locked_inv_def by (metis option.inject)+
  from assms(1) h(3) show "\<not> reads writer (lk_calls s u)"
    by (auto simp: locked_inv_def split: if_splits dest!: spec [of _ u])
qed

lemma locked_inv_same:
  assumes "locked_inv writer s" and "lk_mutex s' = lk_mutex s" and "lk_calls s' = (lk_calls s)(t := c)"
    and "wants_write writer c = wants_write writer (lk_calls s t)" "owns writer c = owns writer (lk_calls s t)"
    and "reads writer c = reads writer (lk_calls s t)" "\<And>b oper. c \<noteq> Some (Waiting b oper)"
  shows "locked_inv writer s'"
proof -
  have same: "wants_write writer (lk_calls s' u) = wants_write writer (lk_calls s u)"
    "owns writer (lk_calls s' u) = owns writer (lk_calls s u)" "reads writer (lk_calls s' u) = reads writer (lk_calls s u)" for u
    using assms(3-6) by auto
  have "\<forall>u b oper. lk_calls s' u = Some (Waiting b oper) \<longrightarrow> writer oper"
    using assms(1,3,7) by (auto simp: locked_inv_def)
  with assms(1) show ?thesis unfolding locked_inv_def assms(2) same by blast
qed

lemma locked_step_inv: "locked_step writer enter micro s s' \<Longrightarrow> locked_inv writer s \<Longrightarrow> locked_inv writer s'"
proof (induction rule: locked_step.induct)
  case (announce s t b oper)
  then show ?case by (auto simp: locked_inv_def mutex_defs)
next
  case (acquire s t b oper)
  then have "writer oper" by (auto simp: locked_inv_def)
  moreover have "holder (lk_mutex s) = Some t" using acquire by (auto simp: locked_inv_def)
  ultimately show ?case using acquire by (auto simp: locked_inv_def mutex_defs split: if_splits)
next
  case (rlock s t b oper)
  then show ?case by (auto simp: locked_inv_def mutex_defs dest: spec [of _ t])
next
  case (ret s t b p oper r)
  show ?case
  proof (cases "writer oper")
    case True
    with ret have own: "owns writer (lk_calls s t)" by simp
    note owns_excludes [OF ret.prems own]
    moreover have "readers (lk_mutex s) = []" using ret.prems own by (auto simp: locked_inv_def)
    ultimately show ?thesis using ret True by (auto simp: locked_inv_def mutex_defs)
  next
    case False
    with ret have "count_list (readers (lk_mutex s)) t = 1" by (simp add: locked_inv_def)
    with ret False show ?thesis by (auto simp: locked_inv_def mutex_defs)
  qed
qed (auto elim!: locked_inv_same)

lemma locked_reachable_inv: "locked_reachable writer enter micro st0 s \<Longrightarrow> locked_inv writer s"
proof (induction rule: locked_reachable.induct)
  case start
  show ?case by (simp add: locked_inv_def locked_start_def free_mutex_def)
qed (rule locked_step_inv)

section \<open>Linearizability\<close>

text \<open>
  The sequential specification \<open>seq\<close> is what the bodies do without interference; a body under the read lock changes nothing
  (\<open>pure\<close> holds of its program points).
\<close>

locale locked_object =
  fixes writer :: "'op \<Rightarrow> bool" and enter :: "'op \<Rightarrow> 'l" and micro :: "'l \<Rightarrow> 'st \<Rightarrow> ('l + 'r) \<times> 'st"
    and seq :: "'op \<Rightarrow> 'st \<Rightarrow> 'r \<times> 'st" and pure :: "'l \<Rightarrow> bool"
  assumes seq_runs: "runs_body micro (enter oper) st (fst (seq oper st)) (snd (seq oper st))"
    and enter_pure: "\<not> writer oper \<Longrightarrow> pure (enter oper)"
    and micro_pure: "pure l \<Longrightarrow> micro l st = (x, st') \<Longrightarrow> st' = st \<and> (case x of Inl l' \<Rightarrow> pure l' | Inr r \<Rightarrow> True)"
begin

abbreviation object_step :: "('op, 'l, 'st, 'r) locked \<Rightarrow> ('op, 'l, 'st, 'r) locked \<Rightarrow> bool" where
  "object_step \<equiv> locked_step writer enter micro"

abbreviation object_reachable :: "'st \<Rightarrow> ('op, 'l, 'st, 'r) locked \<Rightarrow> bool" where
  "object_reachable \<equiv> locked_reachable writer enter micro"

lemma pure_runs: "runs_body micro l st r st' \<Longrightarrow> pure l \<Longrightarrow> st' = st"
  by (induction rule: runs_body.induct) (auto dest: micro_pure)

text \<open>What a call in progress owes to the history \<open>h\<close>, which leads to the state \<open>stx\<close>; \<open>st\<close> is the state at hand.\<close>

definition call_ok :: "(tid \<times> 'op \<times> 'r) list \<Rightarrow> 'st \<Rightarrow> 'st \<Rightarrow> tid \<Rightarrow> ('op, 'l, 'r) locked_call \<Rightarrow> bool" where
  "call_ok h stx st t c \<longleftrightarrow>
     (case c of
        Called b oper \<Rightarrow> b \<le> length h
      | Waiting b oper \<Rightarrow> b \<le> length h
      | Inside b oper l \<Rightarrow> b \<le> length h \<and> (\<not> writer oper \<longrightarrow> pure l) \<and> (\<exists>r st'. runs_body micro l st r st' \<and> seq oper stx = (r, st'))
      | Done b p oper r \<Rightarrow> b \<le> p \<and> p < length h \<and> h ! p = (t, oper, r))"

definition return_ok :: "(tid \<times> 'op \<times> 'r) list \<Rightarrow> ('op, 'r) locked_return \<Rightarrow> bool" where
  "return_ok h r \<longleftrightarrow> lr_called r \<le> lr_effect r \<and> lr_effect r < lr_returned r \<and> lr_returned r \<le> length h \<and>
     h ! lr_effect r = (lr_tid r, lr_op r, lr_result r)"

definition linear_inv :: "'st \<Rightarrow> ('op, 'l, 'st, 'r) locked \<Rightarrow> bool" where
  "linear_inv st0 s \<longleftrightarrow> (\<exists>stx. replay_ops seq (lk_history s) st0 = Some stx \<and>
       (\<forall>t c. lk_calls s t = Some c \<longrightarrow> call_ok (lk_history s) stx (lk_state s) t c) \<and>
       (lk_state s = stx \<or> (\<exists>t b oper l. lk_calls s t = Some (Inside b oper l) \<and> writer oper))) \<and>
     list_all (return_ok (lk_history s)) (lk_finished s) \<and>
     distinct (map lr_effect (lk_finished s)) \<and>
     (\<forall>t b p oper r. lk_calls s t = Some (Done b p oper r) \<longrightarrow> p \<notin> lr_effect ` set (lk_finished s))"

lemma call_ok_extend: "call_ok h stx st t c \<Longrightarrow> call_ok (h @ [x]) stx st t c"
  by (cases c) (auto simp: call_ok_def nth_append)

lemma call_ok_outside: "call_ok h stx st t c \<Longrightarrow> \<not> owns writer (Some c) \<Longrightarrow> \<not> reads writer (Some c) \<Longrightarrow> call_ok h stx' st' t c"
  by (cases c) (auto simp: call_ok_def)

lemma return_ok_extend: "return_ok h r \<Longrightarrow> return_ok (h @ [x]) r"
  by (auto simp: return_ok_def nth_append)

lemma list_all_return_extend: "list_all (return_ok h) rs \<Longrightarrow> list_all (return_ok (h @ [x])) rs"
  by (auto simp: list_all_iff return_ok_extend)

text \<open>Nobody is inside with the write lock while somebody reads; the state is that of the history then.\<close>

lemma read_state:
  assumes "locked_inv writer s" and "lk_calls s t = Some (Inside b oper l)" and "\<not> writer oper"
    and "lk_calls s u = Some (Inside b' oper' l')"
  shows "\<not> writer oper'"
  using owns_excludes(2) [OF assms(1), of u t] assms(2-4) by (cases "u = t") auto

lemma linear_invE:
  assumes "linear_inv st0 s"
  obtains stx where "replay_ops seq (lk_history s) st0 = Some stx"
    and "\<And>t c. lk_calls s t = Some c \<Longrightarrow> call_ok (lk_history s) stx (lk_state s) t c"
    and "\<And>t. (\<forall>u b oper l. lk_calls s u = Some (Inside b oper l) \<longrightarrow> \<not> writer oper) \<Longrightarrow> lk_state s = stx"
  using assms unfolding linear_inv_def by metis

text \<open>A step that neither completes a call nor returns from one keeps the invariant when the calls stay in order.\<close>

lemma linear_inv_silent:
  assumes "linear_inv st0 s" and "lk_history s' = lk_history s" "lk_finished s' = lk_finished s"
    and "lk_calls s' = (lk_calls s)(t := Some c)" and "\<And>b p oper r. c \<noteq> Done b p oper r"
    and "replay_ops seq (lk_history s) st0 = Some stx"
    and "\<And>u c'. u \<noteq> t \<Longrightarrow> lk_calls s u = Some c' \<Longrightarrow> call_ok (lk_history s) stx (lk_state s') u c'"
    and "call_ok (lk_history s) stx (lk_state s') t c"
    and "lk_state s' = stx \<or> (\<exists>t b oper l. lk_calls s' t = Some (Inside b oper l) \<and> writer oper)"
  shows "linear_inv st0 s'"
  unfolding linear_inv_def
proof (intro conjI exI [of _ stx])
  show "\<forall>u c. lk_calls s' u = Some c \<longrightarrow> call_ok (lk_history s') stx (lk_state s') u c"
    using assms(2,4,7,8) by simp
  show "\<forall>u b p oper r. lk_calls s' u = Some (Done b p oper r) \<longrightarrow> p \<notin> lr_effect ` set (lk_finished s')"
    using assms(1,3-5) by (simp add: linear_inv_def)
qed (use assms in \<open>simp_all add: linear_inv_def\<close>)

lemma enters_ok:
  assumes "linear_inv st0 s" and "\<forall>u b oper l. lk_calls s u = Some (Inside b oper l) \<longrightarrow> \<not> writer oper"
    and "lk_calls s t = Some c" "c = Called b oper \<or> c = Waiting b oper"
    and "lk_history s' = lk_history s" "lk_finished s' = lk_finished s" "lk_state s' = lk_state s"
    and "lk_calls s' = (lk_calls s)(t := Some (Inside b oper (enter oper)))"
  shows "linear_inv st0 s'"
proof -
  from linear_invE [OF assms(1)] assms(2) obtain stx where
    h: "replay_ops seq (lk_history s) st0 = Some stx" "\<And>t c. lk_calls s t = Some c \<Longrightarrow> call_ok (lk_history s) stx (lk_state s) t c"
    and st: "lk_state s = stx" by metis
  have "b \<le> length (lk_history s)" using h(2) [OF assms(3)] assms(4) by (auto simp: call_ok_def)
  moreover have "runs_body micro (enter oper) stx (fst (seq oper stx)) (snd (seq oper stx))" by (rule seq_runs)
  ultimately have "call_ok (lk_history s) stx (lk_state s') t (Inside b oper (enter oper))"
    using enter_pure [of oper] st assms(7) by (auto simp: call_ok_def intro!: exI [of _ "fst (seq oper stx)"] exI [of _ "snd (seq oper stx)"])
  then show ?thesis
    using linear_inv_silent [OF assms(1,5,6,8) _ h(1)] h(2) assms(7) st by simp
qed

lemma go_on_ok:
  assumes "linear_inv st0 s" and "locked_inv writer s" and "lk_calls s t = Some (Inside b oper l)"
    and "micro l (lk_state s) = (Inl l', st')"
  shows "linear_inv st0 (set_call t (Some (Inside b oper l')) (s\<lparr>lk_state := st'\<rparr>))"
proof -
  from linear_invE [OF assms(1)] obtain stx where
    h: "replay_ops seq (lk_history s) st0 = Some stx" "\<And>t c. lk_calls s t = Some c \<Longrightarrow> call_ok (lk_history s) stx (lk_state s) t c"
    and st: "(\<forall>u b oper l. lk_calls s u = Some (Inside b oper l) \<longrightarrow> \<not> writer oper) \<Longrightarrow> lk_state s = stx" by metis
  from h(2) [OF assms(3)] obtain r st1 where ok: "b \<le> length (lk_history s)" "\<not> writer oper \<longrightarrow> pure l"
    "runs_body micro l (lk_state s) r st1" "seq oper stx = (r, st1)" by (auto simp: call_ok_def)
  from runs_body_Inl [OF ok(3) assms(4)] have "runs_body micro l' st' r st1" .
  moreover have pure: "st' = lk_state s \<and> pure l'" if "\<not> writer oper" using that ok(2) micro_pure assms(4) by fastforce
  ultimately have mine: "call_ok (lk_history s) stx st' t (Inside b oper l')"
    using ok(1,4) by (auto simp: call_ok_def)
  have others: "call_ok (lk_history s) stx st' u c'" if "u \<noteq> t" "lk_calls s u = Some c'" for u c'
  proof (cases "writer oper")
    case True
    with owns_excludes [OF assms(2), of t u] assms(3) that h(2) show ?thesis
      by (metis call_ok_outside owns.simps(1))
  next
    case False
    with pure that h(2) show ?thesis by simp
  qed
  show ?thesis
  proof (rule linear_inv_silent [OF assms(1) _ _ _ _ h(1), where t = t and c = "Inside b oper l'"])
    show "lk_state (set_call t (Some (Inside b oper l')) (s\<lparr>lk_state := st'\<rparr>)) = stx \<or>
        (\<exists>ta ba opera la. lk_calls (set_call t (Some (Inside b oper l')) (s\<lparr>lk_state := st'\<rparr>)) ta = Some (Inside ba opera la) \<and> writer opera)"
      using st pure read_state [OF assms(2,3)] by (cases "writer oper") auto
  qed (use mine others in auto)
qed

lemma complete_ok:
  assumes "linear_inv st0 s" and "locked_inv writer s" and "lk_calls s t = Some (Inside b oper l)"
    and "micro l (lk_state s) = (Inr r, st')"
  shows "linear_inv st0 (set_call t (Some (Done b (length (lk_history s)) oper r))
       (s\<lparr>lk_state := st', lk_history := lk_history s @ [(t, oper, r)]\<rparr>))" (is "linear_inv st0 ?s")
proof -
  from linear_invE [OF assms(1)] obtain stx where
    h: "replay_ops seq (lk_history s) st0 = Some stx" "\<And>t c. lk_calls s t = Some c \<Longrightarrow> call_ok (lk_history s) stx (lk_state s) t c"
    and st: "(\<forall>u b oper l. lk_calls s u = Some (Inside b oper l) \<longrightarrow> \<not> writer oper) \<Longrightarrow> lk_state s = stx" by metis
  from h(2) [OF assms(3)] obtain r1 st1 where "b \<le> length (lk_history s)" "\<not> writer oper \<longrightarrow> pure l"
    and run: "runs_body micro l (lk_state s) r1 st1" "seq oper stx = (r1, st1)" by (auto simp: call_ok_def)
  with runs_body_Inr [OF run(1) assms(4)] have ok: "b \<le> length (lk_history s)" "\<not> writer oper \<longrightarrow> pure l"
    "seq oper stx = (r, st')" by simp_all
  have pure: "st' = stx \<and> lk_state s = stx" if "\<not> writer oper"
    using that ok(2) micro_pure [OF _ assms(4)] st read_state [OF assms(2,3)] by blast
  have others: "call_ok (lk_history s @ [(t, oper, r)]) st' st' u c" if "u \<noteq> t" "lk_calls s u = Some c" for u c
  proof (cases "writer oper")
    case True
    with owns_excludes [OF assms(2), of t u] assms(3) that h(2) show ?thesis
      by (metis call_ok_extend call_ok_outside owns.simps(1))
  next
    case False
    with pure that h(2) show ?thesis by (metis call_ok_extend)
  qed
  have calls: "\<forall>u c. lk_calls ?s u = Some c \<longrightarrow> call_ok (lk_history ?s) st' (lk_state ?s) u c"
    using ok(1) others by (simp add: call_ok_def nth_append)
  have new: "length (lk_history s) \<notin> lr_effect ` set (lk_finished s)"
    using assms(1) by (auto simp: linear_inv_def list_all_iff return_ok_def)
  show ?thesis
    unfolding linear_inv_def
  proof (intro conjI exI [of _ st'])
    show "replay_ops seq (lk_history ?s) st0 = Some st'" using h(1) ok(3) by (simp add: replay_ops_append)
    show "list_all (return_ok (lk_history ?s)) (lk_finished ?s)"
      using assms(1) by (simp add: linear_inv_def list_all_return_extend)
    show "\<forall>u b p oper r. lk_calls ?s u = Some (Done b p oper r) \<longrightarrow> p \<notin> lr_effect ` set (lk_finished ?s)"
      using assms(1) new by (simp add: linear_inv_def)
  qed (use assms(1) calls in \<open>simp_all add: linear_inv_def\<close>)
qed

lemma ret_ok:
  assumes "linear_inv st0 s" and "lk_calls s t = Some (Done b p oper r)"
  shows "linear_inv st0 (set_call t None (s\<lparr>lk_mutex := mx,
     lk_finished := lk_finished s @ [\<lparr>lr_tid = t, lr_op = oper, lr_called = b, lr_effect = p,
       lr_returned = length (lk_history s), lr_result = r\<rparr>]\<rparr>))" (is "linear_inv st0 ?s")
proof -
  from linear_invE [OF assms(1)] obtain stx where
    h: "replay_ops seq (lk_history s) st0 = Some stx" "\<And>t c. lk_calls s t = Some c \<Longrightarrow> call_ok (lk_history s) stx (lk_state s) t c"
    and st: "(\<forall>u b oper l. lk_calls s u = Some (Inside b oper l) \<longrightarrow> \<not> writer oper) \<Longrightarrow> lk_state s = stx" by metis
  from h(2) [OF assms(2)] have ok: "b \<le> p" "p < length (lk_history s)" "lk_history s ! p = (t, oper, r)"
    by (simp_all add: call_ok_def)
  have other: "p' \<noteq> p" if "u \<noteq> t" "lk_calls s u = Some (Done b' p' oper' r')" for u b' p' oper' r'
    using h(2) [OF that(2)] ok that(1) by (auto simp: call_ok_def)
  have old: "list_all (return_ok (lk_history s)) (lk_finished s)" "distinct (map lr_effect (lk_finished s))"
    "p \<notin> lr_effect ` set (lk_finished s)"
    "\<And>u b p oper r. lk_calls s u = Some (Done b p oper r) \<Longrightarrow> p \<notin> lr_effect ` set (lk_finished s)"
    using assms(1) [unfolded linear_inv_def] assms(2) by blast+
  show ?thesis
    unfolding linear_inv_def
  proof (intro conjI exI [of _ stx])
    show "lk_state ?s = stx \<or> (\<exists>t b oper l. lk_calls ?s t = Some (Inside b oper l) \<and> writer oper)"
      using st assms(2) by (cases "lk_state s = stx") (auto, metis locked_call.distinct(11) option.inject)
    show "\<forall>u b p oper r. lk_calls ?s u = Some (Done b p oper r) \<longrightarrow> p \<notin> lr_effect ` set (lk_finished ?s)"
    proof (intro allI impI)
      fix u b' p' oper' r'
      assume "lk_calls ?s u = Some (Done b' p' oper' r')"
      then have "u \<noteq> t" "lk_calls s u = Some (Done b' p' oper' r')" by (simp_all split: if_splits)
      with old(4) other show "p' \<notin> lr_effect ` set (lk_finished ?s)" by simp
    qed
  qed (use h old ok in \<open>auto simp: return_ok_def\<close>)
qed

lemma outside_ok:
  assumes "linear_inv st0 s" and "\<And>b oper l. lk_calls s t \<noteq> Some (Inside b oper l)"
    and "c = Called b oper \<or> c = Waiting b oper" "b \<le> length (lk_history s)"
    and "lk_history s' = lk_history s" "lk_finished s' = lk_finished s" "lk_state s' = lk_state s"
    and "lk_calls s' = (lk_calls s)(t := Some c)"
  shows "linear_inv st0 s'"
proof -
  from linear_invE [OF assms(1)] obtain stx where
    h: "replay_ops seq (lk_history s) st0 = Some stx" "\<And>t c. lk_calls s t = Some c \<Longrightarrow> call_ok (lk_history s) stx (lk_state s) t c"
    and st: "(\<forall>u b oper l. lk_calls s u = Some (Inside b oper l) \<longrightarrow> \<not> writer oper) \<Longrightarrow> lk_state s = stx" by metis
  show ?thesis
  proof (rule linear_inv_silent [OF assms(1,5,6,8) _ h(1)])
    show "lk_state s' = stx \<or> (\<exists>t b oper l. lk_calls s' t = Some (Inside b oper l) \<and> writer oper)"
    proof (cases "\<exists>u b oper l. lk_calls s u = Some (Inside b oper l) \<and> writer oper")
      case True
      then obtain u b1 op1 l1 where u: "lk_calls s u = Some (Inside b1 op1 l1)" "writer op1" by blast
      with assms(2) have "u \<noteq> t" by auto
      with u assms(8) have "lk_calls s' u = Some (Inside b1 op1 l1)" by simp
      with u(2) show ?thesis by blast
    next
      case False
      with st assms(7) show ?thesis by auto
    qed
    show "call_ok (lk_history s) stx (lk_state s') t c" using assms(3,4) by (auto simp: call_ok_def)
  qed (use h(2) assms(3,7) in auto)
qed

lemma linear_step: "object_step s s' \<Longrightarrow> locked_inv writer s \<Longrightarrow> linear_inv st0 s \<Longrightarrow> linear_inv st0 s'"
proof (induction rule: locked_step.induct)
  case (call s t oper)
  show ?case by (rule outside_ok [OF call.prems(2), where t = t and b = "length (lk_history s)" and oper = oper]) (use call in auto)
next
  case (announce s t b oper)
  have "b \<le> length (lk_history s)"
    by (rule linear_invE [OF announce.prems(2)]) (use announce.hyps(1) in \<open>fastforce simp: call_ok_def\<close>)
  then show ?case
    by (intro outside_ok [OF announce.prems(2), where t = t and b = b and oper = oper]) (use announce in auto)
next
  case (acquire s t b oper)
  have "holder (lk_mutex s) = Some t" using acquire.prems(1) acquire.hyps(1) by (simp add: locked_inv_def)
  with acquire.prems(1) have only: "v = t" if "wants_write writer (lk_calls s v)" for v
    using that by (auto simp: locked_inv_def)
  have "\<not> writer oper'" if "lk_calls s u = Some (Inside b' oper' l')" for u b' oper' l'
    using only [of u] that acquire.hyps(1) by auto
  then show ?case
    by (intro enters_ok [OF acquire.prems(2) _ acquire.hyps(1)]) auto
next
  case (rlock s t b oper)
  then have "\<not> writer oper'" if "lk_calls s u = Some (Inside b' oper' l')" for u b' oper' l'
    using that by (auto simp: locked_inv_def dest: spec [of _ u])
  then show ?case
    by (intro enters_ok [OF rlock.prems(2) _ rlock.hyps(1)]) auto
next
  case (go_on s t b oper l l' st')
  show ?case by (rule go_on_ok [OF go_on.prems(2,1) go_on.hyps])
next
  case (complete s t b oper l r st')
  show ?case by (rule complete_ok [OF complete.prems(2,1) complete.hyps])
next
  case (ret s t b p oper r)
  show ?case by (rule ret_ok [OF ret.prems(2) ret.hyps])
qed

theorem object_linearizable:
  assumes "object_reachable st0 s"
  shows "linear_inv st0 s"
  using assms
proof (induction rule: locked_reachable.induct)
  case start
  show ?case by (simp add: linear_inv_def locked_start_def)
next
  case (next_state s s')
  then show ?case by (blast intro: linear_step locked_reachable_inv)
qed

text \<open>Every reachable history is legal and every returned call took effect at an entry of its own between its call and its return.\<close>

theorem linearizable:
  assumes "object_reachable st0 s"
  shows "(\<exists>stx. replay_ops seq (lk_history s) st0 = Some stx \<and>
       ((\<forall>t. \<not> owns writer (lk_calls s t)) \<longrightarrow> lk_state s = stx)) \<and>
     (\<forall>r \<in> set (lk_finished s). lr_called r \<le> lr_effect r \<and> lr_effect r < lr_returned r \<and> lr_returned r \<le> length (lk_history s) \<and>
        lk_history s ! lr_effect r = (lr_tid r, lr_op r, lr_result r)) \<and>
     distinct (map lr_effect (lk_finished s))"
proof -
  note inv = object_linearizable [OF assms]
  from linear_invE [OF inv] obtain stx where h: "replay_ops seq (lk_history s) st0 = Some stx"
    and st: "(\<forall>u b oper l. lk_calls s u = Some (Inside b oper l) \<longrightarrow> \<not> writer oper) \<Longrightarrow> lk_state s = stx" by metis
  have "lk_state s = stx" if none: "\<forall>t. \<not> owns writer (lk_calls s t)"
  proof (rule st, intro allI impI notI)
    fix t b oper l
    assume "lk_calls s t = Some (Inside b oper l)" "writer oper"
    then have "owns writer (lk_calls s t)" by simp
    with none show False by blast
  qed
  moreover have "list_all (return_ok (lk_history s)) (lk_finished s)" "distinct (map lr_effect (lk_finished s))"
    using inv by (simp_all add: linear_inv_def)
  ultimately show ?thesis using h by (auto simp: list_all_iff return_ok_def)
qed

end

end
