(* ===== verification/User_Locks.thy ===== *)
theory User_Locks
  imports User_By_Email Locked_Object
begin

text \<open>
  The read model of \<open>internal/user/user_by_email.go\<close> under concurrent goroutines: \<open>Handle\<close> under the read lock and \<open>Process\<close> under the write
  lock, one access to one of its two maps at a time.
\<close>

datatype email_op = HandleOp ctx "GetByEmail Envelope" | ProcessOp "user_msg Persisted"

datatype email_result = Handled "error + View" | Processed "error option"

text \<open>\<open>AtPrevious\<close> has read \<open>idToEmail\<close>; \<open>AtUpdated\<close> and \<open>AtData\<close> are about to write the one map and the other.\<close>

datatype email_point =
    AtHandle "GetByEmail Envelope"
  | AtProcess "user_msg Persisted"
  | AtPrevious UUID string string Version
  | AtUpdated UUID View
  | AtData string View

fun email_writer :: "email_op \<Rightarrow> bool" where
  "email_writer (HandleOp ctx q) = False"
| "email_writer (ProcessOp evt) = True"

fun email_enter :: "email_op \<Rightarrow> email_point" where
  "email_enter (HandleOp ctx q) = AtHandle q"
| "email_enter (ProcessOp evt) = AtProcess evt"

fun email_micro :: "email_point \<Rightarrow> GetByEmailHandler \<Rightarrow> (email_point + email_result) \<times> GetByEmailHandler" where
  "email_micro (AtHandle q) handler =
     (Inr (Handled (case view_data handler (Message q) of
        None \<Rightarrow> Inl (Errorf ''user.GetByEmailHandler: failed to get User by email, %w'' [ErrNotFound])
      | Some user \<Rightarrow> Inr user)), handler)"
| "email_micro (AtProcess evt) handler =
     (case Message (Envelope evt) of
        ForeignMessage name \<Rightarrow> (Inr (Processed (Some (Errorf ''user.GetByEmailHandler: unexpected event type, %T'' []))), handler)
      | UserEvent userEvent \<Rightarrow>
          (case evt_Kind userEvent of
             Some (UserWasCreated firstName lastName birthDate email) \<Rightarrow>
               (Inl (AtData email \<lparr>view_ID = evt_ID userEvent, view_Email = email, view_FirstName = firstName,
                  view_LastName = lastName, view_BirthDate = birthDate, view_Version = Version evt\<rparr>),
                handler\<lparr>idToEmail := (idToEmail handler)(evt_ID userEvent \<mapsto> email)\<rparr>)
           | Some (UserEmailWasUpdated email) \<Rightarrow>
               (case idToEmail handler (evt_ID userEvent) of
                  None \<Rightarrow>
                    (Inr (Processed (Some (Errorf ''user.GetByEmailHandler: expected id to have been registered, none found'' []))),
                     handler)
                | Some previousEmail \<Rightarrow> (Inl (AtPrevious (evt_ID userEvent) previousEmail email (Version evt)), handler))
           | None \<Rightarrow> (Inr (Processed (Some (Errorf ''user.GetByEmailHandler: unexpected User event kind, %T'' []))), handler)))"
| "email_micro (AtPrevious i previousEmail email v) handler =
     (case view_data handler previousEmail of
        None \<Rightarrow>
          (Inr (Processed (Some (Errorf ''user.GetByEmailHandler: expected view to be registered, none found'' []))), handler)
      | Some view \<Rightarrow>
          if v \<le> view_Version view then (Inr (Processed None), handler)
          else (Inl (AtUpdated i (view\<lparr>view_Email := email\<rparr>)), handler))"
| "email_micro (AtUpdated i view) handler =
     (Inl (AtData (view_Email view) view), handler\<lparr>idToEmail := (idToEmail handler)(i \<mapsto> view_Email view)\<rparr>)"
| "email_micro (AtData email view) handler =
     (Inr (Processed None), handler\<lparr>view_data := (view_data handler)(email \<mapsto> view)\<rparr>)"

text \<open>The same operations one after the other.\<close>

fun email_seq :: "email_op \<Rightarrow> GetByEmailHandler \<Rightarrow> email_result \<times> GetByEmailHandler" where
  "email_seq (HandleOp ctx q) handler =
     (case GetByEmailHandler_Handle ctx q handler of Some (r, handler') \<Rightarrow> (Handled r, handler'))"
| "email_seq (ProcessOp evt) handler = (let (e, handler') = GetByEmailHandler_Process evt handler in (Processed e, handler'))"

interpretation email_lock: locked_object email_writer email_enter email_micro email_seq "\<lambda>l. \<exists>q. l = AtHandle q"
proof
  fix oper h
  show "runs_body email_micro (email_enter oper) h (fst (email_seq oper h)) (snd (email_seq oper h))"
  proof (cases oper)
    case (HandleOp ctx q)
    then show ?thesis
      by (auto simp: GetByEmailHandler_Handle_def split: option.splits intro: runs_body.last_step)
  next
    case (ProcessOp evt)
    then show ?thesis
      by (simp add: GetByEmailHandler_Process_def Let_def runs_body_iff [of email_micro] split: user_msg.split)
        (simp add: runs_body_iff [of email_micro] split: option.split user_kind.split)
  qed
next
  fix oper
  show "\<not> email_writer oper \<Longrightarrow> \<exists>q. email_enter oper = AtHandle q" by (cases oper) auto
qed auto

section \<open>The two maps agree\<close>

text \<open>Every identifier is registered under an email that has a view, and every view is filed under its own email.\<close>

definition email_ok :: "GetByEmailHandler \<Rightarrow> bool" where
  "email_ok h \<longleftrightarrow> (\<forall>i e. idToEmail h i = Some e \<longrightarrow> view_data h e \<noteq> None) \<and>
     (\<forall>e v. view_data h e = Some v \<longrightarrow> view_Email v = e)"

text \<open>So a query answers with a view of the email it asks for, and \<open>Process\<close> never misses a view.\<close>

fun email_result_ok :: "email_op \<Rightarrow> email_result \<Rightarrow> bool" where
  "email_result_ok (HandleOp ctx q) r \<longleftrightarrow>
     (\<exists>v. r = Handled (Inr v) \<and> view_Email v = Message q) \<or> (\<exists>e. r = Handled (Inl e) \<and> errors_Is e ErrNotFound)"
| "email_result_ok (ProcessOp evt) r \<longleftrightarrow>
     (\<exists>x. r = Processed x \<and>
        x \<noteq> Some (Errorf ''user.GetByEmailHandler: expected view to be registered, none found'' []))"

lemma email_seq_ok:
  "email_ok h \<Longrightarrow> email_ok (snd (email_seq oper h)) \<and> email_result_ok oper (fst (email_seq oper h))"
  by (cases oper)
    (auto simp: email_ok_def GetByEmailHandler_Handle_def GetByEmailHandler_Process_def Let_def ErrNotFound_def
      split: option.splits user_msg.splits user_kind.splits, metis option.distinct(1))

lemma email_replay_ok:
  "replay_ops email_seq hist h = Some h' \<Longrightarrow> email_ok h \<Longrightarrow>
   email_ok h' \<and> list_all (\<lambda>(t, oper, r). email_result_ok oper r) hist"
proof (induction hist arbitrary: h)
  case (Cons x hist)
  obtain t oper r where x: "x = (t, oper, r)" by (cases x)
  from email_seq_ok [OF Cons.prems(2), of oper] Cons.IH [of "snd (email_seq oper h)"] Cons.prems(1) show ?case
    by (auto simp: x split: prod.splits if_splits)
qed simp

section \<open>Property\<close>

text \<open>C24: The read model is safe for concurrent use: however goroutines interleave, in every reachable state the history, one entry for each
  call of \<open>Handle\<close> or \<open>Process\<close> whose body is through, is a legal run of the sequential operations from a fresh
  handler, and every call that returned has an entry of its own in it, made between its call and its return, with its arguments and its result. In particular a
  query answers with a view of the very email it asks for or that none was found, and no \<open>Process\<close> ever finds an
  identifier registered without its view.\<close>

theorem GetByEmailHandler_linearizable:
  assumes "locked_reachable email_writer email_enter email_micro NewGetByEmailHandler s"
  shows "(\<exists>h. replay_ops email_seq (lk_history s) NewGetByEmailHandler = Some h \<and>
       ((\<forall>t. \<not> owns email_writer (lk_calls s t)) \<longrightarrow> lk_state s = h)) \<and>
     (\<forall>r \<in> set (lk_finished s). lr_called r \<le> lr_effect r \<and> lr_effect r < lr_returned r \<and> lr_returned r \<le> length (lk_history s) \<and>
        lk_history s ! lr_effect r = (lr_tid r, lr_op r, lr_result r) \<and> email_result_ok (lr_op r) (lr_result r)) \<and>
     distinct (map lr_effect (lk_finished s))"
proof -
  note lin = email_lock.linearizable [OF assms]
  then obtain h where h: "replay_ops email_seq (lk_history s) NewGetByEmailHandler = Some h" by blast
  have "email_ok NewGetByEmailHandler" by (simp add: email_ok_def NewGetByEmailHandler_def)
  from email_replay_ok [OF h this] have "list_all (\<lambda>(t, oper, r). email_result_ok oper r) (lk_history s)" by blast
  moreover have "lr_effect r < length (lk_history s) \<and> lk_history s ! lr_effect r = (lr_tid r, lr_op r, lr_result r)"
    if "r \<in> set (lk_finished s)" for r
    using lin that by auto
  ultimately have "email_result_ok (lr_op r) (lr_result r)" if "r \<in> set (lk_finished s)" for r
    using that by (fastforce simp: list_all_length)
  with lin show ?thesis by blast
qed

text \<open>A user is created while a query waits for the lock.\<close>

definition email_sched :: "(tid \<times> email_op option) list" where
  "email_sched = [(0, Some (ProcessOp \<lparr>StreamID = ''u'', Version = 1, Envelope = created 1 ''Jo'' ''Doe'' zero_Time zero_Time ''old''\<rparr>)),
     (1, Some (HandleOp Background (Query_ToEnvelope ''old'')))] @ replicate 5 (0, None) @ replicate 3 (1, None)"

lemma email_sched_state:
  "locked_turns email_writer email_enter email_micro email_sched (locked_start NewGetByEmailHandler) =
     Some (the (locked_turns email_writer email_enter email_micro email_sched (locked_start NewGetByEmailHandler)))"
  "map lr_result (lk_finished (the (locked_turns email_writer email_enter email_micro email_sched (locked_start NewGetByEmailHandler)))) =
     [Processed None, Handled (Inr \<lparr>view_ID = 1, view_Email = ''old'', view_FirstName = ''Jo'', view_LastName = ''Doe'',
        view_BirthDate = zero_Time, view_Version = 1\<rparr>)]"
  by (simp_all add: email_sched_def locked_start_def free_mutex_def mutex_defs numeral_eq_Suc NewGetByEmailHandler_def created_def go_defs)

theorem GetByEmailHandler_linearizable_witness:
  "list_all (\<lambda>r. email_result_ok (lr_op r) (lr_result r)) (lk_finished (the (locked_turns email_writer email_enter email_micro email_sched
     (locked_start NewGetByEmailHandler)))) \<and>
   map lr_result (lk_finished (the (locked_turns email_writer email_enter email_micro email_sched (locked_start NewGetByEmailHandler)))) =
     [Processed None, Handled (Inr \<lparr>view_ID = 1, view_Email = ''old'', view_FirstName = ''Jo'', view_LastName = ''Doe'',
        view_BirthDate = zero_Time, view_Version = 1\<rparr>)]"
  using GetByEmailHandler_linearizable [OF locked_turns_reachable [OF locked_reachable.start email_sched_state(1)]] email_sched_state(2)
  by (simp add: list_all_iff)

end
