(* ===== verification/User_Projection.thy ===== *)
theory User_Projection
  imports User_By_Email Tracking_Store
begin

text \<open>
  Both sides of the command-query separation together: users are written through an event-sourced repository (\<open>aggregate\<close>,
  \<open>internal/user/aggregate.go\<close>) to a tracking store, and what the store recorded is processed by the read model
  (\<open>internal/user/user_by_email.go\<close>). The read model then agrees with the repository, as long as no two users ever had
  the same email; the code does not keep emails unique.
\<close>

section \<open>Logs of users\<close>

text \<open>What \<open>Create\<close> and \<open>UpdateEmail\<close> write to the stream of a user, with any metadata.\<close>

fun user_log :: "UUID \<Rightarrow> user_msg Envelope list \<Rightarrow> bool" where
  "user_log i [] \<longleftrightarrow> True"
| "user_log i (evt # ups) \<longleftrightarrow> (\<exists>f l b now email. Message evt = Message (created i f l b now email)) \<and>
     (\<forall>up \<in> set ups. \<exists>now email. Message up = Message (updated i now email))"

fun msg_email :: "user_msg \<Rightarrow> string" where
  "msg_email (UserEvent evt) =
     (case evt_Kind evt of Some (UserWasCreated f l b email) \<Rightarrow> email | Some (UserEmailWasUpdated email) \<Rightarrow> email | None \<Rightarrow> [])"
| "msg_email (ForeignMessage name) = []"

definition log_emails :: "user_msg Envelope list \<Rightarrow> string set" where
  "log_emails log = (\<lambda>evt. msg_email (Message evt)) ` set log"

definition user_of :: "user_msg Envelope list \<Rightarrow> User" where
  "user_of log = fst (replay User_Apply (map Message log) zero_User)"

lemma Message_events [simp]:
  "Message (created i f l b now email) = UserEvent \<lparr>evt_ID = i, evt_RecordTime = now, evt_Kind = Some (UserWasCreated f l b email)\<rparr>"
  "Message (updated i now email) = UserEvent \<lparr>evt_ID = i, evt_RecordTime = now, evt_Kind = Some (UserEmailWasUpdated email)\<rparr>"
  by (simp_all add: created_def updated_def go_defs)

lemma user_log_prefix: "user_log i (xs @ ys) \<Longrightarrow> user_log i xs"
  by (cases xs) auto

lemma user_log_next:
  assumes "user_log i (xs @ [evt])"
  shows "if xs = [] then \<exists>f l b now email. Message evt = Message (created i f l b now email)
    else \<exists>now email. Message evt = Message (updated i now email)"
  using assms by (cases xs) auto

lemma user_log_folds: "user_log i log \<Longrightarrow> snd (replay User_Apply (map Message log) zero_User) = None"
proof (induction log rule: rev_induct)
  case (snoc evt log)
  from snoc.IH user_log_prefix [OF snoc.prems] obtain q where "replay User_Apply (map Message log) zero_User = (q, None)"
    by (metis prod.collapse)
  with user_log_next [OF snoc.prems] show ?case by (auto simp: replay_append split: if_splits)
qed simp

lemma user_of_snoc:
  assumes "user_log i (log @ [evt])"
  shows "user_of (log @ [evt]) = fst (User_Apply (Message evt) (user_of log))"
proof -
  from user_log_folds [OF user_log_prefix [OF assms]] obtain q where "replay User_Apply (map Message log) zero_User = (q, None)"
    by (metis prod.collapse)
  then show ?thesis by (simp add: user_of_def replay_append split: prod.split option.split)
qed

lemma user_of_log:
  "user_log i log \<Longrightarrow> log \<noteq> [] \<Longrightarrow> user_id (user_of log) = i \<and> user_email (user_of log) \<in> log_emails log"
proof (induction log rule: rev_induct)
  case (snoc evt log)
  show ?case
  proof (cases "log = []")
    case True
    with user_log_next [OF snoc.prems(1)] show ?thesis by (auto simp: user_of_def log_emails_def)
  next
    case False
    with snoc.IH user_log_next [OF snoc.prems(1)] user_log_prefix [OF snoc.prems(1)] show ?thesis
      by (auto simp: user_of_snoc [OF snoc.prems(1)] log_emails_def)
  qed
qed simp

text \<open>What is saved of a user keeps its log of this form: the events of \<open>Create\<close> on an empty stream, and those of \<open>UpdateEmail\<close> behind others.\<close>

lemma user_log_Create:
  assumes "User_Create i firstName lastName email birthDate now = Inr user"
  shows "user_log i (recordedEvents user)"
proof -
  have valid: "firstName \<noteq> [] \<and> lastName \<noteq> [] \<and> email \<noteq> [] \<and> \<not> IsZero birthDate"
    using assms by (auto simp: User_Create_def errors_Join_def List.map_filter_def Let_def split: if_splits)
  with assms show ?thesis by (auto simp: User_Create_ok)
qed

lemma user_log_UpdateEmail:
  assumes "user_log i (log @ recordedEvents user)" and "log @ recordedEvents user \<noteq> []" and "user_id user = i"
    and "UpdateEmail email now metadata user = (user', None)"
  shows "user_log i (log @ recordedEvents user')"
proof -
  have user': "recordedEvents user' = recordedEvents user @ [(updated i now email)\<lparr>Metadata := metadata\<rparr>]"
    using assms(3,4) by (auto simp: UpdateEmail_eq split: if_splits)
  have "user_log i (xs @ [(updated i now email)\<lparr>Metadata := metadata\<rparr>])" if "user_log i xs" "xs \<noteq> []" for xs
    using that by (cases xs) auto
  from this [OF assms(1,2)] show ?thesis by (simp add: user')
qed

section \<open>The read model of recorded events\<close>

definition log_in :: "user_msg Persisted list \<Rightarrow> StreamID \<Rightarrow> user_msg Envelope list" where
  "log_in ps sid = map Envelope (filter (\<lambda>p. StreamID p = sid) ps)"

definition user_view :: "User \<Rightarrow> View" where
  "user_view user = \<lparr>view_ID = user_id user, view_Email = user_email user, view_FirstName = user_firstName user,
     view_LastName = user_lastName user, view_BirthDate = user_birthDate user, view_Version = 1\<rparr>"

text \<open>The handler holds the user under its identifier and its current email.\<close>

definition holds_user :: "GetByEmailHandler \<Rightarrow> User \<Rightarrow> bool" where
  "holds_user h user \<longleftrightarrow> idToEmail h (user_id user) = Some (user_email user) \<and>
     view_data h (user_email user) = Some (user_view user)"

definition projects :: "(UUID \<Rightarrow> string) \<Rightarrow> (StreamID \<Rightarrow> user_msg Envelope list) \<Rightarrow> GetByEmailHandler \<Rightarrow> bool" where
  "projects us logs h \<longleftrightarrow> (\<forall>i. if logs (us i) = [] then idToEmail h i = None else holds_user h (user_of (logs (us i))))"

text \<open>What a store that is written through the repository has recorded.\<close>

definition user_record :: "(UUID \<Rightarrow> string) \<Rightarrow> user_msg Persisted list \<Rightarrow> bool" where
  "user_record us ps \<longleftrightarrow>
     (\<forall>p \<in> set ps. \<exists>i. StreamID p = us i) \<and>
     (\<forall>sid. filter (\<lambda>p. StreamID p = sid) ps = persisted_from sid 0 (log_in ps sid)) \<and>
     (\<forall>i. user_log i (log_in ps (us i)) \<and> length (log_in ps (us i)) < 2 ^ 32) \<and>
     (\<forall>i j. i \<noteq> j \<longrightarrow> log_emails (log_in ps (us i)) \<inter> log_emails (log_in ps (us j)) = {})"

lemma process_all_snoc:
  "process_all ps h = (None, h1) \<Longrightarrow> process_all (ps @ [p]) h = GetByEmailHandler_Process p h1"
  by (induction ps arbitrary: h) (auto split: prod.splits option.splits)

lemma log_in_snoc: "log_in (ps @ [p]) sid = log_in ps sid @ (if StreamID p = sid then [Envelope p] else [])"
  by (simp add: log_in_def)

lemma user_record_prefix:
  assumes "user_record us (ps @ qs)"
  shows "user_record us ps"
proof -
  have app: "log_in (ps @ qs) sid = log_in ps sid @ log_in qs sid" for sid by (simp add: log_in_def)
  have "filter (\<lambda>p. StreamID p = sid) ps = persisted_from sid 0 (log_in ps sid)" for sid
  proof -
    have "filter (\<lambda>p. StreamID p = sid) ps @ filter (\<lambda>p. StreamID p = sid) qs =
        persisted_from sid 0 (log_in ps sid) @ persisted_from sid (version_of (log_in ps sid)) (log_in qs sid)"
      using assms unfolding user_record_def by (simp add: app persisted_from_append flip: filter_append)
    then show ?thesis by (rule append_eq_append_conv [THEN iffD1, THEN conjunct1, rotated]) (simp add: log_in_def)
  qed
  moreover have "user_log i (log_in ps (us i)) \<and> length (log_in ps (us i)) < 2 ^ 32" for i
  proof -
    from assms have "user_log i (log_in ps (us i) @ log_in qs (us i)) \<and> length (log_in ps (us i) @ log_in qs (us i)) < 2 ^ 32"
      unfolding user_record_def app [symmetric] by blast
    then show ?thesis using user_log_prefix by auto
  qed
  moreover have "log_emails (log_in ps (us i)) \<inter> log_emails (log_in ps (us j)) = {}" if "i \<noteq> j" for i j
  proof -
    have "log_emails (log_in ps sid) \<subseteq> log_emails (log_in (ps @ qs) sid)" for sid by (auto simp: app log_emails_def)
    with assms that show ?thesis unfolding user_record_def by blast
  qed
  moreover have "\<forall>p \<in> set ps. \<exists>i. StreamID p = us i" using assms by (simp add: user_record_def)
  ultimately show ?thesis by (simp add: user_record_def)
qed

text \<open>The version of a recorded event is its number in its stream.\<close>

lemma user_record_snoc:
  assumes "user_record us (ps @ [p])"
  shows "Version p = version_of (log_in ps (StreamID p)) + 1"
proof -
  let ?sid = "StreamID p"
  have "filter (\<lambda>q. StreamID q = ?sid) (ps @ [p]) = persisted_from ?sid 0 (log_in (ps @ [p]) ?sid)"
    using assms unfolding user_record_def by blast
  then have "filter (\<lambda>q. StreamID q = ?sid) ps @ [p] = persisted_from ?sid 0 (log_in ps ?sid) @
      [\<lparr>StreamID = ?sid, Version = version_of (log_in ps ?sid) + 1, Envelope = Envelope p\<rparr>]"
    by (simp add: log_in_snoc persisted_from_append)
  then have "p = \<lparr>StreamID = ?sid, Version = version_of (log_in ps ?sid) + 1, Envelope = Envelope p\<rparr>" by simp
  then show ?thesis by (metis Persisted.select_convs(2))
qed

lemma projects_step:
  assumes rec: "user_record us (ps @ [p])" and "inj us" and h: "projects us (log_in ps) h"
  shows "\<exists>h'. GetByEmailHandler_Process p h = (None, h') \<and> projects us (log_in (ps @ [p])) h'"
proof -
  from rec obtain i where sid: "StreamID p = us i" by (auto simp: user_record_def)
  have logs: "log_in (ps @ [p]) (us j) = (if j = i then log_in ps (us i) @ [Envelope p] else log_in ps (us j))" for j
    using \<open>inj us\<close> by (simp add: log_in_snoc sid inj_eq)
  have ulog: "user_log j (log_in (ps @ [p]) (us j))" for j using rec by (simp add: user_record_def)
  then have log: "user_log i (log_in ps (us i) @ [Envelope p])" using logs [of i] by metis
  have apart: "log_emails (log_in (ps @ [p]) (us i)) \<inter> log_emails (log_in (ps @ [p]) (us j)) = {}" if "j \<noteq> i" for j
    using rec that by (simp add: user_record_def)
  let ?email = "msg_email (Message (Envelope p))"
  have mine: "?email \<in> log_emails (log_in (ps @ [p]) (us i))" by (simp add: logs log_emails_def)
  have others: "user_id (user_of (log_in ps (us j))) = j \<and> user_email (user_of (log_in ps (us j))) \<noteq> ?email"
    if "j \<noteq> i" "log_in ps (us j) \<noteq> []" for j
    using user_of_log [OF ulog [of j]] apart [OF that(1)] mine that by (auto simp: logs)
  define new where "new = user_of (log_in (ps @ [p]) (us i))"
  have new: "user_id new = i" using user_of_log [OF ulog [of i]] by (simp add: new_def logs)
  have proj: "projects us (log_in (ps @ [p])) (h\<lparr>idToEmail := (idToEmail h)(i \<mapsto> ?email), view_data := (view_data h)(?email \<mapsto> user_view new)\<rparr>)"
    if "user_email new = ?email"
    unfolding projects_def
  proof
    fix j
    show "if log_in (ps @ [p]) (us j) = [] then idToEmail (h\<lparr>idToEmail := (idToEmail h)(i \<mapsto> ?email), view_data := (view_data h)(?email \<mapsto> user_view new)\<rparr>) j = None
      else holds_user (h\<lparr>idToEmail := (idToEmail h)(i \<mapsto> ?email), view_data := (view_data h)(?email \<mapsto> user_view new)\<rparr>) (user_of (log_in (ps @ [p]) (us j)))"
    proof (cases "j = i")
      case True
      have "log_in (ps @ [p]) (us j) \<noteq> []" by (simp add: logs True)
      moreover have "user_of (log_in (ps @ [p]) (us j)) = new" by (simp only: new_def True)
      ultimately show ?thesis using that new by (simp add: holds_user_def)
    next
      case False
      with h others [of j] show ?thesis by (auto simp: projects_def holds_user_def logs dest!: spec [of _ j])
    qed
  qed
  show ?thesis
  proof (cases "log_in ps (us i) = []")
    case True
    with user_log_next [OF log] obtain f l b now email where
      m: "Message (Envelope p) = UserEvent \<lparr>evt_ID = i, evt_RecordTime = now, evt_Kind = Some (UserWasCreated f l b email)\<rparr>" by auto
    have "Version p = 1" using user_record_snoc [OF rec] True by (simp add: sid)
    moreover have "user_view new = \<lparr>view_ID = i, view_Email = email, view_FirstName = f, view_LastName = l, view_BirthDate = b, view_Version = 1\<rparr>"
      "user_email new = ?email"
      by (simp_all add: new_def logs True user_of_def m user_view_def)
    ultimately show ?thesis using proj by (simp add: GetByEmailHandler_Process_def m)
  next
    case False
    with user_log_next [OF log] obtain now email where
      m: "Message (Envelope p) = UserEvent \<lparr>evt_ID = i, evt_RecordTime = now, evt_Kind = Some (UserEmailWasUpdated email)\<rparr>" by auto
    let ?old = "user_of (log_in ps (us i))"
    from user_of_log [OF user_log_prefix [OF log] False] h False have old: "user_id ?old = i" "idToEmail h i = Some (user_email ?old)"
      "view_data h (user_email ?old) = Some (user_view ?old)" by (auto simp: projects_def holds_user_def dest!: spec [of _ i])
    have "length (log_in (ps @ [p]) (us i)) < 2 ^ 32" using rec by (simp add: user_record_def)
    then have len: "Suc (length (log_in ps (us i))) < 2 ^ 32" by (simp add: logs)
    have "Version p = word_of_nat (Suc (length (log_in ps (us i))))" using user_record_snoc [OF rec] by (simp add: sid add.commute)
    then have "unat (Version p) = Suc (length (log_in ps (us i)))" using len by (simp only: unat_len32)
    with False have "\<not> Version p \<le> 1" by (cases "log_in ps (us i)") (simp_all add: word_le_nat_alt)
    moreover have n: "new = ?old\<lparr>user_email := email\<rparr>" by (simp add: new_def logs user_of_snoc [OF log] m)
    then have "user_view new = user_view ?old\<lparr>view_Email := email\<rparr>" "user_email new = ?email" by (simp_all add: user_view_def m)
    ultimately show ?thesis using proj old by (simp add: GetByEmailHandler_Process_def m user_view_def)
  qed
qed

lemma process_all_projects:
  "user_record us ps \<Longrightarrow> inj us \<Longrightarrow> \<exists>h. process_all ps NewGetByEmailHandler = (None, h) \<and> projects us (log_in ps) h"
proof (induction ps rule: rev_induct)
  case Nil
  then show ?case by (simp add: projects_def log_in_def NewGetByEmailHandler_def)
next
  case (snoc p ps)
  from snoc.IH [OF user_record_prefix [OF snoc.prems(1)] snoc.prems(2)] obtain h where
    h: "process_all ps NewGetByEmailHandler = (None, h)" "projects us (log_in ps) h" by blast
  from projects_step [OF snoc.prems h(2)] process_all_snoc [OF h(1)] show ?case by auto
qed

section \<open>The two sides agree\<close>

lemma tracked_record:
  assumes t: "tracks mem_log (\<lambda>_. []) es" and users: "\<And>sid. mem_log (inner es) sid \<noteq> [] \<Longrightarrow> \<exists>i. sid = us i"
    and logs: "\<And>i. user_log i (mem_log (inner es) (us i)) \<and> length (mem_log (inner es) (us i)) < 2 ^ 32"
    and apart: "\<And>i j. i \<noteq> j \<Longrightarrow> log_emails (mem_log (inner es) (us i)) \<inter> log_emails (mem_log (inner es) (us j)) = {}"
  shows "user_record us (Recorded es)" and "log_in (Recorded es) = mem_log (inner es)"
proof -
  have f: "filter (\<lambda>p. StreamID p = sid) (Recorded es) = persisted_from sid 0 (mem_log (inner es) sid)" for sid
    using t by (fastforce simp: tracks_def Recorded_def)
  show l: "log_in (Recorded es) = mem_log (inner es)" by (simp add: fun_eq_iff log_in_def f)
  have "\<exists>i. StreamID p = us i" if "p \<in> set (Recorded es)" for p
  proof (rule users)
    have "p \<in> set (filter (\<lambda>q. StreamID q = StreamID p) (Recorded es))" using that by simp
    then show "mem_log (inner es) (StreamID p) \<noteq> []" unfolding f by auto
  qed
  with logs apart f show "user_record us (Recorded es)" by (simp add: user_record_def l)
qed

text \<open>C25: The read model agrees with the write side: after any appends through a tracking store whose streams are those of users and in which no two
  users ever had the same email, the read model processes everything that was recorded, in order, without an error; then a user that the event-sourced
  repository loads is found under its current email with the data of the loaded aggregate (and the version of its creation), and an identifier that the repository
  does not find is not registered.\<close>

theorem GetByEmail_agrees_with_repository:
  assumes "es = run_appends (TrackingStore_Append InMemoryStore_Append) ctx ops (NewTrackingStore NewInMemoryStore)" and "inj us"
    and "\<forall>sid. mem_log (inner es) sid \<noteq> [] \<longrightarrow> (\<exists>i. sid = us i)"
    and "\<forall>i. user_log i (mem_log (inner es) (us i)) \<and> length (mem_log (inner es) (us i)) < 2 ^ 32"
    and "\<forall>i j. i \<noteq> j \<longrightarrow> log_emails (mem_log (inner es) (us i)) \<inter> log_emails (mem_log (inner es) (us j)) = {}"
  shows "\<exists>h. process_all (Recorded es) NewGetByEmailHandler = (None, h) \<and>
     (\<forall>i. case EventSourcedRepository_Get (NewEventSourcedRepository InMemoryStore_Store (User_Type us)) Background i (inner es) of
        None \<Rightarrow> False
      | Some (Inl e, _) \<Rightarrow> caused_by e ErrRootNotFound \<and> idToEmail h i = None
      | Some (Inr user, _) \<Rightarrow> user_id user = i \<and>
          GetByEmailHandler_Handle Background (Query_ToEnvelope (user_email user)) h = Some (Inr (user_view user), h))"
proof -
  have "mem_log NewInMemoryStore = (\<lambda>_. [])" by (simp add: fun_eq_iff)
  from run_appends_tracks [OF tracks_New [of mem_log NewInMemoryStore, unfolded this], of ctx ops]
  have "tracks mem_log (\<lambda>_. []) es" by (simp only: assms(1))
  note rec = tracked_record [where us = us, OF this] 
  have r: "user_record us (Recorded es)" "log_in (Recorded es) = mem_log (inner es)"
    using rec assms(3-5) by blast+
  from process_all_projects [OF r(1) assms(2)] obtain h where
    h: "process_all (Recorded es) NewGetByEmailHandler = (None, h)" "projects us (mem_log (inner es)) h" unfolding r(2) by blast
  have "case EventSourcedRepository_Get (NewEventSourcedRepository InMemoryStore_Store (User_Type us)) Background i (inner es) of
        None \<Rightarrow> False
      | Some (Inl e, _) \<Rightarrow> caused_by e ErrRootNotFound \<and> idToEmail h i = None
      | Some (Inr user, _) \<Rightarrow> user_id user = i \<and>
          GetByEmailHandler_Handle Background (Query_ToEnvelope (user_email user)) h = Some (Inr (user_view user), h)" for i
  proof -
    let ?log = "mem_log (inner es) (us i)"
    have log: "user_log i ?log" "length ?log < 2 ^ 32" using assms(4) by blast+
    have "replay User_Apply (map Message ?log) zero_User = (user_of ?log, None)"
      using user_log_folds [OF log(1)] by (simp add: user_of_def prod_eq_iff)
    with user_es.get_replays [of "inner es" us i ?log "user_of ?log"] obtain st where
      get: "EventSourcedRepository_Get (NewEventSourcedRepository InMemoryStore_Store (User_Type us)) Background i (inner es) =
        Some (if version_of ?log = 0 then Inl ErrRootNotFound else Inr (at_base (version_of ?log) [] (user_of ?log)), st)"
      by (auto simp: InMemoryStore_Store_def)
    have z: "version_of ?log = (0 :: Version) \<longleftrightarrow> ?log = []" using len32_eq_0_iff [OF log(2)] by (metis length_0_conv)
    show ?thesis
    proof (cases "?log = []")
      case True
      with h(2) get z show ?thesis by (auto simp: projects_def ErrRootNotFound_def)
    next
      case False
      with h(2) have "holds_user h (user_of ?log)" by (simp add: projects_def)
      with get z False user_of_log [OF log(1) False] show ?thesis
        by (simp add: GetByEmailHandler_Handle_def Query_ToEnvelope_def holds_user_def user_view_def)
    qed
  qed
  with h(1) show ?thesis by blast
qed

text \<open>Two users, one of whom has changed the email since, on interleaved streams.\<close>

abbreviation two_users :: "(StreamID \<times> Check \<times> user_msg Envelope list) list" where
  "two_users \<equiv> [(unary 1, CheckExact 0, [created 1 ''Jo'' ''Doe'' zero_Time zero_Time ''jo'']),
     (unary 2, CheckExact 0, [created 2 ''Al'' ''Roe'' zero_Time zero_Time ''al'']), (unary 1, CheckExact 1, [updated 1 zero_Time ''doe''])]"

abbreviation two_users_store :: "(user_msg, user_msg InMemoryStore) TrackingStore" where
  "two_users_store \<equiv> run_appends (TrackingStore_Append InMemoryStore_Append) Background two_users (NewTrackingStore NewInMemoryStore)"

lemma two_users_log:
  "mem_log (inner two_users_store) sid =
     (if sid = unary 1 then [created 1 ''Jo'' ''Doe'' zero_Time zero_Time ''jo'', updated 1 zero_Time ''doe'']
      else if sid = unary 2 then [created 2 ''Al'' ''Roe'' zero_Time zero_Time ''al''] else [])"
  by (simp add: TrackingStore_Append_def InMemoryStore_Append_def NewTrackingStore_def NewInMemoryStore_def slice_at_def
      inj_eq [OF inj_unary])

theorem GetByEmail_agrees_with_repository_witness:
  "\<exists>h. process_all (Recorded two_users_store) NewGetByEmailHandler = (None, h) \<and>
     (\<forall>i. case EventSourcedRepository_Get (NewEventSourcedRepository InMemoryStore_Store (User_Type unary)) Background i (inner two_users_store) of
        None \<Rightarrow> False
      | Some (Inl e, _) \<Rightarrow> caused_by e ErrRootNotFound \<and> idToEmail h i = None
      | Some (Inr user, _) \<Rightarrow> user_id user = i \<and>
          GetByEmailHandler_Handle Background (Query_ToEnvelope (user_email user)) h = Some (Inr (user_view user), h))"
proof (rule GetByEmail_agrees_with_repository [OF refl inj_unary])
  show "\<forall>sid. mem_log (inner two_users_store) sid \<noteq> [] \<longrightarrow> (\<exists>i. sid = unary i)" unfolding two_users_log by auto
  show "\<forall>i. user_log i (mem_log (inner two_users_store) (unary i)) \<and> length (mem_log (inner two_users_store) (unary i)) < 2 ^ 32"
    unfolding two_users_log by (auto simp: inj_eq [OF inj_unary])
  show "\<forall>i j. i \<noteq> j \<longrightarrow> log_emails (mem_log (inner two_users_store) (unary i)) \<inter> log_emails (mem_log (inner two_users_store) (unary j)) = {}"
    unfolding two_users_log by (auto simp: inj_eq [OF inj_unary] log_emails_def)
qed

end
