(* ===== verification/Go_Http.thy ===== *)
theory Go_Http
  imports Go_Errors "HOL-Library.Sublist"
begin

text \<open>
  What the repository uses of packages \<open>net/http\<close>, \<open>path\<close> and \<open>strings\<close>: handlers, the not-found handler, \<open>strings.TrimRight\<close> and
  the multiplexer \<open>http.ServeMux\<close> for patterns that are plain paths, without methods, hosts or wildcards.

  A request is its path and the rest (method, header, body) \<open>'b\<close>; what a handler writes is a value \<open>'w\<close>, apart from the two
  responses of the library itself. A handler works on a state; \<open>None\<close> is a panic.
\<close>

record 'b http_Request =
  URL_Path :: string
  payload :: 'b

datatype 'w http_Response = NotFound404 | RedirectTo string | Reply 'w

type_synonym ('b, 'w, 'st) http_Handler = "'b http_Request \<Rightarrow> 'st \<Rightarrow> ('w http_Response \<times> 'st) option"

definition http_NotFound :: "('b, 'w, 'st) http_Handler" where
  "http_NotFound r st = Some (NotFound404, st)"

text \<open>\<open>Do\<close> of an \<open>http.Client\<close>: a request to a URL gets a response or fails.\<close>

type_synonym ('b, 'w, 'st) HTTPClient = "string \<Rightarrow> 'b \<Rightarrow> 'st \<Rightarrow> (error + 'w http_Response) \<times> 'st"

definition TrimRight :: "string \<Rightarrow> char \<Rightarrow> string" where
  "TrimRight s c = rev (dropWhile (\<lambda>x. x = c) (rev s))"

lemma TrimRight_append: "TrimRight (s @ replicate n c) c = TrimRight s c"
  by (simp add: TrimRight_def) (induction n, simp_all add: dropWhile_append)

lemma TrimRight_idem [simp]: "TrimRight (TrimRight s c) c = TrimRight s c"
  by (simp add: TrimRight_def)

section \<open>Clean paths\<close>

text \<open>The segments between the slashes of a path.\<close>

fun segments :: "string \<Rightarrow> string \<Rightarrow> string list" where
  "segments acc [] = [rev acc]"
| "segments acc (c # cs) = (if c = CHR ''/'' then rev acc # segments [] cs else segments (c # acc) cs)"

text \<open>\<open>cleanPath\<close>: the path with its empty, \<open>.\<close> and \<open>..\<close> segments resolved, keeping a trailing slash.\<close>

fun clean_step :: "string list \<Rightarrow> string \<Rightarrow> string list" where
  "clean_step acc s = (if s = [] \<or> s = ''.'' then acc else if s = ''..'' then butlast acc else acc @ [s])"

definition cleanPath :: "string \<Rightarrow> string" where
  "cleanPath p =
     (let np = concat (map (\<lambda>s. CHR ''/'' # s) (foldl clean_step [] (segments [] p)))
      in if np = [] then ''/'' else if p \<noteq> [] \<and> last p = CHR ''/'' then np @ ''/'' else np)"

section \<open>The multiplexer\<close>

type_synonym ('b, 'w, 'st) ServeMux = "(string \<times> ('b, 'w, 'st) http_Handler) list"

definition NewServeMux :: "('b, 'w, 'st) ServeMux" where
  "NewServeMux = []"

text \<open>\<open>Handle\<close> panics on an empty pattern and on one that is registered already.\<close>

definition mux_Handle ::
  "string \<times> ('b, 'w, 'st) http_Handler \<Rightarrow> ('b, 'w, 'st) ServeMux \<Rightarrow> ('b, 'w, 'st) ServeMux option" where
  "mux_Handle ph mux = (if fst ph = [] \<or> fst ph \<in> fst ` set mux then None else Some (mux @ [ph]))"

definition pattern_matches :: "string \<Rightarrow> string \<Rightarrow> bool" where
  "pattern_matches pat path = (if last pat = CHR ''/'' then prefix pat path else pat = path)"

text \<open>The most specific of the patterns that match is the longest.\<close>

fun mux_match :: "('b, 'w, 'st) ServeMux \<Rightarrow> string \<Rightarrow> (string \<times> ('b, 'w, 'st) http_Handler) option" where
  "mux_match [] path = None"
| "mux_match ((pat, h) # rest) path =
     (if pattern_matches pat path
      then (case mux_match rest path of
              Some (pat', h') \<Rightarrow> if length pat < length pat' then Some (pat', h') else Some (pat, h)
            | None \<Rightarrow> Some (pat, h))
      else mux_match rest path)"

text \<open>A path that is not clean, and one that is only registered with a slash behind it, are redirected.\<close>

definition mux_ServeHTTP :: "('b, 'w, 'st) ServeMux \<Rightarrow> ('b, 'w, 'st) http_Handler" where
  "mux_ServeHTTP mux r st =
     (let path = cleanPath (URL_Path r) in
      if path \<notin> fst ` set mux \<and> last path \<noteq> CHR ''/'' \<and> path @ ''/'' \<in> fst ` set mux then Some (RedirectTo (path @ ''/''), st)
      else if path \<noteq> URL_Path r then Some (RedirectTo path, st)
      else case mux_match mux path of
             Some (pat, h) \<Rightarrow> h r st
           | None \<Rightarrow> http_NotFound r st)"

lemma mux_match_Some:
  "mux_match mux path = Some (pat, h) \<Longrightarrow> (pat, h) \<in> set mux \<and> pattern_matches pat path \<and>
     (\<forall>(pat', h') \<in> set mux. pattern_matches pat' path \<longrightarrow> length pat' \<le> length pat)"
proof (induction mux arbitrary: pat h)
  case (Cons ph rest)
  obtain pat0 h0 where [simp]: "ph = (pat0, h0)" by force
  show ?case
  proof (cases "mux_match rest path")
    case None
    have "\<not> pattern_matches pat' path" if "(pat', h') \<in> set rest" for pat' h'
      using None that by (induction rest) (auto split: option.splits if_splits)
    with None Cons.prems show ?thesis by (auto split: if_splits)
  next
    case (Some q)
    then obtain pat1 h1 where "mux_match rest path = Some (pat1, h1)" by force
    with Cons.IH [OF this] Cons.prems show ?thesis by (fastforce split: if_splits)
  qed
qed simp

lemma mux_match_None: "mux_match mux path = None \<longleftrightarrow> (\<forall>ph \<in> set mux. \<not> pattern_matches (fst ph) path)"
  by (induction mux) (auto split: option.splits if_splits)

end
