(* ===== verification/Todo_Connect.thy ===== *)
theory Todo_Connect
  imports Todo_Service
begin

text \<open>
  The Connect transport of the todo list service: \<open>connect_handler.go\<close> and \<open>proto.go\<close> of
  \<open>examples/todolist/internal/todolist\<close>, and the wiring of \<open>examples/todolist/main.go\<close>.

  Parameters stand for other modules: \<open>uuid_Parse\<close> and \<open>uuid_String\<close> for package \<open>uuid\<close>, \<open>AsTime\<close> and
  \<open>timestamp_New\<close> for \<open>timestamppb\<close> with its timestamps \<open>'ts\<close>. A protobuf message is the record of
  its fields; a message field that may be unset is an \<open>option\<close>.
\<close>

section \<open>Connect errors\<close>

datatype connect_code = CodeInvalidArgument | CodeNotFound | CodeAlreadyExists | CodeUnimplemented | CodeInternal

record connect_error =
  code :: connect_code
  cause :: error

definition parseUUIDField :: "(string \<Rightarrow> error + UUID) \<Rightarrow> string \<Rightarrow> string \<Rightarrow> connect_error + UUID" where
  "parseUUIDField uuid_Parse field val =
     (case uuid_Parse val of
        Inl e \<Rightarrow> Inl \<lparr>code = CodeInvalidArgument,
                     cause = Errorf ''todolist.ConnectServiceHandler: failed to parse %s as uuid, %w'' [e]\<rparr>
      | Inr i \<Rightarrow> Inr i)"

text \<open>\<open>op\<close> only enters the text of the error; \<open>%s\<close> is its verb.\<close>

definition mapCommandError :: "string \<Rightarrow> error \<Rightarrow> connect_error" where
  "mapCommandError op_name e =
     \<lparr>code =
        (if errors_Is e ErrEmptyID \<or> errors_Is e ErrEmptyTitle \<or> errors_Is e ErrNoOwnerSpecified \<or>
            errors_Is e ErrEmptyItemID \<or> errors_Is e ErrEmptyItemTitle then CodeInvalidArgument
         else if errors_Is e ErrItemAlreadyExists then CodeAlreadyExists
         else if errors_Is e ErrItemNotFound \<or> errors_Is e ErrRootNotFound then CodeNotFound
         else CodeInternal),
      cause = Errorf ''%s: %w'' [e]\<rparr>"

section \<open>Messages\<close>

record CreateTodoListRequest =
  creq_TodoListId :: string
  creq_Title :: string
  creq_Owner :: string

record GetTodoListRequest =
  greq_TodoListId :: string

record 'ts AddTodoItemRequest =
  areq_TodoListId :: string
  areq_TodoItemId :: string
  areq_Title :: string
  areq_Description :: string
  areq_DueDate :: "'ts option"

text \<open>The three requests on one item have the same two fields.\<close>

record TodoItemRequest =
  ireq_TodoListId :: string
  ireq_TodoItemId :: string

record 'ts pb_TodoItem =
  pb_item_Id :: string
  pb_item_Title :: string
  pb_item_Description :: string
  pb_item_Completed :: bool
  pb_item_DueDate :: "'ts option"
  pb_item_CreationTime :: 'ts

record 'ts pb_TodoList =
  pb_Id :: string
  pb_Title :: string
  pb_Owner :: string
  pb_CreationTime :: 'ts
  pb_Items :: "'ts pb_TodoItem list"

primrec ToProto_loop ::
  "(UUID \<Rightarrow> string) \<Rightarrow> (Time \<Rightarrow> 'ts) \<Rightarrow> Item list \<Rightarrow> 'ts pb_TodoItem list \<Rightarrow> 'ts pb_TodoItem list" where
  "ToProto_loop uuid_String timestamp_New [] acc = acc"
| "ToProto_loop uuid_String timestamp_New (item # rest) acc =
     (let pbItem = \<lparr>pb_item_Id = uuid_String (item_ID item), pb_item_Title = item_Title item,
            pb_item_Description = item_Description item, pb_item_Completed = item_Completed item,
            pb_item_DueDate = None, pb_item_CreationTime = timestamp_New (item_CreationTime item)\<rparr>;
          pbItem = (if \<not> IsZero (item_DueDate item)
                    then pbItem\<lparr>pb_item_DueDate := Some (timestamp_New (item_DueDate item))\<rparr>
                    else pbItem)
      in ToProto_loop uuid_String timestamp_New rest (acc @ [pbItem]))"

definition ToProto :: "(UUID \<Rightarrow> string) \<Rightarrow> (Time \<Rightarrow> 'ts) \<Rightarrow> TodoList \<Rightarrow> 'ts pb_TodoList" where
  "ToProto uuid_String timestamp_New todo =
     \<lparr>pb_Id = uuid_String (list_ID todo), pb_Title = list_Title todo, pb_Owner = list_Owner todo,
      pb_CreationTime = timestamp_New (list_CreationTime todo),
      pb_Items = ToProto_loop uuid_String timestamp_New (Items todo) []\<rparr>"

section \<open>The service handler\<close>

record 'st ConnectServiceHandler =
  srv_Get :: "(GetQuery, TodoList, 'st) Query_Handler"
  srv_Create :: "(TodoList_CreateCommand, 'st) Command_Handler"
  srv_Add :: "(AddItemCommand, 'st) Command_Handler"
  srv_Done :: "(MarkItemAsDoneCommand, 'st) Command_Handler"
  srv_Pending :: "(MarkItemAsPendingCommand, 'st) Command_Handler"
  srv_Delete :: "(DeleteItemCommand, 'st) Command_Handler"

text \<open>The answer of a remote call with the new state; \<open>None\<close> is a panic. The empty response is \<open>()\<close>.\<close>

type_synonym ('a, 'st) answer = "((connect_error + 'a) \<times> 'st) option"

text \<open>The end every command call shares: map the handler's error, or answer with the empty message.\<close>

definition command_answer :: "string \<Rightarrow> (error option \<times> 'st) option \<Rightarrow> (unit, 'st) answer" where
  "command_answer op_name r =
     (case r of
        None \<Rightarrow> None
      | Some (Some e, st) \<Rightarrow> Some (Inl (mapCommandError op_name e), st)
      | Some (None, st) \<Rightarrow> Some (Inr (), st))"

definition CreateTodoList ::
  "(string \<Rightarrow> error + UUID) \<Rightarrow> 'st ConnectServiceHandler \<Rightarrow> ctx \<Rightarrow> CreateTodoListRequest \<Rightarrow> 'st \<Rightarrow> (unit, 'st) answer" where
  "CreateTodoList uuid_Parse srv ctx req st =
     (case parseUUIDField uuid_Parse ''todo_list_id'' (creq_TodoListId req) of
        Inl e \<Rightarrow> Some (Inl e, st)
      | Inr i \<Rightarrow>
          (let cmd = Command_ToEnvelope \<lparr>create_ID = i, create_Title = creq_Title req, create_Owner = creq_Owner req\<rparr>
           in command_answer ''todolist.ConnectServiceHandler.CreateTodoList'' (srv_Create srv ctx cmd st)))"

definition GetTodoList ::
  "(string \<Rightarrow> error + UUID) \<Rightarrow> (UUID \<Rightarrow> string) \<Rightarrow> (Time \<Rightarrow> 'ts) \<Rightarrow> 'st ConnectServiceHandler \<Rightarrow> ctx \<Rightarrow>
   GetTodoListRequest \<Rightarrow> 'st \<Rightarrow> ('ts pb_TodoList, 'st) answer" where
  "GetTodoList uuid_Parse uuid_String timestamp_New srv ctx req st =
     (case parseUUIDField uuid_Parse ''todo_list_id'' (greq_TodoListId req) of
        Inl e \<Rightarrow> Some (Inl e, st)
      | Inr i \<Rightarrow>
          (case srv_Get srv ctx (Query_ToEnvelope \<lparr>get_ID = i\<rparr>) st of
             None \<Rightarrow> None
           | Some (Inl e, st') \<Rightarrow>
               Some (Inl (mapCommandError ''todolist.ConnectServiceHandler.GetTodoList'' e), st')
           | Some (Inr todo, st') \<Rightarrow> Some (Inr (ToProto uuid_String timestamp_New todo), st')))"

definition AddTodoItem ::
  "(string \<Rightarrow> error + UUID) \<Rightarrow> ('ts \<Rightarrow> Time) \<Rightarrow> 'st ConnectServiceHandler \<Rightarrow> ctx \<Rightarrow> 'ts AddTodoItemRequest \<Rightarrow> 'st \<Rightarrow>
   (unit, 'st) answer" where
  "AddTodoItem uuid_Parse AsTime srv ctx req st =
     (case parseUUIDField uuid_Parse ''todo_list_id'' (areq_TodoListId req) of
        Inl e \<Rightarrow> Some (Inl e, st)
      | Inr listID \<Rightarrow>
          (case parseUUIDField uuid_Parse ''todo_item_id'' (areq_TodoItemId req) of
             Inl e \<Rightarrow> Some (Inl e, st)
           | Inr itemID \<Rightarrow>
               (let dueDate = (case areq_DueDate req of None \<Rightarrow> zero_Time | Some ts \<Rightarrow> AsTime ts);
                    cmd = Command_ToEnvelope \<lparr>add_TodoListID = listID, add_TodoItemID = itemID,
                      add_Title = areq_Title req, add_Description = areq_Description req, add_DueDate = dueDate\<rparr>
                in command_answer ''todolist.ConnectServiceHandler.AddTodoItem'' (srv_Add srv ctx cmd st))))"

definition parseListAndItemIDs ::
  "(string \<Rightarrow> error + UUID) \<Rightarrow> string \<Rightarrow> string \<Rightarrow> connect_error + ID \<times> ItemID" where
  "parseListAndItemIDs uuid_Parse todoListID todoItemID =
     (case parseUUIDField uuid_Parse ''todo_list_id'' todoListID of
        Inl e \<Rightarrow> Inl e
      | Inr listID \<Rightarrow>
          (case parseUUIDField uuid_Parse ''todo_item_id'' todoItemID of
             Inl e \<Rightarrow> Inl e
           | Inr itemID \<Rightarrow> Inr (listID, itemID)))"

definition MarkTodoItemAsDone ::
  "(string \<Rightarrow> error + UUID) \<Rightarrow> 'st ConnectServiceHandler \<Rightarrow> ctx \<Rightarrow> TodoItemRequest \<Rightarrow> 'st \<Rightarrow> (unit, 'st) answer" where
  "MarkTodoItemAsDone uuid_Parse srv ctx req st =
     (case parseListAndItemIDs uuid_Parse (ireq_TodoListId req) (ireq_TodoItemId req) of
        Inl e \<Rightarrow> Some (Inl e, st)
      | Inr (listID, itemID) \<Rightarrow>
          (let cmd = Command_ToEnvelope \<lparr>done_TodoListID = listID, done_TodoItemID = itemID\<rparr>
           in command_answer ''todolist.ConnectServiceHandler.MarkTodoItemAsDone'' (srv_Done srv ctx cmd st)))"

definition MarkTodoItemAsPending ::
  "(string \<Rightarrow> error + UUID) \<Rightarrow> 'st ConnectServiceHandler \<Rightarrow> ctx \<Rightarrow> TodoItemRequest \<Rightarrow> 'st \<Rightarrow> (unit, 'st) answer" where
  "MarkTodoItemAsPending uuid_Parse srv ctx req st =
     (case parseListAndItemIDs uuid_Parse (ireq_TodoListId req) (ireq_TodoItemId req) of
        Inl e \<Rightarrow> Some (Inl e, st)
      | Inr (listID, itemID) \<Rightarrow>
          (let cmd = Command_ToEnvelope \<lparr>pending_TodoListID = listID, pending_TodoItemID = itemID\<rparr>
           in command_answer ''todolist.ConnectServiceHandler.MarkTodoItemAsPending'' (srv_Pending srv ctx cmd st)))"

definition DeleteTodoItem ::
  "(string \<Rightarrow> error + UUID) \<Rightarrow> 'st ConnectServiceHandler \<Rightarrow> ctx \<Rightarrow> TodoItemRequest \<Rightarrow> 'st \<Rightarrow> (unit, 'st) answer" where
  "DeleteTodoItem uuid_Parse srv ctx req st =
     (case parseListAndItemIDs uuid_Parse (ireq_TodoListId req) (ireq_TodoItemId req) of
        Inl e \<Rightarrow> Some (Inl e, st)
      | Inr (listID, itemID) \<Rightarrow>
          (let cmd = Command_ToEnvelope \<lparr>delete_TodoListID = listID, delete_TodoItemID = itemID\<rparr>
           in command_answer ''todolist.ConnectServiceHandler.DeleteTodoItem'' (srv_Delete srv ctx cmd st)))"

text \<open>The server of \<open>main.go\<close>: all handlers share the repository; \<open>now\<close> is the clock.\<close>

definition server :: "(unit \<Rightarrow> Time) \<Rightarrow> 'st Todo_Repository \<Rightarrow> 'st ConnectServiceHandler" where
  "server now repository =
     \<lparr>srv_Get = GetQueryHandler_Handle (Get repository),
      srv_Create = TodoList_CreateCommandHandler_Handle now (Save repository),
      srv_Add = AddItemCommandHandler_Handle now repository,
      srv_Done = MarkItemAsDoneCommandHandler_Handle repository,
      srv_Pending = MarkItemAsPendingCommandHandler_Handle repository,
      srv_Delete = DeleteItemCommandHandler_Handle repository\<rparr>"

section \<open>Remote calls as requests to the service\<close>

datatype 'ts rpc =
    RpcCreate CreateTodoListRequest Time
  | RpcAdd "'ts AddTodoItemRequest" Time
  | RpcDone TodoItemRequest
  | RpcPending TodoItemRequest
  | RpcDelete TodoItemRequest

text \<open>The time is what the clock shows during the call.\<close>

fun rpc_call ::
  "(string \<Rightarrow> error + UUID) \<Rightarrow> ('ts \<Rightarrow> Time) \<Rightarrow> 'st Todo_Repository \<Rightarrow> 'ts rpc \<Rightarrow> 'st \<Rightarrow> (unit, 'st) answer" where
  "rpc_call uuid_Parse AsTime repository (RpcCreate req now) =
     CreateTodoList uuid_Parse (server (\<lambda>_. now) repository) Background req"
| "rpc_call uuid_Parse AsTime repository (RpcAdd req now) =
     AddTodoItem uuid_Parse AsTime (server (\<lambda>_. now) repository) Background req"
| "rpc_call uuid_Parse AsTime repository (RpcDone req) =
     MarkTodoItemAsDone uuid_Parse (server (\<lambda>_. zero_Time) repository) Background req"
| "rpc_call uuid_Parse AsTime repository (RpcPending req) =
     MarkTodoItemAsPending uuid_Parse (server (\<lambda>_. zero_Time) repository) Background req"
| "rpc_call uuid_Parse AsTime repository (RpcDelete req) =
     DeleteTodoItem uuid_Parse (server (\<lambda>_. zero_Time) repository) Background req"

text \<open>The request a call stands for; none when an identifier does not parse.\<close>

definition parsed :: "(string \<Rightarrow> error + UUID) \<Rightarrow> string \<Rightarrow> UUID option" where
  "parsed uuid_Parse s = (case uuid_Parse s of Inl _ \<Rightarrow> None | Inr i \<Rightarrow> Some i)"

definition item_request ::
  "(string \<Rightarrow> error + UUID) \<Rightarrow> string \<Rightarrow> string \<Rightarrow> (ItemID \<Rightarrow> todo_op) \<Rightarrow> todo_request option" where
  "item_request uuid_Parse l i f =
     (case (parsed uuid_Parse l, parsed uuid_Parse i) of
        (Some l, Some i) \<Rightarrow> Some (ItemRequest l (f i))
      | _ \<Rightarrow> None)"

fun rpc_request :: "(string \<Rightarrow> error + UUID) \<Rightarrow> ('ts \<Rightarrow> Time) \<Rightarrow> 'ts rpc \<Rightarrow> todo_request option" where
  "rpc_request uuid_Parse AsTime (RpcCreate req now) =
     map_option (\<lambda>l. CreateRequest l (creq_Title req) (creq_Owner req) now) (parsed uuid_Parse (creq_TodoListId req))"
| "rpc_request uuid_Parse AsTime (RpcAdd req now) =
     item_request uuid_Parse (areq_TodoListId req) (areq_TodoItemId req)
       (\<lambda>i. OpAdd i (areq_Title req) (areq_Description req)
              (case areq_DueDate req of None \<Rightarrow> zero_Time | Some ts \<Rightarrow> AsTime ts) now)"
| "rpc_request uuid_Parse AsTime (RpcDone req) =
     item_request uuid_Parse (ireq_TodoListId req) (ireq_TodoItemId req) OpDone"
| "rpc_request uuid_Parse AsTime (RpcPending req) =
     item_request uuid_Parse (ireq_TodoListId req) (ireq_TodoItemId req) OpPending"
| "rpc_request uuid_Parse AsTime (RpcDelete req) =
     item_request uuid_Parse (ireq_TodoListId req) (ireq_TodoItemId req) OpDelete"

text \<open>What the documented codes mean for the causes the service gives.\<close>

definition code_of :: "error \<Rightarrow> connect_code" where
  "code_of c =
     (if c \<in> {ErrEmptyID, ErrEmptyTitle, ErrNoOwnerSpecified, ErrEmptyItemID, ErrEmptyItemTitle} then CodeInvalidArgument
      else if c = ErrItemAlreadyExists then CodeAlreadyExists
      else if c \<in> {ErrItemNotFound, ErrRootNotFound} then CodeNotFound
      else CodeInternal)"

lemma code_mapCommandError: "caused_by e c \<Longrightarrow> code (mapCommandError op_name e) = code_of c"
  by (auto simp: mapCommandError_def code_of_def caused_by_Is)

lemmas rpc_defs = CreateTodoList_def AddTodoItem_def MarkTodoItemAsDone_def MarkTodoItemAsPending_def
  DeleteTodoItem_def parseListAndItemIDs_def server_def parseUUIDField_def parsed_def item_request_def

lemma rpc_call_unparsed:
  "rpc_request uuid_Parse AsTime rpc = None \<Longrightarrow>
   \<exists>e. rpc_call uuid_Parse AsTime repository rpc st = Some (Inl e, st) \<and> code e = CodeInvalidArgument"
  by (cases rpc) (auto simp: rpc_defs Let_def split: sum.splits)

lemma rpc_call_parsed:
  "rpc_request uuid_Parse AsTime rpc = Some req \<Longrightarrow>
   \<exists>op_name. rpc_call uuid_Parse AsTime repository rpc st = command_answer op_name (handle_request repository req st)"
  by (cases rpc) (auto simp: rpc_defs Let_def split: sum.splits)

lemma command_answer_agrees:
  "agrees r None \<Longrightarrow> command_answer op_name (Some (r, st)) = Some (Inr (), st)"
  "agrees r (Some c) \<Longrightarrow> \<exists>e. command_answer op_name (Some (r, st)) = Some (Inl e, st) \<and> code e = code_of c"
  by (cases r; simp add: command_answer_def code_mapCommandError)+

section \<open>Properties\<close>

text \<open>Every remote command call on the service of \<open>main.go\<close> answers: with an \<open>InvalidArgument\<close>
  error and no effect when an identifier does not parse; otherwise with the empty message exactly
  when the abstract service accepts the request, and then the lists stored are the ones the request
  means; or else with the code of the cause (invalid input, already existing item, missing list or
  item; anything else, such as creating a list that exists, is internal) and nothing changed.\<close>

lemma connect_commands_refine:
  assumes "inj us" and "logs_ok us st" and "lists_ok (stored_lists us st)"
    and "versions_within n (stored_lists us st)" and "Suc n < 2 ^ 32"
  shows "\<exists>r st'. rpc_call uuid_Parse AsTime (todoListRepository us) rpc st = Some (r, st') \<and>
     logs_ok us st' \<and> lists_ok (stored_lists us st') \<and> versions_within (Suc n) (stored_lists us st') \<and>
     (case rpc_request uuid_Parse AsTime rpc of
        None \<Rightarrow> st' = st \<and> (\<exists>e. r = Inl e \<and> code e = CodeInvalidArgument)
      | Some req \<Rightarrow>
          (case service_request req (service_of (stored_lists us st)) of
             Inl c \<Rightarrow> (\<exists>e. r = Inl e \<and> code e = code_of c) \<and> stored_lists us st' = stored_lists us st
           | Inr m \<Rightarrow> r = Inr () \<and> service_of (stored_lists us st') = m))"
proof (cases "rpc_request uuid_Parse AsTime rpc")
  case None
  have "versions_within (Suc n) (stored_lists us st)"
    using assms(4) by (auto simp: versions_within_def le_Suc_eq)
  with assms None rpc_call_unparsed [OF None] show ?thesis by force
next
  case (Some req)
  obtain op_name where call: "rpc_call uuid_Parse AsTime (todoListRepository us) rpc st =
      command_answer op_name (handle_request (todoListRepository us) req st)"
    using rpc_call_parsed [OF Some, of "todoListRepository us" st] by blast
  from todo_mem.request_refines [OF assms, of req, unfolded todoListRepository_eta] obtain r st' where
    h: "handle_request (todoListRepository us) req st = Some (r, st')"
    and inv: "logs_ok us st'" "lists_ok (stored_lists us st')" "versions_within (Suc n) (stored_lists us st')"
    and out: "case service_request req (service_of (stored_lists us st)) of
        Inl c \<Rightarrow> agrees r (Some c) \<and> stored_lists us st' = stored_lists us st
      | Inr m \<Rightarrow> agrees r None \<and> m = service_of (stored_lists us st')" by blast
  show ?thesis
  proof (cases "service_request req (service_of (stored_lists us st))")
    case (Inl c)
    with out command_answer_agrees(2) [of r c op_name st'] obtain e where
      "command_answer op_name (Some (r, st')) = Some (Inl e, st')" "code e = code_of c" by auto
    with Inl out inv Some call h show ?thesis by simp
  next
    case (Inr m)
    with out inv Some call h show ?thesis by (simp add: command_answer_agrees(1))
  qed
qed

text \<open>The message of a list: the items in order, each with a due date exactly when it has one.\<close>

lemma ToProto_loop_eq:
  "ToProto_loop us ts items acc = acc @ map (\<lambda>x.
     \<lparr>pb_item_Id = us (item_ID x), pb_item_Title = item_Title x, pb_item_Description = item_Description x,
      pb_item_Completed = item_Completed x,
      pb_item_DueDate = (if IsZero (item_DueDate x) then None else Some (ts (item_DueDate x))),
      pb_item_CreationTime = ts (item_CreationTime x)\<rparr>) items"
  by (induction items arbitrary: acc) (simp_all add: Let_def)

text \<open>Reading the items of such a message back as the map from identifiers to items.\<close>

definition pb_board :: "(string \<Rightarrow> error + UUID) \<Rightarrow> ('ts \<Rightarrow> Time) \<Rightarrow> 'ts pb_TodoList \<Rightarrow> ItemID \<rightharpoonup> item_view" where
  "pb_board uuid_Parse AsTime pb = map_of (List.map_filter (\<lambda>x.
     map_option (\<lambda>i. (i, \<lparr>view_title = pb_item_Title x, view_description = pb_item_Description x,
        view_completed = pb_item_Completed x,
        view_due = (case pb_item_DueDate x of None \<Rightarrow> zero_Time | Some ts \<Rightarrow> AsTime ts),
        view_created = AsTime (pb_item_CreationTime x)\<rparr>)) (parsed uuid_Parse (pb_item_Id x))) (pb_Items pb))"

text \<open>The same instant in UTC.\<close>

definition view_in_UTC :: "item_view \<Rightarrow> item_view" where
  "view_in_UTC v = v\<lparr>view_due := in_UTC (view_due v), view_created := in_UTC (view_created v)\<rparr>"

lemma in_UTC_zero: "IsZero t \<Longrightarrow> in_UTC t = zero_Time"
  by (cases t) (simp add: in_UTC_def IsZero_def zero_Time_def)

lemma pb_board_ToProto:
  assumes "\<And>i. uuid_Parse (us i) = Inr i" and "\<And>t. AsTime (ts t) = in_UTC t"
  shows "pb_board uuid_Parse AsTime (ToProto us ts todo) = map_option view_in_UTC \<circ> board todo"
proof -
  have "List.map_filter (\<lambda>x. map_option (\<lambda>i. (i, \<lparr>view_title = pb_item_Title x, view_description = pb_item_Description x,
        view_completed = pb_item_Completed x,
        view_due = (case pb_item_DueDate x of None \<Rightarrow> zero_Time | Some ts \<Rightarrow> AsTime ts),
        view_created = AsTime (pb_item_CreationTime x)\<rparr>)) (parsed uuid_Parse (pb_item_Id x)))
      (ToProto_loop us ts items []) = map (\<lambda>x. (item_ID x, view_in_UTC (view_of x))) items" for items
    unfolding ToProto_loop_eq
    by (induction items) (simp_all add: List.map_filter_def parsed_def assms view_in_UTC_def view_of_def in_UTC_zero)
  moreover have "map_of (map (\<lambda>x. (item_ID x, view_in_UTC (view_of x))) items) =
      map_option view_in_UTC \<circ> map_of (map (\<lambda>x. (item_ID x, view_of x)) items)" for items
    by (induction items) (auto simp: fun_eq_iff)
  ultimately show ?thesis by (simp add: pb_board_def ToProto_def board_def)
qed

text \<open>A call of \<open>GetTodoList\<close> on the service of \<open>main.go\<close> changes nothing. It answers
  \<open>InvalidArgument\<close> for an identifier that does not parse or is nil and \<open>NotFound\<close> for a list that is
  not stored; otherwise with a message from which a client reads back the stored list: its
  identifier, title and owner, and the map from item identifiers to items with their times in UTC,
  an unset due date meaning none.\<close>

lemma GetTodoList_answers:
  assumes "logs_ok us st" and "lists_ok (stored_lists us st)"
    and "\<And>i. uuid_Parse (us i) = Inr i" and "\<And>t. AsTime (timestamp_New t) = in_UTC t"
  shows "\<exists>r st'. GetTodoList uuid_Parse us timestamp_New (server clock (todoListRepository us)) Background
       \<lparr>greq_TodoListId = s\<rparr> st = Some (r, st') \<and> stored_lists us st' = stored_lists us st \<and> logs_ok us st' \<and>
     (case parsed uuid_Parse s of
        None \<Rightarrow> \<exists>e. r = Inl e \<and> code e = CodeInvalidArgument
      | Some l \<Rightarrow>
          if l = uuid_Nil then \<exists>e. r = Inl e \<and> code e = CodeInvalidArgument
          else case stored_lists us st l of
                 None \<Rightarrow> \<exists>e. r = Inl e \<and> code e = CodeNotFound
               | Some todo \<Rightarrow> \<exists>pb. r = Inr pb \<and> uuid_Parse (pb_Id pb) = Inr l \<and> pb_Title pb = list_Title todo \<and>
                   pb_Owner pb = list_Owner todo \<and> AsTime (pb_CreationTime pb) = in_UTC (list_CreationTime todo) \<and>
                   pb_board uuid_Parse AsTime pb = map_option view_in_UTC \<circ> board todo)"
proof (cases "parsed uuid_Parse s")
  case None
  then show ?thesis
    using assms(1) by (auto simp: GetTodoList_def parseUUIDField_def parsed_def split: sum.splits)
next
  case (Some l)
  have "get_ID (Message (Query_ToEnvelope \<lparr>get_ID = l\<rparr>)) = l" by (simp add: Query_ToEnvelope_def)
  from todo_mem.get_request [OF assms(1) this] obtain r st' where
    h: "GetQueryHandler_Handle (Get (todoListRepository us)) Background (Query_ToEnvelope \<lparr>get_ID = l\<rparr>) st = Some (r, st')"
    and st': "stored_lists us st' = stored_lists us st" "logs_ok us st'"
    and r: "case stored_lists us st l of
        Some todo \<Rightarrow> r = (if l = uuid_Nil then r else Inr todo)
      | None \<Rightarrow> \<exists>e. r = Inl e \<and> caused_by e (if l = uuid_Nil then ErrEmptyID else ErrRootNotFound)"
    and nil: "l = uuid_Nil \<longrightarrow> (\<exists>e. r = Inl e \<and> caused_by e ErrEmptyID)" by blast
  have call: "GetTodoList uuid_Parse us timestamp_New (server clock (todoListRepository us)) Background
      \<lparr>greq_TodoListId = s\<rparr> st =
      (case r of Inl e \<Rightarrow> Some (Inl (mapCommandError ''todolist.ConnectServiceHandler.GetTodoList'' e), st')
       | Inr todo \<Rightarrow> Some (Inr (ToProto us timestamp_New todo), st'))"
    using Some h by (auto simp: GetTodoList_def server_def parseUUIDField_def parsed_def split: sum.splits)
  have codes: "code_of ErrEmptyID = CodeInvalidArgument" "code_of ErrRootNotFound = CodeNotFound"
    by (simp_all add: code_of_def todo_error_defs ErrRootNotFound_def)
  show ?thesis
  proof (cases "l = uuid_Nil")
    case True
    with nil Some call st' show ?thesis by (auto simp: code_mapCommandError codes)
  next
    case False
    show ?thesis
    proof (cases "stored_lists us st l")
      case None
      with False r Some call st' show ?thesis by (auto simp: code_mapCommandError codes)
    next
      case (Some todo)
      with assms(2) have "list_ID todo = l" by (simp add: lists_ok_def)
      with False r Some \<open>parsed uuid_Parse s = Some l\<close> call st' show ?thesis
        by (simp add: pb_board_ToProto [of uuid_Parse us AsTime timestamp_New, OF assms(3,4)]) (simp add: ToProto_def assms(3,4))
    qed
  qed
qed

end
