(* ===== verification/Todo_Rpc.thy ===== *)
theory Todo_Rpc
  imports Go_Http Todo_Connect
begin

text \<open>
  The client and the server side that the Connect plugin generated for the todo list service,
  \<open>examples/todolist/gen/todolist/v1/todolistv1connect/todo_list_service.connect.go\<close>, and the multiplexer \<open>main.go\<close> mounts it on.

  The connect library is a parameter: for each pair of message types, how it makes a handler of a method and a client of a URL. Its documented
  behaviour is \<open>unary_contract\<close>. Options are left out. \<open>'b\<close> is what a request carries beside its path, \<open>'w\<close> what a handler of the library writes.
\<close>

section \<open>The connect library\<close>

type_synonym ('m, 'r, 'st) unary = "ctx \<Rightarrow> 'm \<Rightarrow> 'st \<Rightarrow> ('r, 'st) answer"

record ('m, 'r, 'st) Client =
  CallUnary :: "('m, 'r, 'st) unary"

record ('b, 'w, 'm, 'r, 'st) connect_unary =
  NewUnaryHandler :: "string \<Rightarrow> ('m, 'r, 'st) unary \<Rightarrow> ('b, 'w, 'st) http_Handler"
  NewClient :: "('b, 'w, 'st) HTTPClient \<Rightarrow> string \<Rightarrow> ('m, 'r, 'st) Client"

record ('b, 'w, 'ts, 'st) connect_api =
  api_Create :: "('b, 'w, CreateTodoListRequest, unit, 'st) connect_unary"
  api_Get :: "('b, 'w, GetTodoListRequest, 'ts pb_TodoList, 'st) connect_unary"
  api_Add :: "('b, 'w, 'ts AddTodoItemRequest, unit, 'st) connect_unary"
  api_Done :: "('b, 'w, TodoItemRequest, unit, 'st) connect_unary"
  api_Pending :: "('b, 'w, TodoItemRequest, unit, 'st) connect_unary"
  api_Delete :: "('b, 'w, TodoItemRequest, unit, 'st) connect_unary"

section \<open>Names\<close>

definition TodoListServiceName :: string where
  "TodoListServiceName = ''todolist.v1.TodoListService''"

definition TodoListServiceCreateTodoListProcedure :: string where
  "TodoListServiceCreateTodoListProcedure = ''/todolist.v1.TodoListService/CreateTodoList''"

definition TodoListServiceGetTodoListProcedure :: string where
  "TodoListServiceGetTodoListProcedure = ''/todolist.v1.TodoListService/GetTodoList''"

definition TodoListServiceAddTodoItemProcedure :: string where
  "TodoListServiceAddTodoItemProcedure = ''/todolist.v1.TodoListService/AddTodoItem''"

definition TodoListServiceMarkTodoItemAsDoneProcedure :: string where
  "TodoListServiceMarkTodoItemAsDoneProcedure = ''/todolist.v1.TodoListService/MarkTodoItemAsDone''"

definition TodoListServiceMarkTodoItemAsPendingProcedure :: string where
  "TodoListServiceMarkTodoItemAsPendingProcedure = ''/todolist.v1.TodoListService/MarkTodoItemAsPending''"

definition TodoListServiceDeleteTodoItemProcedure :: string where
  "TodoListServiceDeleteTodoItemProcedure = ''/todolist.v1.TodoListService/DeleteTodoItem''"

lemmas procedure_defs = TodoListServiceCreateTodoListProcedure_def TodoListServiceGetTodoListProcedure_def
  TodoListServiceAddTodoItemProcedure_def TodoListServiceMarkTodoItemAsDoneProcedure_def
  TodoListServiceMarkTodoItemAsPendingProcedure_def TodoListServiceDeleteTodoItemProcedure_def

section \<open>The client\<close>

record ('ts, 'st) TodoListServiceClient =
  cl_CreateTodoList :: "(CreateTodoListRequest, unit, 'st) unary"
  cl_GetTodoList :: "(GetTodoListRequest, 'ts pb_TodoList, 'st) unary"
  cl_AddTodoItem :: "('ts AddTodoItemRequest, unit, 'st) unary"
  cl_MarkTodoItemAsDone :: "(TodoItemRequest, unit, 'st) unary"
  cl_MarkTodoItemAsPending :: "(TodoItemRequest, unit, 'st) unary"
  cl_DeleteTodoItem :: "(TodoItemRequest, unit, 'st) unary"

record ('ts, 'st) todoListServiceClient =
  createTodoList :: "(CreateTodoListRequest, unit, 'st) Client"
  getTodoList :: "(GetTodoListRequest, 'ts pb_TodoList, 'st) Client"
  addTodoItem :: "('ts AddTodoItemRequest, unit, 'st) Client"
  markTodoItemAsDone :: "(TodoItemRequest, unit, 'st) Client"
  markTodoItemAsPending :: "(TodoItemRequest, unit, 'st) Client"
  deleteTodoItem :: "(TodoItemRequest, unit, 'st) Client"

definition client_CreateTodoList :: "('ts, 'st) todoListServiceClient \<Rightarrow> (CreateTodoListRequest, unit, 'st) unary" where
  "client_CreateTodoList c ctx req = CallUnary (createTodoList c) ctx req"

definition client_GetTodoList :: "('ts, 'st) todoListServiceClient \<Rightarrow> (GetTodoListRequest, 'ts pb_TodoList, 'st) unary" where
  "client_GetTodoList c ctx req = CallUnary (getTodoList c) ctx req"

definition client_AddTodoItem :: "('ts, 'st) todoListServiceClient \<Rightarrow> ('ts AddTodoItemRequest, unit, 'st) unary" where
  "client_AddTodoItem c ctx req = CallUnary (addTodoItem c) ctx req"

definition client_MarkTodoItemAsDone :: "('ts, 'st) todoListServiceClient \<Rightarrow> (TodoItemRequest, unit, 'st) unary" where
  "client_MarkTodoItemAsDone c ctx req = CallUnary (markTodoItemAsDone c) ctx req"

definition client_MarkTodoItemAsPending :: "('ts, 'st) todoListServiceClient \<Rightarrow> (TodoItemRequest, unit, 'st) unary" where
  "client_MarkTodoItemAsPending c ctx req = CallUnary (markTodoItemAsPending c) ctx req"

definition client_DeleteTodoItem :: "('ts, 'st) todoListServiceClient \<Rightarrow> (TodoItemRequest, unit, 'st) unary" where
  "client_DeleteTodoItem c ctx req = CallUnary (deleteTodoItem c) ctx req"

text \<open>The struct behind the interface.\<close>

definition as_TodoListServiceClient :: "('ts, 'st) todoListServiceClient \<Rightarrow> ('ts, 'st) TodoListServiceClient" where
  "as_TodoListServiceClient c =
     \<lparr>cl_CreateTodoList = client_CreateTodoList c, cl_GetTodoList = client_GetTodoList c,
      cl_AddTodoItem = client_AddTodoItem c, cl_MarkTodoItemAsDone = client_MarkTodoItemAsDone c,
      cl_MarkTodoItemAsPending = client_MarkTodoItemAsPending c, cl_DeleteTodoItem = client_DeleteTodoItem c\<rparr>"

definition NewTodoListServiceClient ::
  "('b, 'w, 'ts, 'st) connect_api \<Rightarrow> ('b, 'w, 'st) HTTPClient \<Rightarrow> string \<Rightarrow> ('ts, 'st) TodoListServiceClient" where
  "NewTodoListServiceClient api httpClient baseURL =
     (let baseURL = TrimRight baseURL (CHR ''/'') in
      as_TodoListServiceClient
        \<lparr>createTodoList = NewClient (api_Create api) httpClient (baseURL @ TodoListServiceCreateTodoListProcedure),
         getTodoList = NewClient (api_Get api) httpClient (baseURL @ TodoListServiceGetTodoListProcedure),
         addTodoItem = NewClient (api_Add api) httpClient (baseURL @ TodoListServiceAddTodoItemProcedure),
         markTodoItemAsDone = NewClient (api_Done api) httpClient (baseURL @ TodoListServiceMarkTodoItemAsDoneProcedure),
         markTodoItemAsPending = NewClient (api_Pending api) httpClient (baseURL @ TodoListServiceMarkTodoItemAsPendingProcedure),
         deleteTodoItem = NewClient (api_Delete api) httpClient (baseURL @ TodoListServiceDeleteTodoItemProcedure)\<rparr>)"

section \<open>The handler\<close>

record ('ts, 'st) TodoListServiceHandler =
  svc_CreateTodoList :: "(CreateTodoListRequest, unit, 'st) unary"
  svc_GetTodoList :: "(GetTodoListRequest, 'ts pb_TodoList, 'st) unary"
  svc_AddTodoItem :: "('ts AddTodoItemRequest, unit, 'st) unary"
  svc_MarkTodoItemAsDone :: "(TodoItemRequest, unit, 'st) unary"
  svc_MarkTodoItemAsPending :: "(TodoItemRequest, unit, 'st) unary"
  svc_DeleteTodoItem :: "(TodoItemRequest, unit, 'st) unary"

definition NewTodoListServiceHandler ::
  "('b, 'w, 'ts, 'st) connect_api \<Rightarrow> ('ts, 'st) TodoListServiceHandler \<Rightarrow> string \<times> ('b, 'w, 'st) http_Handler" where
  "NewTodoListServiceHandler api svc =
     (let create = NewUnaryHandler (api_Create api) TodoListServiceCreateTodoListProcedure (svc_CreateTodoList svc);
          get = NewUnaryHandler (api_Get api) TodoListServiceGetTodoListProcedure (svc_GetTodoList svc);
          add = NewUnaryHandler (api_Add api) TodoListServiceAddTodoItemProcedure (svc_AddTodoItem svc);
          markDone = NewUnaryHandler (api_Done api) TodoListServiceMarkTodoItemAsDoneProcedure (svc_MarkTodoItemAsDone svc);
          markPending = NewUnaryHandler (api_Pending api) TodoListServiceMarkTodoItemAsPendingProcedure
            (svc_MarkTodoItemAsPending svc);
          delete = NewUnaryHandler (api_Delete api) TodoListServiceDeleteTodoItemProcedure (svc_DeleteTodoItem svc)
      in (''/todolist.v1.TodoListService/'',
          \<lambda>r. if URL_Path r = TodoListServiceCreateTodoListProcedure then create r
              else if URL_Path r = TodoListServiceGetTodoListProcedure then get r
              else if URL_Path r = TodoListServiceAddTodoItemProcedure then add r
              else if URL_Path r = TodoListServiceMarkTodoItemAsDoneProcedure then markDone r
              else if URL_Path r = TodoListServiceMarkTodoItemAsPendingProcedure then markPending r
              else if URL_Path r = TodoListServiceDeleteTodoItemProcedure then delete r
              else http_NotFound r))"

text \<open>The methods of \<open>UnimplementedTodoListServiceHandler\<close>; the request is not looked at.\<close>

definition unimplemented :: "string \<Rightarrow> ('m, 'r, 'st) unary" where
  "unimplemented message ctx req st = Some (Inl \<lparr>code = CodeUnimplemented, cause = Sentinel message\<rparr>, st)"

definition UnimplementedTodoListServiceHandler :: "('ts, 'st) TodoListServiceHandler" where
  "UnimplementedTodoListServiceHandler =
     \<lparr>svc_CreateTodoList = unimplemented ''todolist.v1.TodoListService.CreateTodoList is not implemented'',
      svc_GetTodoList = unimplemented ''todolist.v1.TodoListService.GetTodoList is not implemented'',
      svc_AddTodoItem = unimplemented ''todolist.v1.TodoListService.AddTodoItem is not implemented'',
      svc_MarkTodoItemAsDone = unimplemented ''todolist.v1.TodoListService.MarkTodoItemAsDone is not implemented'',
      svc_MarkTodoItemAsPending = unimplemented ''todolist.v1.TodoListService.MarkTodoItemAsPending is not implemented'',
      svc_DeleteTodoItem = unimplemented ''todolist.v1.TodoListService.DeleteTodoItem is not implemented''\<rparr>"

text \<open>\<open>ConnectServiceHandler\<close> embeds \<open>UnimplementedTodoListServiceHandler\<close> and overrides every method of it.\<close>

definition as_TodoListServiceHandler ::
  "(string \<Rightarrow> error + UUID) \<Rightarrow> (UUID \<Rightarrow> string) \<Rightarrow> ('ts \<Rightarrow> Time) \<Rightarrow> (Time \<Rightarrow> 'ts) \<Rightarrow> 'st ConnectServiceHandler \<Rightarrow>
   ('ts, 'st) TodoListServiceHandler" where
  "as_TodoListServiceHandler uuid_Parse uuid_String AsTime timestamp_New srv = UnimplementedTodoListServiceHandler
     \<lparr>svc_CreateTodoList := CreateTodoList uuid_Parse srv,
      svc_GetTodoList := GetTodoList uuid_Parse uuid_String timestamp_New srv,
      svc_AddTodoItem := AddTodoItem uuid_Parse AsTime srv,
      svc_MarkTodoItemAsDone := MarkTodoItemAsDone uuid_Parse srv,
      svc_MarkTodoItemAsPending := MarkTodoItemAsPending uuid_Parse srv,
      svc_DeleteTodoItem := DeleteTodoItem uuid_Parse srv\<rparr>"

section \<open>The multiplexer of the process\<close>

text \<open>
  The handlers of the health and reflection services, with their paths, are those of packages \<open>grpchealth\<close> and \<open>grpcreflect\<close>.
  \<open>None\<close> is the panic of a pattern that is registered twice.
\<close>

definition main_mux ::
  "('b, 'w, 'ts, 'st) connect_api \<Rightarrow> (string \<Rightarrow> string \<times> ('b, 'w, 'st) http_Handler) \<Rightarrow>
   (string \<Rightarrow> string \<times> ('b, 'w, 'st) http_Handler) \<Rightarrow> (string \<Rightarrow> string \<times> ('b, 'w, 'st) http_Handler) \<Rightarrow>
   ('ts, 'st) TodoListServiceHandler \<Rightarrow> ('b, 'w, 'st) ServeMux option" where
  "main_mux api health_NewHandler reflect_NewHandlerV1 reflect_NewHandlerV1Alpha server' =
     Option.bind (mux_Handle (NewTodoListServiceHandler api server') NewServeMux) (\<lambda>mux.
     Option.bind (mux_Handle (health_NewHandler TodoListServiceName) mux) (\<lambda>mux.
     Option.bind (mux_Handle (reflect_NewHandlerV1 TodoListServiceName) mux) (\<lambda>mux.
     mux_Handle (reflect_NewHandlerV1Alpha TodoListServiceName) mux)))"

section \<open>The behaviour relied on\<close>

text \<open>
  What the connect library documents for unary calls: a handler decodes the message a client posted, runs the method and writes
  its result; a client posts a message to its URL and reads the result from the response, and reads a 404 as \<open>CodeUnimplemented\<close>.
  A response comes back as it was, an error at least with its code.
\<close>

definition unary_contract :: "('b, 'w, 'm, 'r, 'st) connect_unary \<Rightarrow> bool" where
  "unary_contract con \<longleftrightarrow> (\<exists>post reply read.
     (\<forall>path f m st r st'. f Background m st = Some (r, st') \<longrightarrow>
        NewUnaryHandler con path f \<lparr>URL_Path = path, payload = post m\<rparr> st = Some (Reply (reply r), st')) \<and>
     (\<forall>httpClient url m st resp st'. httpClient url (post m) st = (Inr resp, st') \<longrightarrow>
        CallUnary (NewClient con httpClient url) Background m st = Some (read resp, st')) \<and>
     (\<forall>r. read (Reply (reply (Inr r))) = Inr r) \<and>
     (\<forall>e. \<exists>e'. read (Reply (reply (Inl e))) = Inl e' \<and> code e' = code e) \<and>
     (\<exists>e. read NotFound404 = Inl e \<and> code e = CodeUnimplemented))"

definition api_contract :: "('b, 'w, 'ts, 'st) connect_api \<Rightarrow> bool" where
  "api_contract api \<longleftrightarrow> unary_contract (api_Create api) \<and> unary_contract (api_Get api) \<and> unary_contract (api_Add api) \<and>
     unary_contract (api_Done api) \<and> unary_contract (api_Pending api) \<and> unary_contract (api_Delete api)"

text \<open>A network that hands the requests to URLs below \<open>origin\<close> to a server and brings its responses back.\<close>

definition reaches :: "('b, 'w, 'st) HTTPClient \<Rightarrow> string \<Rightarrow> ('b, 'w, 'st) http_Handler \<Rightarrow> bool" where
  "reaches httpClient origin h \<longleftrightarrow> (\<forall>path b st resp st'. h \<lparr>URL_Path = path, payload = b\<rparr> st = Some (resp, st') \<longrightarrow>
     httpClient (origin @ path) b st = (Inr resp, st'))"

text \<open>Two answers a client cannot tell apart by their results and codes.\<close>

fun same_answer :: "('r, 'st) answer \<Rightarrow> ('r, 'st) answer \<Rightarrow> bool" where
  "same_answer (Some (Inr r, st)) (Some (Inr r', st')) \<longleftrightarrow> r = r' \<and> st = st'"
| "same_answer (Some (Inl e, st)) (Some (Inl e', st')) \<longleftrightarrow> code e = code e' \<and> st = st'"
| "same_answer _ _ \<longleftrightarrow> False"

text \<open>Calling a method remotely is calling it: whenever the method returns, the call answers the same.\<close>

definition calls_through :: "('m, 'r, 'st) unary \<Rightarrow> ('m, 'r, 'st) unary \<Rightarrow> bool" where
  "calls_through call method \<longleftrightarrow>
     (\<forall>req st. method Background req st \<noteq> None \<longrightarrow> same_answer (call Background req st) (method Background req st))"

lemma unary_calls_through:
  assumes "unary_contract con" and "reaches httpClient origin h"
    and "\<And>b. h \<lparr>URL_Path = path, payload = b\<rparr> = NewUnaryHandler con path f \<lparr>URL_Path = path, payload = b\<rparr>"
  shows "calls_through (CallUnary (NewClient con httpClient (origin @ path))) f"
proof -
  from assms(1) obtain post reply read where
    srv: "\<And>m st r st'. f Background m st = Some (r, st') \<Longrightarrow>
        NewUnaryHandler con path f \<lparr>URL_Path = path, payload = post m\<rparr> st = Some (Reply (reply r), st')"
    and cl: "\<And>m st resp st'. httpClient (origin @ path) (post m) st = (Inr resp, st') \<Longrightarrow>
        CallUnary (NewClient con httpClient (origin @ path)) Background m st = Some (read resp, st')"
    and ok: "\<And>r. read (Reply (reply (Inr r))) = Inr r"
    and bad: "\<And>e. \<exists>e'. read (Reply (reply (Inl e))) = Inl e' \<and> code e' = code e"
    unfolding unary_contract_def by metis
  show ?thesis
    unfolding calls_through_def
  proof (intro allI impI)
    fix req st
    assume "f Background req st \<noteq> None"
    then obtain r st' where f: "f Background req st = Some (r, st')" by auto
    from srv [OF f] assms(2,3) have "httpClient (origin @ path) (post req) st = (Inr (Reply (reply r)), st')"
      by (simp add: reaches_def)
    then have call: "CallUnary (NewClient con httpClient (origin @ path)) Background req st = Some (read (Reply (reply r)), st')"
      by (rule cl)
    show "same_answer (CallUnary (NewClient con httpClient (origin @ path)) Background req st) (f Background req st)"
    proof (cases r)
      case (Inl e)
      with call f bad [of e] show ?thesis by auto
    next
      case (Inr x)
      with call f ok show ?thesis by simp
    qed
  qed
qed

section \<open>Routing\<close>

definition service_paths :: "string set" where
  "service_paths = {TodoListServiceCreateTodoListProcedure, TodoListServiceGetTodoListProcedure,
     TodoListServiceAddTodoItemProcedure, TodoListServiceMarkTodoItemAsDoneProcedure,
     TodoListServiceMarkTodoItemAsPendingProcedure, TodoListServiceDeleteTodoItemProcedure}"

text \<open>Where packages \<open>grpchealth\<close> and \<open>grpcreflect\<close> document their handlers to be mounted.\<close>

definition documented_mounts :: "(string \<times> 'h) \<Rightarrow> (string \<times> 'h) \<Rightarrow> (string \<times> 'h) \<Rightarrow> bool" where
  "documented_mounts health reflect alpha \<longleftrightarrow> fst health = ''/grpc.health.v1.Health/'' \<and>
     fst reflect = ''/grpc.reflection.v1.ServerReflection/'' \<and> fst alpha = ''/grpc.reflection.v1alpha.ServerReflection/''"

lemma clean_service_paths: "p \<in> service_paths \<Longrightarrow> cleanPath p = p"
  by (auto simp: service_paths_def procedure_defs cleanPath_def Let_def)

lemma service_path_prefix: "p \<in> service_paths \<Longrightarrow> \<exists>c cs. p = ''/todolist.v1.TodoListService/'' @ c # cs \<and> last p \<noteq> CHR ''/''"
  by (auto simp: service_paths_def procedure_defs)

lemma main_mux_eq:
  assumes "documented_mounts (health TodoListServiceName) (reflect TodoListServiceName) (alpha TodoListServiceName)"
  shows "main_mux api health reflect alpha svc = Some [NewTodoListServiceHandler api svc, health TodoListServiceName,
     reflect TodoListServiceName, alpha TodoListServiceName]"
  using assms by (simp add: main_mux_def mux_Handle_def NewServeMux_def documented_mounts_def NewTodoListServiceHandler_def Let_def)

text \<open>The multiplexer of the process hands every path of the service to the service's handler.\<close>

lemma main_mux_routes:
  assumes "documented_mounts (health TodoListServiceName) (reflect TodoListServiceName) (alpha TodoListServiceName)"
    and "main_mux api health reflect alpha svc = Some mux" and "path \<in> service_paths"
  shows "mux_ServeHTTP mux \<lparr>URL_Path = path, payload = b\<rparr> =
     snd (NewTodoListServiceHandler api svc) \<lparr>URL_Path = path, payload = b\<rparr>"
proof -
  have mux: "mux = [NewTodoListServiceHandler api svc, health TodoListServiceName, reflect TodoListServiceName,
      alpha TodoListServiceName]"
    using main_mux_eq [of health reflect alpha api svc] assms(1,2) by simp
  obtain c cs where p: "path = ''/todolist.v1.TodoListService/'' @ c # cs" and l: "last path \<noteq> CHR ''/''"
    using service_path_prefix [OF assms(3)] by blast
  have "path @ ''/'' \<notin> fst ` set mux"
    using assms(1) by (simp add: mux p documented_mounts_def NewTodoListServiceHandler_def Let_def)
  moreover have "mux_match mux path = Some (NewTodoListServiceHandler api svc)"
    using assms(1) by (cases "health TodoListServiceName"; cases "reflect TodoListServiceName"; cases "alpha TodoListServiceName")
      (simp add: mux p documented_mounts_def NewTodoListServiceHandler_def Let_def pattern_matches_def)
  ultimately show ?thesis
    using clean_service_paths [OF assms(3)]
    by (auto simp: fun_eq_iff mux_ServeHTTP_def NewTodoListServiceHandler_def Let_def)
qed

section \<open>Remote calls are calls\<close>

lemma client_methods:
  "client_CreateTodoList c = CallUnary (createTodoList c)" "client_GetTodoList c = CallUnary (getTodoList c)"
  "client_AddTodoItem c = CallUnary (addTodoItem c)" "client_MarkTodoItemAsDone c = CallUnary (markTodoItemAsDone c)"
  "client_MarkTodoItemAsPending c = CallUnary (markTodoItemAsPending c)" "client_DeleteTodoItem c = CallUnary (deleteTodoItem c)"
  by (simp_all add: fun_eq_iff client_CreateTodoList_def client_GetTodoList_def client_AddTodoItem_def
      client_MarkTodoItemAsDone_def client_MarkTodoItemAsPending_def client_DeleteTodoItem_def)

text \<open>A process that serves \<open>svc\<close> at \<open>baseURL\<close>, as a client with that network meets it.\<close>

definition serves ::
  "('b, 'w, 'ts, 'st) connect_api \<Rightarrow> (string \<Rightarrow> string \<times> ('b, 'w, 'st) http_Handler) \<Rightarrow>
   (string \<Rightarrow> string \<times> ('b, 'w, 'st) http_Handler) \<Rightarrow> (string \<Rightarrow> string \<times> ('b, 'w, 'st) http_Handler) \<Rightarrow>
   ('ts, 'st) TodoListServiceHandler \<Rightarrow> ('b, 'w, 'st) HTTPClient \<Rightarrow> string \<Rightarrow> bool" where
  "serves api health reflect alpha svc httpClient baseURL \<longleftrightarrow>
     documented_mounts (health TodoListServiceName) (reflect TodoListServiceName) (alpha TodoListServiceName) \<and>
     (\<forall>mux. main_mux api health reflect alpha svc = Some mux \<longrightarrow>
        reaches httpClient (TrimRight baseURL (CHR ''/'')) (mux_ServeHTTP mux))"

text \<open>What every method is called through: its own URL, the multiplexer and its own case of the handler.\<close>

lemma method_calls_through:
  assumes "serves api health reflect alpha svc httpClient baseURL" and "unary_contract con" and "path \<in> service_paths"
    and "\<And>b. snd (NewTodoListServiceHandler api svc) \<lparr>URL_Path = path, payload = b\<rparr> =
       NewUnaryHandler con path f \<lparr>URL_Path = path, payload = b\<rparr>"
  shows "calls_through (CallUnary (NewClient con httpClient (TrimRight baseURL (CHR ''/'') @ path))) f"
proof -
  from assms(1) have d: "documented_mounts (health TodoListServiceName) (reflect TodoListServiceName) (alpha TodoListServiceName)"
    by (simp add: serves_def)
  obtain mux where mux: "main_mux api health reflect alpha svc = Some mux"
    using main_mux_eq [of health reflect alpha api svc] d by simp
  with assms(1) have "reaches httpClient (TrimRight baseURL (CHR ''/'')) (mux_ServeHTTP mux)" by (simp add: serves_def)
  from unary_calls_through [OF assms(2) this] main_mux_routes [of health reflect alpha api svc mux, OF d mux assms(3)] assms(4)
  show ?thesis by simp
qed

lemmas method_case_simps = NewTodoListServiceHandler_def Let_def procedure_defs service_paths_def api_contract_def

lemma remote_methods_core:
  assumes "serves api health reflect alpha svc httpClient baseURL" and "api_contract api"
    and client: "client = NewTodoListServiceClient api httpClient baseURL"
  shows "calls_through (cl_CreateTodoList client) (svc_CreateTodoList svc)"
    and "calls_through (cl_GetTodoList client) (svc_GetTodoList svc)"
    and "calls_through (cl_AddTodoItem client) (svc_AddTodoItem svc)"
    and "calls_through (cl_MarkTodoItemAsDone client) (svc_MarkTodoItemAsDone svc)"
    and "calls_through (cl_MarkTodoItemAsPending client) (svc_MarkTodoItemAsPending svc)"
    and "calls_through (cl_DeleteTodoItem client) (svc_DeleteTodoItem svc)"
  unfolding client NewTodoListServiceClient_def as_TodoListServiceClient_def Let_def client_methods
    TodoListServiceClient.simps todoListServiceClient.simps
  using assms(2) by (auto intro!: method_calls_through [OF assms(1)] simp: method_case_simps)

section \<open>A library and a network for the witnesses\<close>

text \<open>Messages go over this wire as they are.\<close>

datatype 'ts wire_request =
    wire_Create (read_Create: CreateTodoListRequest)
  | wire_Get (read_Get: GetTodoListRequest)
  | wire_Add (read_Add: "'ts AddTodoItemRequest")
  | wire_Item (read_Item: TodoItemRequest)

datatype 'ts wire_reply =
    wire_Empty (read_Empty: "connect_error + unit")
  | wire_List (read_List: "connect_error + 'ts pb_TodoList")

definition direct_unary ::
  "('m \<Rightarrow> 'b) \<Rightarrow> ('b \<Rightarrow> 'm) \<Rightarrow> (connect_error + 'r \<Rightarrow> 'w) \<Rightarrow> ('w \<Rightarrow> connect_error + 'r) \<Rightarrow> ('b, 'w, 'm, 'r, 'st) connect_unary" where
  "direct_unary post unpost reply unreply =
     \<lparr>NewUnaryHandler = \<lambda>path f r st.
        map_option (\<lambda>(x, st'). (Reply (reply x), st')) (f Background (unpost (payload r)) st),
      NewClient = \<lambda>httpClient url. \<lparr>CallUnary = \<lambda>ctx m st.
        (case httpClient url (post m) st of
           (Inr (Reply w), st') \<Rightarrow> Some (unreply w, st')
         | (Inr NotFound404, st') \<Rightarrow> Some (Inl \<lparr>code = CodeUnimplemented, cause = Sentinel ''404 Not Found''\<rparr>, st')
         | (Inr (RedirectTo u), st') \<Rightarrow> Some (Inl \<lparr>code = CodeInternal, cause = Sentinel ''redirected''\<rparr>, st')
         | (Inl e, st') \<Rightarrow> Some (Inl \<lparr>code = CodeInternal, cause = e\<rparr>, st'))\<rparr>\<rparr>"

lemma direct_unary_contract:
  assumes "\<And>m. unpost (post m) = m" and "\<And>x. unreply (reply x) = x"
  shows "unary_contract (direct_unary post unpost reply unreply)"
  unfolding unary_contract_def
  by (rule exI [of _ post], rule exI [of _ reply],
      rule exI [of _ "case_http_Response (Inl \<lparr>code = CodeUnimplemented, cause = Sentinel ''404 Not Found''\<rparr>)
        (\<lambda>u. Inl \<lparr>code = CodeInternal, cause = Sentinel ''redirected''\<rparr>) unreply"])
    (auto simp: direct_unary_def assms split: http_Response.splits)

definition direct_api :: "('ts wire_request, 'ts wire_reply, 'ts, 'st) connect_api" where
  "direct_api =
     \<lparr>api_Create = direct_unary wire_Create read_Create wire_Empty read_Empty,
      api_Get = direct_unary wire_Get read_Get wire_List read_List,
      api_Add = direct_unary wire_Add read_Add wire_Empty read_Empty,
      api_Done = direct_unary wire_Item read_Item wire_Empty read_Empty,
      api_Pending = direct_unary wire_Item read_Item wire_Empty read_Empty,
      api_Delete = direct_unary wire_Item read_Item wire_Empty read_Empty\<rparr>"

lemma direct_api_contract: "api_contract direct_api"
  by (simp add: api_contract_def direct_api_def direct_unary_contract)

definition loopback :: "string \<Rightarrow> ('b, 'w, 'st) http_Handler option \<Rightarrow> ('b, 'w, 'st) HTTPClient" where
  "loopback origin h url b st =
     (case Option.bind h (\<lambda>h. h \<lparr>URL_Path = drop (length origin) url, payload = b\<rparr> st) of
        Some (resp, st') \<Rightarrow> (Inr resp, st')
      | None \<Rightarrow> (Inl (Sentinel ''EOF''), st))"

text \<open>The other handlers of the process, which nobody asks here.\<close>

definition mounted :: "string \<Rightarrow> string \<Rightarrow> string \<times> ('b, 'w, 'st) http_Handler" where
  "mounted path name = (path, http_NotFound)"

definition sample_client :: "('ts, 'st) TodoListServiceHandler \<Rightarrow> ('ts wire_request, 'ts wire_reply, 'st) HTTPClient" where
  "sample_client svc = loopback ''http://localhost:8080'' (map_option mux_ServeHTTP
     (main_mux direct_api (mounted ''/grpc.health.v1.Health/'') (mounted ''/grpc.reflection.v1.ServerReflection/'')
        (mounted ''/grpc.reflection.v1alpha.ServerReflection/'') svc))"

lemma sample_serves:
  "serves direct_api (mounted ''/grpc.health.v1.Health/'') (mounted ''/grpc.reflection.v1.ServerReflection/'')
     (mounted ''/grpc.reflection.v1alpha.ServerReflection/'') svc (sample_client svc) ''http://localhost:8080''"
  by (auto simp: serves_def documented_mounts_def mounted_def reaches_def sample_client_def loopback_def TrimRight_def)

section \<open>Property\<close>

text \<open>C3: A client that \<open>NewTodoListServiceClient\<close> makes for the base URL of a process (any number of slashes behind it), whose
  multiplexer carries the handler that \<open>NewTodoListServiceHandler\<close> makes of a service beside the health and reflection services,
  calls through to that service: each of its six methods answers what the method of the same name of the service answers, with the same
  effect, whenever that method returns; no call is routed to another method, to another service or to the not-found
  handler.\<close>

theorem remote_methods:
  assumes "api_contract api" and "serves api health reflect alpha svc httpClient baseURL"
  shows "let client = NewTodoListServiceClient api httpClient (baseURL @ replicate n (CHR ''/'')) in
     calls_through (cl_CreateTodoList client) (svc_CreateTodoList svc) \<and>
     calls_through (cl_GetTodoList client) (svc_GetTodoList svc) \<and>
     calls_through (cl_AddTodoItem client) (svc_AddTodoItem svc) \<and>
     calls_through (cl_MarkTodoItemAsDone client) (svc_MarkTodoItemAsDone svc) \<and>
     calls_through (cl_MarkTodoItemAsPending client) (svc_MarkTodoItemAsPending svc) \<and>
     calls_through (cl_DeleteTodoItem client) (svc_DeleteTodoItem svc)"
proof -
  have "serves api health reflect alpha svc httpClient (baseURL @ replicate n (CHR ''/''))"
    using assms(2) by (simp add: serves_def TrimRight_append)
  from remote_methods_core [OF this assms(1) refl] show ?thesis by (simp add: Let_def)
qed

theorem remote_methods_witness:
  "\<exists>e. cl_DeleteTodoItem (NewTodoListServiceClient direct_api
       (sample_client (UnimplementedTodoListServiceHandler :: (unit, unit) TodoListServiceHandler))
       ''http://localhost:8080//'') Background \<lparr>ireq_TodoListId = ''1'', ireq_TodoItemId = ''11''\<rparr> () = Some (Inl e, ()) \<and>
     code e = CodeUnimplemented"
proof -
  from remote_methods [OF direct_api_contract sample_serves, where n = 2 and svc = "UnimplementedTodoListServiceHandler :: (unit, unit) TodoListServiceHandler"]
  have "calls_through (cl_DeleteTodoItem (NewTodoListServiceClient direct_api
      (sample_client (UnimplementedTodoListServiceHandler :: (unit, unit) TodoListServiceHandler))
      ''http://localhost:8080//''))
      (svc_DeleteTodoItem (UnimplementedTodoListServiceHandler :: (unit, unit) TodoListServiceHandler))"
    by (simp add: Let_def numeral_2_eq_2)
  from this [unfolded calls_through_def, rule_format, of "\<lparr>ireq_TodoListId = ''1'', ireq_TodoItemId = ''11''\<rparr>" "()"]
  show ?thesis
    by (auto simp: UnimplementedTodoListServiceHandler_def unimplemented_def elim!: same_answer.elims)
qed

end
