(* ===== verification/Todo_Remote.thy ===== *)
theory Todo_Remote
  imports Todo_Rpc
begin

text \<open>
  The todo list service as its clients meet it: sequences of remote calls, commands and queries, through the generated client, the
  multiplexer, the generated routing, the transport and the handlers down to the in-memory store, against
  the abstract service.
\<close>

section \<open>Remote calls\<close>

datatype 'ts remote = RemoteCommand "'ts rpc" | RemoteQuery GetTodoListRequest

text \<open>The service of \<open>main.go\<close> while its clock shows \<open>t\<close>.\<close>

definition service_at ::
  "(string \<Rightarrow> error + UUID) \<Rightarrow> (UUID \<Rightarrow> string) \<Rightarrow> ('ts \<Rightarrow> Time) \<Rightarrow> (Time \<Rightarrow> 'ts) \<Rightarrow> Time \<Rightarrow>
   ('ts, todo_event InMemoryStore) TodoListServiceHandler" where
  "service_at uuid_Parse us AsTime timestamp_New t =
     as_TodoListServiceHandler uuid_Parse us AsTime timestamp_New (server (\<lambda>_. t) (todoListRepository us))"

text \<open>A call on the client that talks to the service while its clock shows the time of the call.\<close>

fun client_command :: "(Time \<Rightarrow> ('ts, 'st) TodoListServiceClient) \<Rightarrow> 'ts rpc \<Rightarrow> 'st \<Rightarrow> (unit, 'st) answer" where
  "client_command client (RpcCreate req now) = cl_CreateTodoList (client now) Background req"
| "client_command client (RpcAdd req now) = cl_AddTodoItem (client now) Background req"
| "client_command client (RpcDone req) = cl_MarkTodoItemAsDone (client zero_Time) Background req"
| "client_command client (RpcPending req) = cl_MarkTodoItemAsPending (client zero_Time) Background req"
| "client_command client (RpcDelete req) = cl_DeleteTodoItem (client zero_Time) Background req"

section \<open>What a client learns\<close>

record list_shown =
  shown_ID :: "ID option"
  shown_title :: string
  shown_owner :: string
  shown_created :: Time
  shown_board :: "ItemID \<rightharpoonup> item_view"

datatype outcome = Refused connect_code | Accepted | Shown list_shown

definition command_outcome :: "connect_error + unit \<Rightarrow> outcome" where
  "command_outcome r = (case r of Inl e \<Rightarrow> Refused (code e) | Inr _ \<Rightarrow> Accepted)"

definition query_outcome ::
  "(string \<Rightarrow> error + UUID) \<Rightarrow> ('ts \<Rightarrow> Time) \<Rightarrow> connect_error + 'ts pb_TodoList \<Rightarrow> outcome" where
  "query_outcome uuid_Parse AsTime r =
     (case r of
        Inl e \<Rightarrow> Refused (code e)
      | Inr pb \<Rightarrow> Shown \<lparr>shown_ID = parsed uuid_Parse (pb_Id pb), shown_title = pb_Title pb, shown_owner = pb_Owner pb,
                    shown_created = AsTime (pb_CreationTime pb), shown_board = pb_board uuid_Parse AsTime pb\<rparr>)"

fun remote_call ::
  "(string \<Rightarrow> error + UUID) \<Rightarrow> ('ts \<Rightarrow> Time) \<Rightarrow> (Time \<Rightarrow> ('ts, 'st) TodoListServiceClient) \<Rightarrow> 'ts remote \<Rightarrow> 'st \<Rightarrow>
   (outcome \<times> 'st) option" where
  "remote_call uuid_Parse AsTime client (RemoteCommand rpc) st = map_option (map_prod command_outcome id) (client_command client rpc st)"
| "remote_call uuid_Parse AsTime client (RemoteQuery req) st =
     map_option (map_prod (query_outcome uuid_Parse AsTime) id) (cl_GetTodoList (client zero_Time) Background req st)"

fun remote_run ::
  "(string \<Rightarrow> error + UUID) \<Rightarrow> ('ts \<Rightarrow> Time) \<Rightarrow> (Time \<Rightarrow> ('ts, 'st) TodoListServiceClient) \<Rightarrow> 'ts remote list \<Rightarrow> 'st \<Rightarrow>
   (outcome list \<times> 'st) option" where
  "remote_run uuid_Parse AsTime client [] st = Some ([], st)"
| "remote_run uuid_Parse AsTime client (call # calls) st =
     Option.bind (remote_call uuid_Parse AsTime client call st) (\<lambda>(x, st1).
     map_option (\<lambda>(xs, st2). (x # xs, st2)) (remote_run uuid_Parse AsTime client calls st1))"

section \<open>The abstract service\<close>

text \<open>One call: its outcome and the lists afterwards.\<close>

definition shown_of :: "ID \<Rightarrow> list_view \<Rightarrow> list_shown" where
  "shown_of l v = \<lparr>shown_ID = Some l, shown_title = lv_title v, shown_owner = lv_owner v, shown_created = in_UTC (lv_created v),
     shown_board = map_option view_in_UTC \<circ> lv_board v\<rparr>"

fun abstract_call ::
  "(string \<Rightarrow> error + UUID) \<Rightarrow> ('ts \<Rightarrow> Time) \<Rightarrow> 'ts remote \<Rightarrow> (ID \<rightharpoonup> list_view) \<Rightarrow> outcome \<times> (ID \<rightharpoonup> list_view)" where
  "abstract_call uuid_Parse AsTime (RemoteCommand rpc) m =
     (case rpc_request uuid_Parse AsTime rpc of
        None \<Rightarrow> (Refused CodeInvalidArgument, m)
      | Some req \<Rightarrow>
          (case service_request req m of
             Inl c \<Rightarrow> (Refused (code_of c), m)
           | Inr m' \<Rightarrow> (Accepted, m')))"
| "abstract_call uuid_Parse AsTime (RemoteQuery req) m =
     (case parsed uuid_Parse (greq_TodoListId req) of
        None \<Rightarrow> (Refused CodeInvalidArgument, m)
      | Some l \<Rightarrow>
          if l = uuid_Nil then (Refused CodeInvalidArgument, m)
          else (case m l of None \<Rightarrow> Refused CodeNotFound | Some v \<Rightarrow> Shown (shown_of l v), m))"

fun abstract_run ::
  "(string \<Rightarrow> error + UUID) \<Rightarrow> ('ts \<Rightarrow> Time) \<Rightarrow> 'ts remote list \<Rightarrow> (ID \<rightharpoonup> list_view) \<Rightarrow> outcome list \<times> (ID \<rightharpoonup> list_view)" where
  "abstract_run uuid_Parse AsTime [] m = ([], m)"
| "abstract_run uuid_Parse AsTime (call # calls) m =
     (let (x, m1) = abstract_call uuid_Parse AsTime call m; (xs, m2) = abstract_run uuid_Parse AsTime calls m1
      in (x # xs, m2))"

section \<open>The refinement\<close>

lemma same_answer_SomeD:
  "same_answer a (Some (r, st)) \<Longrightarrow> \<exists>r'. a = Some (r', st) \<and>
     (case r of Inl e \<Rightarrow> \<exists>e'. r' = Inl e' \<and> code e' = code e | Inr x \<Rightarrow> r' = Inr x)"
  by (cases "(a, Some (r, st))" rule: same_answer.cases) auto

lemma calls_throughD:
  "calls_through call handle \<Longrightarrow> handle Background req st = Some (r, st') \<Longrightarrow> \<exists>r'. call Background req st = Some (r', st') \<and>
     (case r of Inl e \<Rightarrow> \<exists>e'. r' = Inl e' \<and> code e' = code e | Inr x \<Rightarrow> r' = Inr x)"
  by (rule same_answer_SomeD) (force simp: calls_through_def dest!: spec [of _ req] spec [of _ st])

text \<open>Clients of the service of \<open>main.go\<close>, by what its clock shows.\<close>

definition service_clients ::
  "(string \<Rightarrow> error + UUID) \<Rightarrow> (UUID \<Rightarrow> string) \<Rightarrow> ('ts \<Rightarrow> Time) \<Rightarrow> (Time \<Rightarrow> 'ts) \<Rightarrow>
   (Time \<Rightarrow> ('ts, todo_event InMemoryStore) TodoListServiceClient) \<Rightarrow> bool" where
  "service_clients uuid_Parse us AsTime timestamp_New client \<longleftrightarrow> (\<forall>t.
     let svc = service_at uuid_Parse us AsTime timestamp_New t in
     calls_through (cl_CreateTodoList (client t)) (svc_CreateTodoList svc) \<and>
     calls_through (cl_GetTodoList (client t)) (svc_GetTodoList svc) \<and>
     calls_through (cl_AddTodoItem (client t)) (svc_AddTodoItem svc) \<and>
     calls_through (cl_MarkTodoItemAsDone (client t)) (svc_MarkTodoItemAsDone svc) \<and>
     calls_through (cl_MarkTodoItemAsPending (client t)) (svc_MarkTodoItemAsPending svc) \<and>
     calls_through (cl_DeleteTodoItem (client t)) (svc_DeleteTodoItem svc))"

lemma service_clients_serve:
  assumes "api_contract api"
    and "\<And>t. serves api health reflect alpha (service_at uuid_Parse us AsTime timestamp_New t) (httpClient t) baseURL"
  shows "service_clients uuid_Parse us AsTime timestamp_New (\<lambda>t. NewTodoListServiceClient api (httpClient t) baseURL)"
  using remote_methods_core [OF assms(2) assms(1) refl] by (simp add: service_clients_def)

lemma client_command_answers:
  assumes "service_clients uuid_Parse us AsTime timestamp_New client"
    and "rpc_call uuid_Parse AsTime (todoListRepository us) rpc st = Some (r, st')"
  shows "\<exists>r'. client_command client rpc st = Some (r', st') \<and> command_outcome r' = command_outcome r"
proof -
  have "\<exists>r'. client_command client rpc st = Some (r', st') \<and>
      (case r of Inl e \<Rightarrow> \<exists>e'. r' = Inl e' \<and> code e' = code e | Inr x \<Rightarrow> r' = Inr x)"
    using assms
    by (cases rpc; simp add: service_clients_def Let_def service_at_def as_TodoListServiceHandler_def)
      (blast dest: calls_throughD)+
  then show ?thesis by (cases r) (auto simp: command_outcome_def)
qed

text \<open>One call through the client is one call of the abstract service.\<close>

lemma remote_call_refines:
  assumes clients: "service_clients uuid_Parse us AsTime timestamp_New client" and us: "inj us"
    and time: "\<And>i. uuid_Parse (us i) = Inr i" "\<And>t. AsTime (timestamp_New t) = in_UTC t"
    and st: "logs_ok us st" "lists_ok (stored_lists us st)" "versions_within n (stored_lists us st)" and n: "Suc n < 2 ^ 32"
  shows "\<exists>st'. remote_call uuid_Parse AsTime client call st =
       Some (fst (abstract_call uuid_Parse AsTime call (service_of (stored_lists us st))), st') \<and>
     logs_ok us st' \<and> lists_ok (stored_lists us st') \<and> versions_within (Suc n) (stored_lists us st') \<and>
     service_of (stored_lists us st') = snd (abstract_call uuid_Parse AsTime call (service_of (stored_lists us st)))"
proof (cases call)
  case (RemoteCommand rpc)
  from connect_commands_refine [OF us st n, of uuid_Parse AsTime rpc] obtain r st' where
    r: "rpc_call uuid_Parse AsTime (todoListRepository us) rpc st = Some (r, st')"
    and inv: "logs_ok us st'" "lists_ok (stored_lists us st')" "versions_within (Suc n) (stored_lists us st')"
    and out: "case rpc_request uuid_Parse AsTime rpc of
        None \<Rightarrow> st' = st \<and> (\<exists>e. r = Inl e \<and> code e = CodeInvalidArgument)
      | Some req \<Rightarrow>
          (case service_request req (service_of (stored_lists us st)) of
             Inl c \<Rightarrow> (\<exists>e. r = Inl e \<and> code e = code_of c) \<and> stored_lists us st' = stored_lists us st
           | Inr m \<Rightarrow> r = Inr () \<and> service_of (stored_lists us st') = m)" by blast
  from client_command_answers [OF clients r] inv out show ?thesis
    by (auto simp: RemoteCommand command_outcome_def split: option.splits sum.splits)
next
  case (RemoteQuery req)
  have n: "versions_within (Suc n) (stored_lists us st)"
    using st(3) by (auto simp: versions_within_def le_Suc_eq)
  obtain s where req: "req = \<lparr>greq_TodoListId = s\<rparr>" by (cases req)
  from GetTodoList_answers [OF st(1,2), where clock = "\<lambda>_. zero_Time" and s = s and uuid_Parse = uuid_Parse and AsTime = AsTime
      and timestamp_New = timestamp_New, OF time] obtain r st' where
    r: "GetTodoList uuid_Parse us timestamp_New (server (\<lambda>_. zero_Time) (todoListRepository us)) Background req st = Some (r, st')"
    and st': "stored_lists us st' = stored_lists us st" "logs_ok us st'"
    and out: "query_outcome uuid_Parse AsTime r = fst (abstract_call uuid_Parse AsTime call (service_of (stored_lists us st)))"
    unfolding RemoteQuery req
    by (fastforce simp: query_outcome_def shown_of_def service_of_def list_view_of_def parsed_def split: option.splits if_splits)
  have "calls_through (cl_GetTodoList (client zero_Time)) (svc_GetTodoList (service_at uuid_Parse us AsTime timestamp_New zero_Time))"
    using clients by (simp add: service_clients_def Let_def)
  then have "\<exists>r'. cl_GetTodoList (client zero_Time) Background req st = Some (r', st') \<and>
      query_outcome uuid_Parse AsTime r' = query_outcome uuid_Parse AsTime r"
    using calls_throughD [where handle = "svc_GetTodoList (service_at uuid_Parse us AsTime timestamp_New zero_Time)"] r
    by (fastforce simp: service_at_def as_TodoListServiceHandler_def query_outcome_def split: sum.splits)
  with st' st n out show ?thesis
    by (auto simp: RemoteQuery split: option.splits)
qed

lemma remote_run_refines:
  assumes clients: "service_clients uuid_Parse us AsTime timestamp_New client"
    and time: "\<And>i. uuid_Parse (us i) = Inr i" "\<And>t. AsTime (timestamp_New t) = in_UTC t"
  shows "logs_ok us st \<Longrightarrow> lists_ok (stored_lists us st) \<Longrightarrow> versions_within n (stored_lists us st) \<Longrightarrow>
     n + length calls < 2 ^ 32 \<Longrightarrow>
     \<exists>st'. remote_run uuid_Parse AsTime client calls st =
         Some (fst (abstract_run uuid_Parse AsTime calls (service_of (stored_lists us st))), st') \<and>
       service_of (stored_lists us st') = snd (abstract_run uuid_Parse AsTime calls (service_of (stored_lists us st)))"
proof (induction calls arbitrary: st n)
  case Nil
  then show ?case by simp
next
  case (Cons call calls)
  have us: "inj us" using time(1) by (metis injI sum.inject(2))
  have n: "Suc n < 2 ^ 32" using Cons.prems(4) by simp
  from remote_call_refines [OF clients us time Cons.prems(1-3) n, of call] obtain st1 where
    c: "remote_call uuid_Parse AsTime client call st =
      Some (fst (abstract_call uuid_Parse AsTime call (service_of (stored_lists us st))), st1)"
    and st1: "logs_ok us st1" "lists_ok (stored_lists us st1)" "versions_within (Suc n) (stored_lists us st1)"
    and m: "service_of (stored_lists us st1) = snd (abstract_call uuid_Parse AsTime call (service_of (stored_lists us st)))"
    by blast
  have "Suc n + length calls < 2 ^ 32" using Cons.prems(4) by simp
  from Cons.IH [OF st1 this] c m show ?case by (auto split: prod.splits)
qed

section \<open>Property\<close>

text \<open>C1: Any sequence of remote calls, commands and queries, that clients made by \<open>NewTodoListServiceClient\<close> send to the process of
  \<open>main.go\<close>, through its multiplexer, the generated routing, the transport, the handlers, the event-sourced repository and the
  in-memory store, starting empty, is answered exactly as by the abstract service, a map from identifiers to lists: no call
  panics, a command is accepted when the map accepts it and otherwise refused with the code of the one cause (invalid input, existing item, missing
  list or item, internal for a list that exists), a query shows the list of the map with its times in UTC or is refused, and the lists stored in
  the end are those of the map. What is relied on is the behaviour of the connect library (\<open>api_contract\<close>), a network that reaches the process
  (\<open>serves\<close>), and that \<open>uuid\<close> and \<open>timestamppb\<close> read what they write.\<close>

theorem todo_remote_refines:
  assumes "api_contract api"
    and "\<And>t. serves api health reflect alpha (service_at uuid_Parse us AsTime timestamp_New t) (httpClient t) baseURL"
    and "\<And>i. uuid_Parse (us i) = Inr i" and "\<And>t. AsTime (timestamp_New t) = in_UTC t" and "length calls < 2 ^ 32"
  shows "\<exists>st. remote_run uuid_Parse AsTime (\<lambda>t. NewTodoListServiceClient api (httpClient t) baseURL) calls NewInMemoryStore =
       Some (fst (abstract_run uuid_Parse AsTime calls Map.empty), st) \<and>
     service_of (stored_lists us st) = snd (abstract_run uuid_Parse AsTime calls Map.empty)"
  using remote_run_refines [OF service_clients_serve [OF assms(1,2)] assms(3,4), of NewInMemoryStore 0 calls] assms(5)
  by simp

theorem todo_remote_refines_witness:
  "\<exists>st. remote_run parse_unary (\<lambda>t. t)
       (\<lambda>t. NewTodoListServiceClient direct_api (sample_client (service_at parse_unary unary (\<lambda>t. t) in_UTC t)) ''http://localhost:8080'')
       [RemoteCommand (RpcCreate \<lparr>creq_TodoListId = ''1'', creq_Title = ''groceries'', creq_Owner = ''ann''\<rparr> zero_Time),
        RemoteCommand (RpcDone \<lparr>ireq_TodoListId = ''1'', ireq_TodoItemId = ''11''\<rparr>),
        RemoteQuery \<lparr>greq_TodoListId = ''1''\<rparr>, RemoteQuery \<lparr>greq_TodoListId = ''11''\<rparr>,
        RemoteCommand (RpcDelete \<lparr>ireq_TodoListId = ''x'', ireq_TodoItemId = ''11''\<rparr>)]
       NewInMemoryStore =
     Some ([Accepted, Refused CodeNotFound,
       Shown \<lparr>shown_ID = Some 1, shown_title = ''groceries'', shown_owner = ''ann'', shown_created = zero_Time,
              shown_board = Map.empty\<rparr>, Refused CodeNotFound, Refused CodeInvalidArgument], st)"
proof -
  let ?calls = "[RemoteCommand (RpcCreate \<lparr>creq_TodoListId = ''1'', creq_Title = ''groceries'', creq_Owner = ''ann''\<rparr> zero_Time),
        RemoteCommand (RpcDone \<lparr>ireq_TodoListId = ''1'', ireq_TodoItemId = ''11''\<rparr>),
        RemoteQuery \<lparr>greq_TodoListId = ''1''\<rparr>, RemoteQuery \<lparr>greq_TodoListId = ''11''\<rparr>,
        RemoteCommand (RpcDelete \<lparr>ireq_TodoListId = ''x'', ireq_TodoItemId = ''11''\<rparr>)] :: Time remote list"
  have "fst (abstract_run parse_unary (\<lambda>t. t) ?calls Map.empty) =
      [Accepted, Refused CodeNotFound,
       Shown \<lparr>shown_ID = Some 1, shown_title = ''groceries'', shown_owner = ''ann'', shown_created = zero_Time,
              shown_board = Map.empty\<rparr>, Refused CodeNotFound, Refused CodeInvalidArgument]"
    by (simp add: parsed_def parse_unary_def item_request_def uuid_Nil_def on_item_def code_of_def todo_error_defs
        ErrRootNotFound_def shown_of_def in_UTC_def zero_Time_def)
  with todo_remote_refines [where us = unary and uuid_Parse = parse_unary and AsTime = "\<lambda>t. t" and timestamp_New = in_UTC
      and calls = ?calls and httpClient = "\<lambda>t. sample_client (service_at parse_unary unary (\<lambda>t. t) in_UTC t)",
      OF direct_api_contract sample_serves parse_unary_unary refl]
  show ?thesis by auto
qed

end
