(* ===== verification/Todo_Main.thy ===== *)
theory Todo_Main
  imports Todo_Remote
begin

text \<open>
  The process of the todo list service, \<open>examples/todolist/main.go\<close>: configuration, wiring, serving and shutting down. What
  comes from elsewhere is the record \<open>main_env\<close>: reading the configuration from the environment, the connect library and the health and
  reflection handlers, what \<open>ListenAndServe\<close> returns when it does, whether a signal arrives before that, and \<open>Shutdown\<close>. Logging is left out.
\<close>

record serverConfig =
  Address :: string
  ReadTimeout :: int
  WriteTimeout :: int
  ShutdownTimeout :: int

record main_config =
  Server :: serverConfig

record 'h http_Server =
  srv_Addr :: string
  srv_Handler :: 'h
  srv_ReadTimeout :: int
  srv_WriteTimeout :: int
  srv_ReadHeaderTimeout :: int

type_synonym ('b, 'w) main_handler = "('b, 'w, todo_event InMemoryStore) http_Handler"

record ('b, 'w, 'ts) main_env =
  env_Process :: "error + main_config"
  env_api :: "('b, 'w, 'ts, todo_event InMemoryStore) connect_api"
  env_health :: "string \<Rightarrow> string \<times> ('b, 'w) main_handler"
  env_reflect :: "string \<Rightarrow> string \<times> ('b, 'w) main_handler"
  env_reflectAlpha :: "string \<Rightarrow> string \<times> ('b, 'w) main_handler"
  env_ListenAndServe :: "('b, 'w) main_handler http_Server \<Rightarrow> error option"
  env_signalled :: bool
  env_Shutdown :: "int \<Rightarrow> ('b, 'w) main_handler http_Server \<Rightarrow> error option"
  ErrServerClosed :: error

definition parseConfig :: "('b, 'w, 'ts) main_env \<Rightarrow> error + main_config" where
  "parseConfig env =
     (case env_Process env of Inl e \<Rightarrow> Inl (Errorf ''failed to parse config from env, %w'' [e]) | Inr cfg \<Rightarrow> Inr cfg)"

text \<open>The goroutine that serves, and what it sends on \<open>serverErrs\<close>.\<close>

definition serve :: "('b, 'w, 'ts) main_env \<Rightarrow> ('b, 'w) main_handler http_Server \<Rightarrow> error option" where
  "serve env srv =
     (case env_ListenAndServe env srv of
        Some e \<Rightarrow> if errors_Is e (ErrServerClosed env) then None else Some (Errorf ''connect server exited unexpectedly, %w'' [e])
      | None \<Rightarrow> None)"

text \<open>\<open>None\<close> is the panic of the multiplexer on a pattern that is registered twice; \<open>clock\<close> is \<open>time.Now\<close>.\<close>

definition run_main ::
  "(string \<Rightarrow> error + UUID) \<Rightarrow> (UUID \<Rightarrow> string) \<Rightarrow> ('ts \<Rightarrow> Time) \<Rightarrow> (Time \<Rightarrow> 'ts) \<Rightarrow> (unit \<Rightarrow> Time) \<Rightarrow> ('b, 'w, 'ts) main_env \<Rightarrow>
   error option option" where
  "run_main uuid_Parse uuid_String AsTime timestamp_New clock env =
     (case parseConfig env of
        Inl e \<Rightarrow> Some (Some e)
      | Inr cfg \<Rightarrow>
          (let repository = todoListRepository uuid_String;
               svc = as_TodoListServiceHandler uuid_Parse uuid_String AsTime timestamp_New (server clock repository)
           in case main_mux (env_api env) (env_health env) (env_reflect env) (env_reflectAlpha env) svc of
                None \<Rightarrow> None
              | Some mux \<Rightarrow>
                  (let srv = \<lparr>srv_Addr = Address (Server cfg), srv_Handler = mux_ServeHTTP mux,
                         srv_ReadTimeout = ReadTimeout (Server cfg), srv_WriteTimeout = WriteTimeout (Server cfg),
                         srv_ReadHeaderTimeout = ReadTimeout (Server cfg)\<rparr>
                   in Some (if env_signalled env
                            then (case env_Shutdown env (ShutdownTimeout (Server cfg)) srv of
                                    Some e \<Rightarrow> Some (Errorf ''graceful shutdown failed, %w'' [e])
                                  | None \<Rightarrow> None)
                            else serve env srv))))"

text \<open>The exit code of the process; the runtime exits with 2 after a panic.\<close>

definition main_exit ::
  "(string \<Rightarrow> error + UUID) \<Rightarrow> (UUID \<Rightarrow> string) \<Rightarrow> ('ts \<Rightarrow> Time) \<Rightarrow> (Time \<Rightarrow> 'ts) \<Rightarrow> (unit \<Rightarrow> Time) \<Rightarrow> ('b, 'w, 'ts) main_env \<Rightarrow> nat" where
  "main_exit uuid_Parse uuid_String AsTime timestamp_New clock env =
     (case run_main uuid_Parse uuid_String AsTime timestamp_New clock env of
        None \<Rightarrow> 2
      | Some (Some e) \<Rightarrow> 1
      | Some None \<Rightarrow> 0)"

text \<open>
  With the paths the health and reflection packages document, the process does not panic: it exits with 0 when it was configured and
  either stopped in time after a signal, or its server was closed or returned without an error before one, and with 1 otherwise.
\<close>

lemma main_exit_cases:
  assumes "documented_mounts (env_health env TodoListServiceName) (env_reflect env TodoListServiceName)
      (env_reflectAlpha env TodoListServiceName)"
  shows "\<exists>mux. main_mux (env_api env) (env_health env) (env_reflect env) (env_reflectAlpha env)
      (as_TodoListServiceHandler uuid_Parse us AsTime timestamp_New (server clock (todoListRepository us))) = Some mux \<and>
    main_exit uuid_Parse us AsTime timestamp_New clock env =
     (if \<exists>cfg. env_Process env = Inr cfg \<and>
        (let srv = \<lparr>srv_Addr = Address (Server cfg), srv_Handler = mux_ServeHTTP mux,
               srv_ReadTimeout = ReadTimeout (Server cfg), srv_WriteTimeout = WriteTimeout (Server cfg),
               srv_ReadHeaderTimeout = ReadTimeout (Server cfg)\<rparr>
         in if env_signalled env then env_Shutdown env (ShutdownTimeout (Server cfg)) srv = None
            else case env_ListenAndServe env srv of None \<Rightarrow> True | Some e \<Rightarrow> errors_Is e (ErrServerClosed env))
      then 0 else 1)"
proof -
  obtain mux where "main_mux (env_api env) (env_health env) (env_reflect env) (env_reflectAlpha env)
      (as_TodoListServiceHandler uuid_Parse us AsTime timestamp_New (server clock (todoListRepository us))) = Some mux"
    using main_mux_eq [where health = "env_health env" and reflect = "env_reflect env" and alpha = "env_reflectAlpha env"] assms
    by blast
  then show ?thesis
    by (intro exI [of _ mux])
      (auto simp: main_exit_def run_main_def parseConfig_def serve_def Let_def split: sum.splits option.splits if_splits)
qed

end
