(* ===== verification/Todo_Concurrent.thy ===== *)
theory Todo_Concurrent
  imports Todo_Service
begin

text \<open>
  Requests to the todo list service from many goroutines at once, as an HTTP server starts them
  (\<open>examples/todolist/main.go\<close>). The handlers share the repository and nothing else, so a command is interrupted by others
  between its \<open>Get\<close> and its \<open>Save\<close>. Each of the two is one operation of the store, whose lock makes it atomic: \<open>Concurrent_Correct\<close> shows, step by
  step, that the store is linearizable and that its calls complete. Here such an operation is one step, so how long a handler waits for that lock is
  no subject of this theory.
\<close>

section \<open>Handlers that are interrupted before they save\<close>

text \<open>
  A handler is a function of its repository. Run on one that notes what \<open>Get\<close> answered and that \<open>Save\<close> was
  called, without saving, it runs until its \<open>Save\<close>; run on one whose \<open>Get\<close> answers as noted, it goes on from there.
\<close>

record 'st paused =
  ps_store :: 'st
  ps_got :: "(error + TodoList) option"
  ps_saving :: bool

definition pausing :: "'st Todo_Repository \<Rightarrow> 'st paused Todo_Repository" where
  "pausing repository =
     \<lparr>Get = (\<lambda>ctx i p. map_option (\<lambda>(r, st). (r, p\<lparr>ps_store := st, ps_got := Some r\<rparr>)) (Get repository ctx i (ps_store p))),
      Save = (\<lambda>ctx root p. (None, root, p\<lparr>ps_saving := True\<rparr>))\<rparr>"

definition resuming :: "(error + TodoList) option \<Rightarrow> 'st Todo_Repository \<Rightarrow> 'st Todo_Repository" where
  "resuming got repository = \<lparr>Get = (\<lambda>ctx i st. map_option (\<lambda>r. (r, st)) got), Save = Save repository\<rparr>"

definition until_save :: "'st Todo_Repository \<Rightarrow> todo_request \<Rightarrow> 'st \<Rightarrow> (error option \<times> 'st paused) option" where
  "until_save repository req st =
     handle_request (pausing repository) req \<lparr>ps_store = st, ps_got = None, ps_saving = False\<rparr>"

definition from_save ::
  "'st Todo_Repository \<Rightarrow> todo_request \<Rightarrow> (error + TodoList) option \<Rightarrow> 'st \<Rightarrow> (error option \<times> 'st) option" where
  "from_save repository req got st = handle_request (resuming got repository) req st"

lemma pausing_simps [simp]:
  "Get (pausing repository) ctx i p =
     map_option (\<lambda>(r, st). (r, p\<lparr>ps_store := st, ps_got := Some r\<rparr>)) (Get repository ctx i (ps_store p))"
  "Save (pausing repository) ctx root p = (None, root, p\<lparr>ps_saving := True\<rparr>)"
  by (simp_all add: pausing_def)

lemma resuming_simps [simp]:
  "Get (resuming got repository) ctx i st = map_option (\<lambda>r. (r, st)) got"
  "Save (resuming got repository) = Save repository"
  by (simp_all add: resuming_def)

lemma until_save_item:
  obtains get_msg run_msg where "until_save repository (ItemRequest l oper) st =
     (case Get repository Background l st of
        None \<Rightarrow> None
      | Some (Inl e, st') \<Rightarrow> Some (Some (Errorf get_msg [e]), \<lparr>ps_store = st', ps_got = Some (Inl e), ps_saving = False\<rparr>)
      | Some (Inr todo, st') \<Rightarrow>
          Some (map_option (\<lambda>e. Errorf run_msg [e]) (snd (run_op oper todo)),
            \<lparr>ps_store = st', ps_got = Some (Inr todo), ps_saving = (snd (run_op oper todo) = None)\<rparr>))"
proof -
  from handle_ItemRequest [of "pausing repository" l oper] obtain get_msg run_msg save_msg where
    "until_save repository (ItemRequest l oper) st =
       get_run_save get_msg run_msg save_msg (pausing repository) l oper \<lparr>ps_store = st, ps_got = None, ps_saving = False\<rparr>"
    by (metis until_save_def)
  then show thesis
    by (intro that [of get_msg run_msg])
      (cases "Get repository Background l st"; auto simp: get_run_save_def split: option.split sum.split prod.split)
qed

lemma from_save_item:
  assumes "run_op oper old = (todo, None)"
  obtains save_msg where "from_save repository (ItemRequest l oper) (Some (Inr old)) st =
      (case Save repository Background todo st of
         (Some e, _, st') \<Rightarrow> Some (Some (Errorf save_msg [e]), st')
       | (None, _, st') \<Rightarrow> Some (None, st'))"
proof -
  from handle_ItemRequest [of "resuming (Some (Inr old)) repository" l oper st] obtain get_msg run_msg save_msg where
    "from_save repository (ItemRequest l oper) (Some (Inr old)) st =
       get_run_save get_msg run_msg save_msg (resuming (Some (Inr old)) repository) l oper st"
    by (auto simp: from_save_def)
  with assms show thesis by (intro that [of save_msg]) (simp add: get_run_save_def)
qed

text \<open>Without interruption the two parts are the handler.\<close>

lemma until_save_create:
  "until_save repository (CreateRequest i title owner now) st =
     (case Create i title owner now of
        Inl e \<Rightarrow> Some (Some (Errorf ''todolist.CreateCommandHandler: failed to create new todolist, %w'' [e]),
           \<lparr>ps_store = st, ps_got = None, ps_saving = False\<rparr>)
      | Inr todo \<Rightarrow> Some (None, \<lparr>ps_store = st, ps_got = None, ps_saving = True\<rparr>))"
  by (simp add: until_save_def TodoList_CreateCommandHandler_Handle_def Command_ToEnvelope_def split: sum.split)

lemma from_save_create: "from_save repository (CreateRequest i title owner now) got = handle_request repository (CreateRequest i title owner now)"
  by (simp add: from_save_def fun_eq_iff)

lemma get_run_save_uninterrupted:
  "get_run_save get_msg run_msg save_msg repository l oper st =
     (case get_run_save get_msg run_msg save_msg (pausing repository) l oper \<lparr>ps_store = st, ps_got = None, ps_saving = False\<rparr> of
        None \<Rightarrow> None
      | Some (r, p) \<Rightarrow>
          if ps_saving p then get_run_save get_msg run_msg save_msg (resuming (ps_got p) repository) l oper (ps_store p)
          else Some (r, ps_store p))"
proof (cases "Get repository Background l st")
  case None
  then show ?thesis by (simp add: get_run_save_def)
next
  case (Some x)
  show ?thesis
  proof (cases "fst x")
    case (Inl e)
    with Some show ?thesis by (cases x) (simp add: get_run_save_def)
  next
    case (Inr todo)
    with Some show ?thesis
      by (cases x; cases "run_op oper todo"; cases "snd (run_op oper todo)") (simp_all add: get_run_save_def)
  qed
qed

text \<open>A handler that nothing interrupts is one that is interrupted by nothing.\<close>

lemma handle_request_uninterrupted:
  "handle_request repository req st =
     (case until_save repository req st of
        None \<Rightarrow> None
      | Some (r, p) \<Rightarrow> if ps_saving p then from_save repository req (ps_got p) (ps_store p) else Some (r, ps_store p))"
proof (cases req)
  case (CreateRequest i title owner now)
  then show ?thesis
    by (cases "Create i title owner now")
      (simp_all add: until_save_create from_save_create TodoList_CreateCommandHandler_Handle_def Command_ToEnvelope_def)
next
  case (ItemRequest l oper)
  show ?thesis
    unfolding ItemRequest until_save_def from_save_def
    by (cases oper; simp only: handle_ItemRequest_shapes; rule get_run_save_uninterrupted)
qed

section \<open>Calls and steps\<close>

datatype todo_call = Command todo_request | Lookup ID

datatype todo_answer = Acknowledged "error option" | Answered "error + TodoList"

text \<open>
  A call in flight was \<open>Invoked\<close>, or is a command that has loaded its list and goes on with \<open>Save\<close>. The history
  orders the calls by the step that decides them. The numbers are positions in the history: where the call was invoked and where the
  command read its list. History and numbers only serve the statements.
\<close>

datatype flight =
    Invoked nat todo_call
  | Saving nat nat todo_request "(error + TodoList) option"

record service_entry =
  se_client :: nat
  se_invoked :: nat
  se_read :: nat
  se_call :: todo_call
  se_answer :: todo_answer

record 'st service_state =
  sv_store :: 'st
  sv_flights :: "nat \<Rightarrow> flight option"
  sv_history :: "service_entry list"

definition service_start :: "'st \<Rightarrow> 'st service_state" where
  "service_start st = \<lparr>sv_store = st, sv_flights = (\<lambda>_. None), sv_history = []\<rparr>"

definition answered ::
  "nat \<Rightarrow> nat \<Rightarrow> nat \<Rightarrow> todo_call \<Rightarrow> todo_answer \<Rightarrow> 'st \<Rightarrow> 'st service_state \<Rightarrow> 'st service_state" where
  "answered k b n c r st s = s\<lparr>sv_store := st, sv_flights := (sv_flights s)(k := None),
     sv_history := sv_history s @ [\<lparr>se_client = k, se_invoked = b, se_read = n, se_call = c, se_answer = r\<rparr>]\<rparr>"

inductive service_step :: "'st Todo_Repository \<Rightarrow> 'st service_state \<Rightarrow> 'st service_state \<Rightarrow> bool"
  for repository :: "'st Todo_Repository" where
  invoke: "sv_flights s k = None \<Longrightarrow>
     service_step repository s (s\<lparr>sv_flights := (sv_flights s)(k \<mapsto> Invoked (length (sv_history s)) c)\<rparr>)"
| query: "sv_flights s k = Some (Invoked b (Lookup l)) \<Longrightarrow>
     GetQueryHandler_Handle (Get repository) Background (Query_ToEnvelope \<lparr>get_ID = l\<rparr>) (sv_store s) = Some (r, st) \<Longrightarrow>
     service_step repository s (answered k b (length (sv_history s)) (Lookup l) (Answered r) st s)"
| refuse: "sv_flights s k = Some (Invoked b (Command req)) \<Longrightarrow>
     until_save repository req (sv_store s) = Some (r, p) \<Longrightarrow> \<not> ps_saving p \<Longrightarrow>
     service_step repository s (answered k b (length (sv_history s)) (Command req) (Acknowledged r) (ps_store p) s)"
| load: "sv_flights s k = Some (Invoked b (Command req)) \<Longrightarrow>
     until_save repository req (sv_store s) = Some (r, p) \<Longrightarrow> ps_saving p \<Longrightarrow>
     service_step repository s (s\<lparr>sv_store := ps_store p,
       sv_flights := (sv_flights s)(k \<mapsto> Saving b (length (sv_history s)) req (ps_got p))\<rparr>)"
| save: "sv_flights s k = Some (Saving b n req got) \<Longrightarrow>
     from_save repository req got (sv_store s) = Some (r, st) \<Longrightarrow>
     service_step repository s (answered k b n (Command req) (Acknowledged r) st s)"

inductive service_reachable :: "'st Todo_Repository \<Rightarrow> 'st \<Rightarrow> 'st service_state \<Rightarrow> bool"
  for repository :: "'st Todo_Repository" and st0 :: 'st where
  start: "service_reachable repository st0 (service_start st0)"
| next_state: "service_reachable repository st0 s \<Longrightarrow> service_step repository s s' \<Longrightarrow> service_reachable repository st0 s'"

text \<open>A schedule names a client at each turn, which makes a call or goes on with the one it has made.\<close>

fun service_turn :: "'st Todo_Repository \<Rightarrow> nat \<times> todo_call option \<Rightarrow> 'st service_state \<Rightarrow> 'st service_state option" where
  "service_turn repository (k, Some c) s =
     (if sv_flights s k = None then Some (s\<lparr>sv_flights := (sv_flights s)(k \<mapsto> Invoked (length (sv_history s)) c)\<rparr>) else None)"
| "service_turn repository (k, None) s =
     (case sv_flights s k of
        None \<Rightarrow> None
      | Some (Invoked b (Lookup l)) \<Rightarrow>
          map_option (\<lambda>(r, st). answered k b (length (sv_history s)) (Lookup l) (Answered r) st s)
            (GetQueryHandler_Handle (Get repository) Background (Query_ToEnvelope \<lparr>get_ID = l\<rparr>) (sv_store s))
      | Some (Invoked b (Command req)) \<Rightarrow>
          map_option (\<lambda>(r, p).
            if ps_saving p then s\<lparr>sv_store := ps_store p,
              sv_flights := (sv_flights s)(k \<mapsto> Saving b (length (sv_history s)) req (ps_got p))\<rparr>
            else answered k b (length (sv_history s)) (Command req) (Acknowledged r) (ps_store p) s)
            (until_save repository req (sv_store s))
      | Some (Saving b n req got) \<Rightarrow>
          map_option (\<lambda>(r, st). answered k b n (Command req) (Acknowledged r) st s) (from_save repository req got (sv_store s)))"

fun service_turns :: "'st Todo_Repository \<Rightarrow> (nat \<times> todo_call option) list \<Rightarrow> 'st service_state \<Rightarrow> 'st service_state option" where
  "service_turns repository [] s = Some s"
| "service_turns repository (x # xs) s = Option.bind (service_turn repository x s) (service_turns repository xs)"

lemma service_turn_step: "service_turn repository x s = Some s' \<Longrightarrow> service_step repository s s'"
proof (induction repository x s rule: service_turn.induct)
  case (1 repository k c s)
  then show ?case by (auto split: if_splits intro: service_step.invoke)
next
  case (2 repository k s)
  show ?case
  proof (cases "\<exists>b req. sv_flights s k = Some (Invoked b (Command req))")
    case True
    then obtain b req where f: "sv_flights s k = Some (Invoked b (Command req))" by blast
    with 2 obtain r p where u: "until_save repository req (sv_store s) = Some (r, p)" by fastforce
    show ?thesis using 2 f u service_step.refuse [OF f u] service_step.load [OF f u] by (cases "ps_saving p") simp_all
  next
    case False
    with 2 show ?thesis
      by (auto split: option.splits flight.splits todo_call.splits intro: service_step.query service_step.save)
  qed
qed

lemma service_turns_reachable:
  "service_reachable repository st0 s \<Longrightarrow> service_turns repository xs s = Some s' \<Longrightarrow> service_reachable repository st0 s'"
proof (induction xs arbitrary: s)
  case (Cons x xs)
  then obtain s1 where "service_turn repository x s = Some s1" "service_turns repository xs s1 = Some s'"
    by (auto simp: bind_eq_Some_conv)
  with Cons.IH service_reachable.next_state [OF Cons.prems(1) service_turn_step] show ?case by blast
qed simp

section \<open>Legal histories\<close>

text \<open>The lists after the calls of a history, one after the other.\<close>

fun entry_effect :: "service_entry \<Rightarrow> (ID \<rightharpoonup> list_view) \<Rightarrow> (ID \<rightharpoonup> list_view)" where
  "entry_effect e m =
     (case (se_call e, se_answer e) of
        (Command req, Acknowledged None) \<Rightarrow> (case service_request req m of Inl c \<Rightarrow> m | Inr m' \<Rightarrow> m')
      | _ \<Rightarrow> m)"

definition service_after :: "service_entry list \<Rightarrow> (ID \<rightharpoonup> list_view)" where
  "service_after h = fold entry_effect h Map.empty"

fun request_list :: "todo_request \<Rightarrow> ID" where
  "request_list (CreateRequest l title owner now) = l"
| "request_list (ItemRequest l oper) = l"

definition commits_on :: "ID \<Rightarrow> service_entry \<Rightarrow> bool" where
  "commits_on l e \<longleftrightarrow> (\<exists>req. se_call e = Command req \<and> request_list req = l \<and> se_answer e = Acknowledged None)"

text \<open>
  An item command lost a race when its error is caused by a conflict with the current version of its list, and
  another command has changed the list since it was read.
\<close>

definition lost_race :: "service_entry list \<Rightarrow> service_entry \<Rightarrow> bool" where
  "lost_race past e \<longleftrightarrow> (\<exists>l oper err v k. se_call e = Command (ItemRequest l oper) \<and> se_answer e = Acknowledged (Some err) \<and>
     service_after past l = Some v \<and> caused_by err (Conflict \<lparr>Expected = k, Actual = lv_version v\<rparr>) \<and> k \<noteq> lv_version v \<and>
     (\<exists>x \<in> set (drop (se_read e) past). commits_on l x))"

fun legal_answer :: "(ID \<rightharpoonup> list_view) \<Rightarrow> todo_call \<Rightarrow> todo_answer \<Rightarrow> bool" where
  "legal_answer m (Command req) (Acknowledged r) \<longleftrightarrow>
     (case service_request req m of Inl c \<Rightarrow> agrees r (Some c) | Inr m' \<Rightarrow> agrees r None)"
| "legal_answer m (Lookup l) (Answered r) \<longleftrightarrow>
     (if l = uuid_Nil then \<exists>e. r = Inl e \<and> caused_by e ErrEmptyID
      else case m l of
             None \<Rightarrow> \<exists>e. r = Inl e \<and> caused_by e ErrRootNotFound
           | Some v \<Rightarrow> \<exists>todo. r = Inr todo \<and> list_view_of todo = v)"
| "legal_answer m _ _ \<longleftrightarrow> False"

definition legal_entry :: "service_entry list \<Rightarrow> service_entry \<Rightarrow> bool" where
  "legal_entry past e \<longleftrightarrow> se_invoked e \<le> se_read e \<and> se_read e \<le> length past \<and>
     (legal_answer (service_after past) (se_call e) (se_answer e) \<or> lost_race past e)"

definition legal_history :: "service_entry list \<Rightarrow> bool" where
  "legal_history h \<longleftrightarrow> (\<forall>i < length h. legal_entry (take i h) (h ! i))"

text \<open>
  The reasons for a conflict: a list is created that exists already, or another command changed the list after the command
  at hand had read it; the error names the version expected and the version stored.
\<close>

definition conflict_of :: "todo_answer \<Rightarrow> ConflictError option" where
  "conflict_of r = (case r of Acknowledged (Some e) \<Rightarrow> errors_As e | _ \<Rightarrow> None)"

fun conflict_reason :: "service_entry list \<Rightarrow> nat \<Rightarrow> todo_call \<Rightarrow> ConflictError \<Rightarrow> bool" where
  "conflict_reason past n (Command (CreateRequest l title owner now)) c \<longleftrightarrow>
     (\<exists>v. service_after past l = Some v \<and> c = \<lparr>Expected = 0, Actual = lv_version v\<rparr>)"
| "conflict_reason past n (Command (ItemRequest l oper)) c \<longleftrightarrow>
     (\<exists>v. service_after past l = Some v \<and> Actual c = lv_version v \<and> Expected c \<noteq> lv_version v) \<and>
     (\<exists>x \<in> set (drop n past). commits_on l x)"
| "conflict_reason past n (Lookup l) c \<longleftrightarrow> False"

definition conflicts_explained :: "service_entry list \<Rightarrow> bool" where
  "conflicts_explained h \<longleftrightarrow> (\<forall>i < length h. \<forall>c. conflict_of (se_answer (h ! i)) = Some c \<longrightarrow>
     conflict_reason (take i h) (se_read (h ! i)) (se_call (h ! i)) c)"

lemma caused_by_As_iff: "caused_by e c \<Longrightarrow> errors_As e = Some k \<longleftrightarrow> c = Conflict k"
  by (metis caused_by_As caused_by_Is errors_As_Is(1))

lemma board_op_no_conflict: "board_op oper b = Inl c \<Longrightarrow> c \<noteq> Conflict k"
  by (cases oper) (auto simp: on_item_def todo_error_defs split: if_splits option.splits)

lemma legal_entry_conflict:
  assumes "legal_entry past e" and c: "conflict_of (se_answer e) = Some c"
  shows "conflict_reason past (se_read e) (se_call e) c"
proof -
  from c obtain err where r: "se_answer e = Acknowledged (Some err)" "errors_As err = Some c"
    by (auto simp: conflict_of_def split: todo_answer.splits option.splits)
  from assms(1) consider (legal) "legal_answer (service_after past) (se_call e) (se_answer e)" | (race) "lost_race past e"
    by (auto simp: legal_entry_def)
  then show ?thesis
  proof cases
    case legal
    with r(1) obtain req cause where req: "se_call e = Command req" "service_request req (service_after past) = Inl cause"
      "caused_by err cause"
      by (cases "se_call e") (auto split: sum.splits)
    with r(2) have "cause = Conflict c" by (simp add: caused_by_As_iff)
    with req show ?thesis
      by (cases req) (auto simp: todo_error_defs ErrRootNotFound_def dest: board_op_no_conflict split: if_splits option.splits sum.splits)
  next
    case race
    then obtain l oper v k where "se_call e = Command (ItemRequest l oper)" "service_after past l = Some v"
      "caused_by err (Conflict \<lparr>Expected = k, Actual = lv_version v\<rparr>)" "k \<noteq> lv_version v"
      "\<exists>x \<in> set (drop (se_read e) past). commits_on l x"
      unfolding lost_race_def r(1) todo_answer.inject option.inject by blast
    moreover from this r(2) have "c = \<lparr>Expected = k, Actual = lv_version v\<rparr>" by (simp add: caused_by_As_iff)
    ultimately show ?thesis by auto
  qed
qed

lemma legal_history_conflicts: "legal_history h \<Longrightarrow> conflicts_explained h"
  by (simp add: legal_history_def conflicts_explained_def legal_entry_conflict)

lemma legal_history_snoc: "legal_history (h @ [e]) \<longleftrightarrow> legal_history h \<and> legal_entry h e"
  by (auto simp: legal_history_def nth_append less_Suc_eq)

lemma service_after_snoc: "service_after (h @ [e]) = entry_effect e (service_after h)"
  by (simp add: service_after_def)

section \<open>The invariant\<close>

text \<open>
  What a command in flight has read is still stored, or another command has changed the list since and moved its version on.
\<close>

fun flight_ok :: "(ID \<Rightarrow> TodoList option) \<Rightarrow> service_entry list \<Rightarrow> flight \<Rightarrow> bool" where
  "flight_ok held h (Invoked b c) \<longleftrightarrow> b \<le> length h"
| "flight_ok held h (Saving b n (CreateRequest l title owner now) got) \<longleftrightarrow> b \<le> n \<and> n \<le> length h"
| "flight_ok held h (Saving b n (ItemRequest l oper) got) \<longleftrightarrow> b \<le> n \<and> n \<le> length h \<and>
     (\<exists>old todo. got = Some (Inr old) \<and> run_op oper old = (todo, None) \<and> list_ID old = l \<and> recordedEvents old = [] \<and>
       (held l = Some old \<or>
        (\<exists>cur. held l = Some cur \<and> unat (version old) < unat (version cur) \<and> (\<exists>x \<in> set (drop n h). commits_on l x))))"

lemma flight_ok_stays: "flight_ok held h f \<Longrightarrow> flight_ok held (h @ es) f"
  by (cases "(held, h, f)" rule: flight_ok.cases) auto

lemma flight_ok_commit:
  assumes f: "flight_ok held h f" and e: "commits_on l e"
    and later: "\<And>old. held l = Some old \<Longrightarrow> unat (version old) < unat (version todo)"
  shows "flight_ok (held(l := Some todo)) (h @ [e]) f"
  using f
proof (cases "(held, h, f)" rule: flight_ok.cases)
  case (3 held' h' b n l' oper got)
  with f obtain old todo' where got: "got = Some (Inr old)" "run_op oper old = (todo', None)" "list_ID old = l'"
    "recordedEvents old = []" "b \<le> n" "n \<le> length h"
    and now: "held l' = Some old \<or> (\<exists>cur. held l' = Some cur \<and> unat (version old) < unat (version cur) \<and> (\<exists>x \<in> set (drop n h). commits_on l' x))"
    by auto
  have new: "e \<in> set (drop n (h @ [e]))" and old_in: "set (drop n h) \<subseteq> set (drop n (h @ [e]))" using got(6) by auto
  have "(held(l := Some todo)) l' = Some old \<or>
      (\<exists>cur. (held(l := Some todo)) l' = Some cur \<and> unat (version old) < unat (version cur) \<and> (\<exists>x \<in> set (drop n (h @ [e])). commits_on l' x))"
  proof (cases "l' = l")
    case True
    from now later have "unat (version old) < unat (version todo)" unfolding True by fastforce
    with True e new show ?thesis by auto
  next
    case False
    with now old_in show ?thesis by auto
  qed
  with 3 got show ?thesis by simp
qed auto

lemma run_op_recordedEvents: "run_op oper todo = (todo', None) \<Longrightarrow> \<exists>m. recordedEvents todo' = recordedEvents todo @ [m]"
  using run_op_records [of oper todo todo'] by (auto elim!: todo.recordThat_okD)

fun steps_left :: "flight option \<Rightarrow> nat" where
  "steps_left None = 0"
| "steps_left (Some (Saving b n req got)) = 1"
| "steps_left (Some (Invoked b c)) = 2"

lemma board_at_base: "board (at_base v es todo) = board todo"
  by (simp add: board_def)

context todo_repository
begin

lemma until_save_outcome:
  assumes inv: "invar st" and ok: "lists_ok (stored st)"
  shows "\<exists>r p. until_save repository req st = Some (r, p) \<and> stored (ps_store p) = stored st \<and> invar (ps_store p) \<and>
     (if ps_saving p then \<forall>h b. b \<le> length h \<longrightarrow> flight_ok (stored st) h (Saving b (length h) req (ps_got p))
      else r \<noteq> None \<and> legal_answer (service_of (stored st)) (Command req) (Acknowledged r))"
proof (cases req)
  case (CreateRequest l title owner now)
  with inv show ?thesis
    by (auto simp: until_save_create Create_eq todo_error_defs)
next
  case (ItemRequest l oper)
  obtain get_msg run_msg where u: "until_save repository (ItemRequest l oper) st =
     (case get Background l st of
        None \<Rightarrow> None
      | Some (Inl e, st') \<Rightarrow> Some (Some (Errorf get_msg [e]), \<lparr>ps_store = st', ps_got = Some (Inl e), ps_saving = False\<rparr>)
      | Some (Inr todo, st') \<Rightarrow>
          Some (map_option (\<lambda>e. Errorf run_msg [e]) (snd (run_op oper todo)),
            \<lparr>ps_store = st', ps_got = Some (Inr todo), ps_saving = (snd (run_op oper todo) = None)\<rparr>))"
    by (rule until_save_item [of repository l oper st]) simp
  show ?thesis
  proof (cases "stored st l")
    case None
    from get_missing [OF inv None] obtain e st' where "get Background l st = Some (Inl e, st')"
      "caused_by e ErrRootNotFound" "stored st' = stored st" "invar st'" by blast
    with None u show ?thesis by (simp add: ItemRequest service_of_def)
  next
    case (Some old)
    from get_found [OF inv Some] obtain st' where g: "get Background l st = Some (Inr old, st')"
      "stored st' = stored st" "invar st'" by blast
    from ok Some have old: "items_ok old" "list_ID old = l" by (auto simp: lists_ok_def)
    obtain todo x where run: "run_op oper old = (todo, x)" by fastforce
    show ?thesis
    proof (cases x)
      case None
      with u g run old(2) Some stored_flushed [OF inv Some] show ?thesis by (simp add: ItemRequest)
    next
      case (Some e)
      with todo_commands_core [OF old(1), of oper] run obtain c where "board_op oper (board old) = Inl c" "caused_by e c" by auto
      with u g run Some \<open>stored st l = Some old\<close> show ?thesis
        by (simp add: ItemRequest service_of_def list_view_of_def)
    qed
  qed
qed

text \<open>A save in flight commits what the command does to the lists now, or reports a conflict.\<close>

lemma from_save_item_outcome:
  assumes "inj us" and inv: "invar st" and ok: "lists_ok (stored st)" and within: "versions_within m (stored st)" and m: "Suc m < 2 ^ 32"
    and f: "flight_ok (stored st) h (Saving b n (ItemRequest l oper) got)" and h: "service_of (stored st) = service_after h"
  shows "\<exists>r st'. from_save repository (ItemRequest l oper) got st = Some (r, st') \<and> invar st' \<and>
     (case r of
        None \<Rightarrow> \<exists>old todo. stored st l = Some old \<and> stored st' = (stored st)(l := Some todo) \<and> list_ID todo = l \<and> items_ok todo \<and>
          version todo = version old + 1 \<and> service_request (ItemRequest l oper) (service_of (stored st)) = Inr (service_of (stored st'))
      | Some e \<Rightarrow> stored st' = stored st \<and>
          lost_race h \<lparr>se_client = k, se_invoked = b, se_read = n, se_call = Command (ItemRequest l oper), se_answer = Acknowledged r\<rparr>)"
proof -
  from f obtain old todo where got: "got = Some (Inr old)" and run: "run_op oper old = (todo, None)" and old: "list_ID old = l"
    "recordedEvents old = []"
    and now: "stored st l = Some old \<or>
        (\<exists>cur. stored st l = Some cur \<and> unat (version old) < unat (version cur) \<and> (\<exists>x \<in> set (drop n h). commits_on l x))"
    by auto
  obtain save_msg where s: "from_save repository (ItemRequest l oper) got st =
      (case save Background todo st of
         (Some e, _, st') \<Rightarrow> Some (Some (Errorf save_msg [e]), st')
       | (None, _, st') \<Rightarrow> Some (None, st'))"
    unfolding got by (rule from_save_item [OF run, of repository l st]) simp
  from run_op_recordedEvents [OF run] old(2) obtain evt where evts: "recordedEvents todo = [evt]" by auto
  note fields = run_op_fields [OF run]
  show ?thesis
  proof (cases "stored st l = Some old")
    case True
    from ok True have "items_ok old" by (auto simp: lists_ok_def)
    have bound: "unat (version old) + 1 < 2 ^ 32" using within True m by (auto simp: versions_within_def dest!: spec)
    from run_op_records [OF run] obtain msg where "recordThat TodoList_Apply [ToEnvelope msg] old = (todo, None)" by blast
    with assms(1) inv True old fields bound obtain st' where
      sv: "save Background todo st = (None, flushed todo, st')" "stored st' = (stored st)(l := Some (flushed todo))" "invar st'"
      using save_recorded [of st msg l todo] by (auto simp: base_root_def)
    have items: "items_ok todo" using run_op_items_ok [OF \<open>items_ok old\<close>, of oper] run by simp
    have "board_op oper (board old) = Inr (board todo)" using todo_commands_core [OF \<open>items_ok old\<close>, of oper] run by simp
    then have req: "service_request (ItemRequest l oper) (service_of (stored st)) = Inr (service_of (stored st'))"
      using True fields sv(2) by (simp add: service_of_upd) (simp add: service_of_def list_view_of_def board_at_base)
    show ?thesis
      using s sv items req True fields old(1) by (auto intro!: exI [of _ "flushed todo"])
  next
    case False
    with now obtain cur x where cur: "stored st l = Some cur" "unat (version old) < unat (version cur)"
      "x \<in> set (drop n h)" "commits_on l x" by blast
    then have ne: "version old \<noteq> version cur" by auto
    have base: "version todo - version_of (recordedEvents todo) = version old" using evts fields by simp
    have "version todo - version_of (recordedEvents todo) \<noteq> version (base_root (TodoList_Type us) (stored st (AggregateID (TodoList_Type us) todo)))"
      using ne cur(1) fields old(1) unfolding base by (simp add: base_root_def)
    from save_conflict [OF inv _ this] evts obtain e st' where
      sv: "save Background todo st = (Some e, flushed todo, st')" "caused_by e (Conflict \<lparr>Expected = version old, Actual = version cur\<rparr>)"
      "stored st' = stored st" "invar st'"
      using cur(1) fields old(1) unfolding base by (auto simp: base_root_def)
    have "service_after h l = Some (list_view_of cur)" using cur(1) by (simp flip: h add: service_of_def)
    then have "lost_race h \<lparr>se_client = k, se_invoked = b, se_read = n, se_call = Command (ItemRequest l oper),
        se_answer = Acknowledged (Some (Errorf save_msg [e]))\<rparr>"
      using sv(2) ne cur(3,4) by (auto simp: lost_race_def list_view_of_def)
    with s sv show ?thesis by simp
  qed
qed

definition service_inv :: "'st service_state \<Rightarrow> bool" where
  "service_inv s \<longleftrightarrow> invar (sv_store s) \<and> lists_ok (stored (sv_store s)) \<and>
     versions_within (length (sv_history s)) (stored (sv_store s)) \<and>
     service_of (stored (sv_store s)) = service_after (sv_history s) \<and> legal_history (sv_history s) \<and>
     (\<forall>k f. sv_flights s k = Some f \<longrightarrow> flight_ok (stored (sv_store s)) (sv_history s) f)"

lemma service_invI:
  assumes "invar (sv_store s)" and "lists_ok (stored (sv_store s))" and "versions_within (length (sv_history s)) (stored (sv_store s))"
    and "service_of (stored (sv_store s)) = service_after (sv_history s)" and "legal_history (sv_history s)"
    and "\<And>k f. sv_flights s k = Some f \<Longrightarrow> flight_ok (stored (sv_store s)) (sv_history s) f"
  shows "service_inv s"
  using assms by (simp add: service_inv_def)

lemma versions_within_Suc: "versions_within n held \<Longrightarrow> versions_within (Suc n) held"
  by (auto simp: versions_within_def le_Suc_eq)

text \<open>An answer that changes no list, and one that commits a command.\<close>

lemma answered_unchanged:
  assumes inv: "service_inv s" and st: "stored st = stored (sv_store s)" "invar st"
    and e: "legal_entry (sv_history s) \<lparr>se_client = k, se_invoked = b, se_read = n, se_call = c, se_answer = r\<rparr>"
    and r: "r \<noteq> Acknowledged None"
  shows "service_inv (answered k b n c r st s)"
proof (rule service_invI)
  show "service_of (stored (sv_store (answered k b n c r st s))) = service_after (sv_history (answered k b n c r st s))"
    using inv st r by (cases c; cases r; auto simp: answered_def service_inv_def service_after_snoc split: option.split)
qed (use inv st e in \<open>auto simp: answered_def service_inv_def legal_history_snoc versions_within_Suc
  intro: flight_ok_stays split: if_splits\<close>)

lemma answered_committed:
  assumes inv: "service_inv s" and st: "stored st = (stored (sv_store s))(request_list req := Some todo)" "invar st"
    and todo: "list_ID todo = request_list req" "items_ok todo" "unat (version todo) \<le> Suc (length (sv_history s))"
    and later: "\<And>old. stored (sv_store s) (request_list req) = Some old \<Longrightarrow> unat (version old) < unat (version todo)"
    and req: "service_request req (service_of (stored (sv_store s))) = Inr (service_of (stored st))"
    and n: "b \<le> n" "n \<le> length (sv_history s)"
  shows "service_inv (answered k b n (Command req) (Acknowledged None) st s)"
proof (rule service_invI)
  let ?e = "\<lparr>se_client = k, se_invoked = b, se_read = n, se_call = Command req, se_answer = Acknowledged None\<rparr>"
  have after: "service_of (stored (sv_store s)) = service_after (sv_history s)" using inv by (simp add: service_inv_def)
  show "service_of (stored (sv_store (answered k b n (Command req) (Acknowledged None) st s))) =
      service_after (sv_history (answered k b n (Command req) (Acknowledged None) st s))"
    using req by (simp add: answered_def service_after_snoc after)
  show "legal_history (sv_history (answered k b n (Command req) (Acknowledged None) st s))"
    using inv n req by (simp add: answered_def service_inv_def legal_history_snoc legal_entry_def flip: after)
  have "commits_on (request_list req) ?e" by (simp add: commits_on_def)
  with inv later show "flight_ok (stored (sv_store (answered k b n (Command req) (Acknowledged None) st s)))
      (sv_history (answered k b n (Command req) (Acknowledged None) st s)) f"
    if "sv_flights (answered k b n (Command req) (Acknowledged None) st s) j = Some f" for j f
    using that by (auto simp: answered_def service_inv_def st(1) intro!: flight_ok_commit split: if_splits)
qed (use inv st todo in \<open>auto simp: answered_def service_inv_def held_upd versions_within_Suc\<close>)

lemma service_step_inv:
  assumes "inj us" and step: "service_step repository s s'" and inv: "service_inv s" and bound: "Suc (length (sv_history s)) < 2 ^ 32"
  shows "service_inv s'"
  using step
proof cases
  case (invoke k c)
  with inv show ?thesis by (auto simp: service_inv_def)
next
  case (query k b l r st)
  have i: "invar (sv_store s)" and b: "b \<le> length (sv_history s)" and after: "service_of (stored (sv_store s)) = service_after (sv_history s)"
    using inv query(2) by (auto simp: service_inv_def dest!: spec [of _ k])
  have l: "get_ID (Message (Query_ToEnvelope \<lparr>get_ID = l\<rparr>)) = l" by (simp add: Query_ToEnvelope_def)
  from get_request [OF i l] query(3) have st: "stored st = stored (sv_store s)" "invar st"
    and r: "case stored (sv_store s) l of
        Some todo \<Rightarrow> r = (if l = uuid_Nil then r else Inr todo)
      | None \<Rightarrow> \<exists>e. r = Inl e \<and> caused_by e (if l = uuid_Nil then ErrEmptyID else ErrRootNotFound)"
      "l = uuid_Nil \<longrightarrow> (\<exists>e. r = Inl e \<and> caused_by e ErrEmptyID)" by auto
  have "legal_answer (service_after (sv_history s)) (Lookup l) (Answered r)"
    using r by (auto simp: service_of_def simp flip: after split: option.splits if_splits)
  with b show ?thesis unfolding query(1) by (intro answered_unchanged [OF inv st]) (simp_all add: legal_entry_def)
next
  case (refuse k b req r p)
  from inv refuse(2) have b: "b \<le> length (sv_history s)" and after: "service_of (stored (sv_store s)) = service_after (sv_history s)"
    by (auto simp: service_inv_def dest!: spec [of _ k])
  from inv until_save_outcome [of "sv_store s" req] refuse(3,4) have st: "stored (ps_store p) = stored (sv_store s)" "invar (ps_store p)"
    and r: "r \<noteq> None" "legal_answer (service_of (stored (sv_store s))) (Command req) (Acknowledged r)" by (auto simp: service_inv_def)
  with b show ?thesis unfolding refuse(1) by (intro answered_unchanged [OF inv st]) (simp_all add: legal_entry_def flip: after)
next
  case (load k b req r p)
  from inv load(2) have b: "b \<le> length (sv_history s)" by (auto simp: service_inv_def dest!: spec [of _ k])
  from inv until_save_outcome [of "sv_store s" req] load(3,4) have st: "stored (ps_store p) = stored (sv_store s)" "invar (ps_store p)"
    and f: "\<forall>h b. b \<le> length h \<longrightarrow> flight_ok (stored (sv_store s)) h (Saving b (length h) req (ps_got p))" by (auto simp: service_inv_def)
  with inv b show ?thesis unfolding load(1) by (auto simp: service_inv_def)
next
  case (save k b n req got r st)
  let ?h = "sv_history s" and ?held = "stored (sv_store s)"
  from inv have i: "invar (sv_store s)" "lists_ok ?held" "versions_within (length ?h) ?held" "service_of ?held = service_after ?h"
    and f: "flight_ok ?held ?h (Saving b n req got)" using save(2) by (auto simp: service_inv_def)
  have n: "b \<le> n" "n \<le> length ?h" using f by (cases req; auto)+
  show ?thesis
  proof (cases req)
    case (CreateRequest l title owner now)
    from create_request [OF assms(1) i(1), of l title owner now] save(3) have st: "invar st"
      and out: "case service_request req (service_of ?held) of
        Inl c \<Rightarrow> agrees r (Some c) \<and> stored st = ?held
      | Inr m \<Rightarrow> agrees r None \<and> (\<exists>todo. stored st = ?held(l := Some todo) \<and> list_ID todo = l \<and>
                   items_ok todo \<and> unat (version todo) = 1 \<and> m = service_of (stored st))"
      by (auto simp: CreateRequest from_save_create simp del: handle_request.simps)
    show ?thesis
    proof (cases "service_request req (service_of ?held)")
      case (Inl c)
      with out have "stored st = ?held" "r \<noteq> None" "legal_answer (service_after ?h) (Command req) (Acknowledged r)"
        by (cases r; simp flip: i(4))+
      with st n show ?thesis unfolding save(1) by (intro answered_unchanged [OF inv]) (simp_all add: legal_entry_def)
    next
      case (Inr m)
      with out obtain todo where "r = None" and todo: "stored st = ?held(request_list req := Some todo)" "list_ID todo = request_list req"
        "items_ok todo" "unat (version todo) = 1" "m = service_of (stored st)" by (cases r) (auto simp: CreateRequest)
      have new: "?held (request_list req) = None" using Inr by (auto simp: CreateRequest service_of_def split: if_splits option.splits)
      show ?thesis unfolding save(1) \<open>r = None\<close>
        by (rule answered_committed [OF inv todo(1) st todo(2,3)]) (use todo(4,5) new Inr n in simp_all)
    qed
  next
    case (ItemRequest l oper)
    from from_save_item_outcome [OF assms(1) i(1-3) bound f [unfolded ItemRequest] i(4), of k, folded ItemRequest] obtain r' st' where
      r': "from_save repository req got (sv_store s) = Some (r', st')" and st': "invar st'"
      and out': "case r' of
        None \<Rightarrow> \<exists>old todo. ?held l = Some old \<and> stored st' = ?held(l := Some todo) \<and> list_ID todo = l \<and> items_ok todo \<and>
          version todo = version old + 1 \<and> service_request req (service_of ?held) = Inr (service_of (stored st'))
      | Some e \<Rightarrow> stored st' = ?held \<and>
          lost_race ?h \<lparr>se_client = k, se_invoked = b, se_read = n, se_call = Command req, se_answer = Acknowledged r'\<rparr>" by blast
    have eq: "r' = r" "st' = st" using r' save(3) by simp_all
    note st = st' [unfolded eq] and out = out' [unfolded eq]
    show ?thesis
    proof (cases r)
      case None
      with out obtain old todo where o: "?held l = Some old" "stored st = ?held(l := Some todo)" "list_ID todo = l" "items_ok todo"
        "version todo = version old + 1" "service_request req (service_of ?held) = Inr (service_of (stored st))" by auto
      have "unat (version old) \<le> length ?h" using i(3) o(1) by (auto simp: versions_within_def)
      then have "unat (version todo) = Suc (unat (version old))" using bound by (simp add: o(5) unat_word_ariths)
      with o \<open>unat (version old) \<le> length ?h\<close> show ?thesis unfolding save(1) None
        by (intro answered_committed [OF inv _ st, of _ todo] n) (auto simp: ItemRequest)
    next
      case (Some e)
      with out st n show ?thesis unfolding save(1) by (intro answered_unchanged [OF inv]) (simp_all add: legal_entry_def)
    qed
  qed
qed

lemma service_reachable_inv:
  assumes "inj us" and "service_reachable repository st0 s" and "Suc (length (sv_history s)) < 2 ^ 32"
    and "invar st0" and "stored st0 = (\<lambda>_. None)"
  shows "service_inv s"
  using assms(2,3)
proof induction
  case start
  then show ?case using assms(4,5) by (simp add: service_inv_def service_start_def service_after_def legal_history_def)
next
  case (next_state s s')
  have "length (sv_history s) \<le> length (sv_history s')" using next_state.hyps(2) by cases (auto simp: answered_def)
  with next_state service_step_inv [OF assms(1) next_state.hyps(2)] show ?case by simp
qed

text \<open>No handler panics: the next part of a handler in flight, up to and with its next operation on the store, returns.\<close>

lemma flight_goes_on:
  assumes "inj us" and inv: "service_inv s" and bound: "Suc (length (sv_history s)) < 2 ^ 32" and f: "sv_flights s k = Some f"
  shows "\<exists>s'. service_turn repository (k, None) s = Some s' \<and> steps_left (sv_flights s' k) < steps_left (sv_flights s k)"
proof -
  have i: "invar (sv_store s)" "lists_ok (stored (sv_store s))" "versions_within (length (sv_history s)) (stored (sv_store s))"
    "service_of (stored (sv_store s)) = service_after (sv_history s)" "flight_ok (stored (sv_store s)) (sv_history s) f"
    using inv f by (auto simp: service_inv_def)
  show ?thesis
  proof (cases f)
    case (Invoked b c)
    show ?thesis
    proof (cases c)
      case (Command req)
      obtain r p where u: "until_save repository req (sv_store s) = Some (r, p)"
        using until_save_outcome [OF i(1,2), of req] by auto
      then show ?thesis by (simp add: f Invoked Command answered_def)
    next
      case (Lookup l)
      have l: "get_ID (Message (Query_ToEnvelope \<lparr>get_ID = l\<rparr>)) = l" by (simp add: Query_ToEnvelope_def)
      from get_request [OF i(1) l] obtain r st where
        "GetQueryHandler_Handle get Background (Query_ToEnvelope \<lparr>get_ID = l\<rparr>) (sv_store s) = Some (r, st)" by blast
      then show ?thesis by (simp add: f Invoked Lookup answered_def)
    qed
  next
    case (Saving b n req got)
    have "\<exists>r st. from_save repository req got (sv_store s) = Some (r, st)"
    proof (cases req)
      case (CreateRequest l title owner now)
      with create_request [OF assms(1) i(1), of l title owner now] show ?thesis by (auto simp: from_save_create simp del: handle_request.simps)
    next
      case (ItemRequest l oper)
      with from_save_item_outcome [OF assms(1) i(1-3) bound i(5) [unfolded Saving ItemRequest] i(4)] show ?thesis by blast
    qed
    then show ?thesis by (auto simp: f Saving answered_def)
  qed
qed

end

section \<open>The service of \<open>main.go\<close> under concurrency\<close>

text \<open>C2: Whatever commands and queries are sent to the todo list service of \<open>main.go\<close> at the same time, their handlers interrupted by each other
  between the operations on the store, it works as if they
  were handled one after the other, each at a moment between its invocation and its answer: a command answers what the abstract service says
  at that moment, or it is a command on the items of a list and lost a race: it reports a conflict, and another command has changed the list after it was read; a query
  shows the list of that moment.
  What is stored is what the acknowledged commands make of the empty map, so none of them is lost. A conflict is reported for two reasons only, and names the
  versions: the list to be created existed, or such a race was lost. No handler panics: what each handler in flight does
  next, up to and with its next operation on the store, returns, and there are at most two such parts.\<close>

theorem todo_service_linearizable:
  assumes "inj us" and "service_reachable (todoListRepository us) NewInMemoryStore s" and "Suc (length (sv_history s)) < 2 ^ 32"
  shows "legal_history (sv_history s) \<and> service_of (stored_lists us (sv_store s)) = service_after (sv_history s) \<and>
     conflicts_explained (sv_history s) \<and>
     (\<forall>k. sv_flights s k \<noteq> None \<longrightarrow> steps_left (sv_flights s k) \<le> 2 \<and>
        (\<exists>s'. service_turn (todoListRepository us) (k, None) s = Some s' \<and>
           steps_left (sv_flights s' k) < steps_left (sv_flights s k)))"
proof -
  have inv: "todo_repository.service_inv (stored_lists us) (logs_ok us) s"
    using todo_mem.service_reachable_inv [OF assms(1) _ assms(3) logs_ok_New stored_lists_New] assms(2)
    unfolding todoListRepository_eta by blast
  have "\<exists>s'. service_turn (todoListRepository us) (k, None) s = Some s' \<and> steps_left (sv_flights s' k) < steps_left (sv_flights s k)"
    if "sv_flights s k = Some f" for k f
    using todo_mem.flight_goes_on [OF assms(1) inv assms(3) that] unfolding todoListRepository_eta .
  moreover have "steps_left f \<le> 2" for f by (cases f rule: steps_left.cases) auto
  ultimately show ?thesis using inv by (auto simp: todo_mem.service_inv_def legal_history_conflicts)
qed

text \<open>Two clients add an item to the same list at the same time.\<close>

definition race_schedule :: "(nat \<times> todo_call option) list" where
  "race_schedule =
     [(0, Some (Command (CreateRequest 1 ''groceries'' ''ann'' zero_Time))), (0, None), (0, None),
      (1, Some (Command (ItemRequest 1 (OpAdd 5 ''milk'' '''' zero_Time zero_Time)))),
      (2, Some (Command (ItemRequest 1 (OpAdd 6 ''bread'' '''' zero_Time zero_Time)))),
      (1, None), (2, None), (2, None), (1, None), (3, Some (Lookup 1)), (3, None)]"

lemma race_runs:
  "case service_turns (todoListRepository unary) race_schedule (service_start NewInMemoryStore) of
     None \<Rightarrow> False
   | Some s \<Rightarrow> map se_client (sv_history s) = [0, 2, 1, 3] \<and>
       map (\<lambda>e. conflict_of (se_answer e)) (sv_history s) = [None, None, Some \<lparr>Expected = 1, Actual = 2\<rparr>, None] \<and>
       length (sv_history s) = 4"
  by code_simp

theorem todo_service_linearizable_witness:
  "\<exists>s. service_turns (todoListRepository unary) race_schedule (service_start NewInMemoryStore) = Some s \<and>
     legal_history (sv_history s) \<and> conflicts_explained (sv_history s) \<and> map se_client (sv_history s) = [0, 2, 1, 3] \<and>
     map (\<lambda>e. conflict_of (se_answer e)) (sv_history s) = [None, None, Some \<lparr>Expected = 1, Actual = 2\<rparr>, None]"
proof -
  obtain s where s: "service_turns (todoListRepository unary) race_schedule (service_start NewInMemoryStore) = Some s"
    "map se_client (sv_history s) = [0, 2, 1, 3]"
    "map (\<lambda>e. conflict_of (se_answer e)) (sv_history s) = [None, None, Some \<lparr>Expected = 1, Actual = 2\<rparr>, None]"
    "length (sv_history s) = 4"
    using race_runs by (auto split: option.splits)
  from todo_service_linearizable [OF inj_unary service_turns_reachable [OF service_reachable.start s(1)]] s show ?thesis by simp
qed

end
