(* ===== verification/Postgres_Driver.thy ===== *)
theory Postgres_Driver
  imports Event Serde
begin

text \<open>
  The database driver the package \<open>postgres\<close> works against, and
  \<open>postgres/internal/transaction.go\<close>.

  The module \<open>pgx\<close> is not part of the repository: the record \<open>pgx\<close> of its calls is a parameter of
  every definition, over an abstract pool \<open>'db\<close> and open transaction \<open>'tx\<close>. An SQL statement is the
  query template of the code with its table name and arguments. \<open>QueryRow\<close> followed by \<open>Scan\<close> is one
  call; scanning no row fails with an error that wraps \<open>ErrNoRows\<close>. \<open>tx_pool\<close> is the pool behind a transaction.
\<close>

datatype statement =
    GetEventStream string StreamID
  | UpdateEventStream string StreamID Version
  | AppendDomainEvent string StreamID string Version bytes "bytes option"
  | SelectEvents StreamID Version
  | GetAggregate string string string
  | SaveAggregate string string string Version bytes

datatype iso_level = Serializable | OtherIsolation
datatype access_mode = ReadWrite | OtherAccess

record TxOptions =
  IsoLevel :: iso_level
  AccessMode :: access_mode

definition ErrNoRows :: error where
  "ErrNoRows = Sentinel ''no rows in result set''"

text \<open>
  The rows of a query: each is scanned into a version and two byte slices (a NULL column scans as
  the nil slice, read as the empty list) or fails to scan; \<open>rows_Err\<close> is what \<open>rows.Err()\<close> says after
  the last one.
\<close>

record rows =
  rows_list :: "(error + Version \<times> bytes \<times> bytes) list"
  rows_Err :: "error option"

record ('tx, 'db) pgx =
  BeginTx :: "ctx \<Rightarrow> TxOptions \<Rightarrow> 'db \<Rightarrow> (error + 'tx) \<times> 'db"
  Commit :: "ctx \<Rightarrow> 'tx \<Rightarrow> error option \<times> 'tx"
  Rollback :: "ctx \<Rightarrow> 'tx \<Rightarrow> error option \<times> 'tx"
  tx_pool :: "'tx \<Rightarrow> 'db"
  tx_ScanVersion :: "ctx \<Rightarrow> statement \<Rightarrow> 'tx \<Rightarrow> (error + Version) \<times> 'tx"
  tx_Exec :: "ctx \<Rightarrow> statement \<Rightarrow> 'tx \<Rightarrow> error option \<times> 'tx"
  db_Query :: "ctx \<Rightarrow> statement \<Rightarrow> 'db \<Rightarrow> (error + rows) \<times> 'db"
  db_ScanAggregate :: "ctx \<Rightarrow> statement \<Rightarrow> 'db \<Rightarrow> (error + Version \<times> bytes) \<times> 'db"

section \<open>Transactions\<close>

text \<open>
  The callback \<open>do\<close> works on the open transaction and on \<open>'s\<close>, the variables it captures. A failed
  \<open>Commit\<close> or callback is followed by \<open>Rollback\<close>.
\<close>

definition withContext :: "string \<Rightarrow> error \<Rightarrow> error" where
  "withContext msg e = Errorf ''%s, %w'' [e]"

definition deferred_rollback :: "('tx, 'db) pgx \<Rightarrow> ctx \<Rightarrow> error \<Rightarrow> 'tx \<Rightarrow> error \<times> 'db" where
  "deferred_rollback db ctx e tx =
     (case Rollback db ctx tx of
        (None, tx) \<Rightarrow> (e, tx_pool db tx)
      | (Some rollbackErr, tx) \<Rightarrow>
          (Errorf ''failed to rollback transaction, %w (caused by: %w)'' [rollbackErr, e], tx_pool db tx))"

definition RunTransaction ::
  "('tx, 'db) pgx \<Rightarrow> ctx \<Rightarrow> TxOptions \<Rightarrow> (ctx \<Rightarrow> 'tx \<Rightarrow> 's \<Rightarrow> error option \<times> 'tx \<times> 's) \<Rightarrow> 's \<Rightarrow> 'db \<Rightarrow>
   error option \<times> 's \<times> 'db" where
  "RunTransaction db ctx options action s pool =
     (case BeginTx db ctx options pool of
        (Inl e, pool) \<Rightarrow> (Some (withContext ''failed to begin transaction'' e), s, pool)
      | (Inr tx, pool) \<Rightarrow>
          (case action ctx tx s of
             (Some e, tx, s) \<Rightarrow>
               (let (e, pool) = deferred_rollback db ctx (withContext ''failed to perform transaction'' e) tx
                in (Some e, s, pool))
           | (None, tx, s) \<Rightarrow>
               (case Commit db ctx tx of
                  (Some e, tx) \<Rightarrow>
                    (let (e, pool) = deferred_rollback db ctx (withContext ''failed to commit transaction'' e) tx
                     in (Some e, s, pool))
                | (None, tx) \<Rightarrow> (None, s, tx_pool db tx))))"

section \<open>The contract of a transactional database\<close>

text \<open>
  \<open>visible\<close> is what the pool shows of the data. A transaction starts on it and keeps its own view;
  rolling back, even when the call fails, leaves the pool as it was at the start; a commit that
  succeeds publishes the transaction's view; a commit that fails has either done that already or
  published nothing (the connection can be lost before or after the server commits), and rolling
  back afterwards changes nothing.
\<close>

locale transactional =
  fixes db :: "('tx, 'db) pgx"
    and visible :: "'db \<Rightarrow> 'v"
    and started :: "'tx \<Rightarrow> 'v"
    and view_of :: "'tx \<Rightarrow> 'v"
    and finished :: "'tx \<Rightarrow> bool"
  assumes begin_error: "BeginTx db ctx options pool = (Inl e, pool') \<Longrightarrow> visible pool' = visible pool"
    and begin_ok: "BeginTx db ctx options pool = (Inr tx, pool') \<Longrightarrow>
      started tx = visible pool \<and> view_of tx = visible pool \<and> \<not> finished tx"
    and scan_started: "tx_ScanVersion db ctx stmt tx = (r, tx') \<Longrightarrow> \<not> finished tx \<Longrightarrow>
      started tx' = started tx \<and> \<not> finished tx'"
    and exec_started: "tx_Exec db ctx stmt tx = (x, tx') \<Longrightarrow> \<not> finished tx \<Longrightarrow>
      started tx' = started tx \<and> \<not> finished tx'"
    and rollback_open: "Rollback db ctx tx = (x, tx') \<Longrightarrow> \<not> finished tx \<Longrightarrow> visible (tx_pool db tx') = started tx"
    and rollback_finished: "Rollback db ctx tx = (x, tx') \<Longrightarrow> finished tx \<Longrightarrow>
      visible (tx_pool db tx') = visible (tx_pool db tx)"
    and commit_ok: "Commit db ctx tx = (None, tx') \<Longrightarrow> \<not> finished tx \<Longrightarrow> visible (tx_pool db tx') = view_of tx"
    and commit_error: "Commit db ctx tx = (Some e, tx') \<Longrightarrow> \<not> finished tx \<Longrightarrow>
      finished tx' \<and> (visible (tx_pool db tx') = started tx \<or> visible (tx_pool db tx') = view_of tx)"
begin

text \<open>
  A callback that only issues statements keeps the transaction open. Then a transaction is atomic:
  success publishes the callback's view; failure publishes nothing, unless it is the commit that
  failed after the server had carried it out.
\<close>

definition well_behaved :: "(ctx \<Rightarrow> 'tx \<Rightarrow> 's \<Rightarrow> error option \<times> 'tx \<times> 's) \<Rightarrow> bool" where
  "well_behaved action \<longleftrightarrow>
     (\<forall>ctx tx s e tx' s'. action ctx tx s = (e, tx', s') \<longrightarrow> \<not> finished tx \<longrightarrow>
        started tx' = started tx \<and> \<not> finished tx')"

lemma deferred_rollback_visible:
  assumes "deferred_rollback db ctx e tx = (e', pool')"
  shows "\<not> finished tx \<Longrightarrow> visible pool' = started tx"
    and "finished tx \<Longrightarrow> visible pool' = visible (tx_pool db tx)"
  using assms rollback_open [of ctx tx] rollback_finished [of ctx tx]
  by (auto simp: deferred_rollback_def split: prod.splits option.splits)

lemma RunTransaction_atomic:
  assumes wb: "well_behaved action" and run: "RunTransaction db ctx options action s pool = (r, s', pool')"
  shows "(case r of
     None \<Rightarrow> \<exists>tx tx'. started tx = visible pool \<and> view_of tx = visible pool \<and> \<not> finished tx \<and>
               action ctx tx s = (None, tx', s') \<and> visible pool' = view_of tx'
   | Some e \<Rightarrow> visible pool' = visible pool \<or>
       (\<exists>tx tx'. started tx = visible pool \<and> view_of tx = visible pool \<and> \<not> finished tx \<and>
          action ctx tx s = (None, tx', s') \<and> visible pool' = view_of tx'))"
proof (cases "BeginTx db ctx options pool")
  case (Pair b pool1)
  show ?thesis
  proof (cases b)
    case (Inl e)
    with Pair run begin_error show ?thesis by (auto simp: RunTransaction_def)
  next
    case (Inr tx)
    with Pair have tx: "started tx = visible pool" "view_of tx = visible pool" "\<not> finished tx"
      using begin_ok by blast+
    obtain e tx1 s1 where a: "action ctx tx s = (e, tx1, s1)" by (cases "action ctx tx s")
    with wb tx have tx1: "started tx1 = visible pool" "\<not> finished tx1"
      by (metis well_behaved_def)+
    show ?thesis
    proof (cases e)
      case (Some e')
      obtain e2 pool2 where "deferred_rollback db ctx (withContext ''failed to perform transaction'' e') tx1 = (e2, pool2)"
        by fastforce
      moreover from deferred_rollback_visible(1) [OF this tx1(2)] have "visible pool2 = visible pool"
        using tx1(1) by simp
      ultimately show ?thesis using run Pair Inr a Some by (auto simp: RunTransaction_def)
    next
      case None
      obtain c tx2 where c: "Commit db ctx tx1 = (c, tx2)" by fastforce
      show ?thesis
      proof (cases c)
        case None
        with c commit_ok tx1 have "visible (tx_pool db tx2) = view_of tx1" by blast
        with run Pair Inr a c tx \<open>e = None\<close> None show ?thesis by (auto simp: RunTransaction_def)
      next
        case (Some e')
        obtain e2 pool2 where d: "deferred_rollback db ctx (withContext ''failed to commit transaction'' e') tx2 = (e2, pool2)"
          by fastforce
        from c Some commit_error tx1 have "finished tx2"
          and pub: "visible (tx_pool db tx2) = visible pool \<or> visible (tx_pool db tx2) = view_of tx1"
          by fastforce+
        with deferred_rollback_visible(2) [OF d] have "visible pool2 = visible pool \<or> visible pool2 = view_of tx1"
          by simp
        moreover have "r = Some e2 \<and> s' = s1 \<and> pool' = pool2"
          using run Pair Inr a c d \<open>e = None\<close> Some by (simp add: RunTransaction_def)
        ultimately show ?thesis using a \<open>e = None\<close> tx by auto
      qed
    qed
  qed
qed

end

section \<open>Property\<close>

text \<open>On any database that keeps the contract of a transactional one, running a callback that only
  issues statements is atomic: success means that the callback succeeded on what was visible and that its
  view is visible now; failure of the callback, of the start, of the commit or of the rollback leaves
  what was visible, unless the failed commit had been carried out.\<close>

lemma RunTransaction_all_or_nothing:
  assumes "transactional db visible started view_of finished"
    and "transactional.well_behaved started finished action"
    and "RunTransaction db ctx options action s pool = (r, s', pool')"
  shows "case r of
     None \<Rightarrow> \<exists>tx tx'. view_of tx = visible pool \<and> action ctx tx s = (None, tx', s') \<and> visible pool' = view_of tx'
   | Some e \<Rightarrow> visible pool' = visible pool \<or>
       (\<exists>tx tx'. view_of tx = visible pool \<and> action ctx tx s = (None, tx', s') \<and> visible pool' = view_of tx')"
  using transactional.RunTransaction_atomic [OF assms] by (auto split: option.splits)

end
