(* ===== verification/Postgres_Store.thy ===== *)
theory Postgres_Store
  imports Postgres_Driver Repository
begin

text \<open>
  The event store and the aggregate repository on PostgreSQL: \<open>postgres/append_domain_events.go\<close>,
  \<open>event_store.go\<close>, \<open>aggregate_repository.go\<close> and \<open>option.go\<close>, over the driver \<open>pgx\<close>.
\<close>

text \<open>
  What the code takes from elsewhere: the \<open>Name\<close> method of a message, the rendering of the clock at
  each call of \<open>time.Now\<close> (numbered within one append), and \<open>encoding/json\<close> on metadata.
\<close>

record 'm pg_env =
  message_Name :: "'m \<Rightarrow> string"
  recorded_at :: "nat \<Rightarrow> string"
  json_Marshal :: "(string \<rightharpoonup> string) \<Rightarrow> error + bytes"
  json_Unmarshal :: "bytes \<Rightarrow> error + Metadata"

definition DefaultAggregateTableName :: string where "DefaultAggregateTableName = ''aggregates''"
definition DefaultEventsTableName :: string where "DefaultEventsTableName = ''events''"
definition DefaultStreamsTableName :: string where "DefaultStreamsTableName = ''event_streams''"

section \<open>The text of the statements\<close>

text \<open>A raw string of some lines behind \<open>n\<close> tabs, and \<open>fmt.Sprintf\<close> with one \<open>%s\<close>.\<close>

definition raw_sql :: "nat \<Rightarrow> string list \<Rightarrow> string" where
  "raw_sql n ls = concat (map (\<lambda>l. CHR 0x0A # replicate n (CHR 0x09) @ l) ls) @ CHR 0x0A # replicate (n - 1) (CHR 0x09)"

fun Sprintf_s :: "string \<Rightarrow> string \<Rightarrow> string" where
  "Sprintf_s [] a = []"
| "Sprintf_s [c] a = [c]"
| "Sprintf_s (c # d # cs) a = (if c = CHR ''%'' \<and> d = CHR ''s'' then a @ cs else c # Sprintf_s (d # cs) a)"

definition getEventStreamQueryTemplate :: string where
  "getEventStreamQueryTemplate = raw_sql 2 [''SELECT version'', ''FROM %s'', ''WHERE event_stream_id = $1'']"

definition updateEventStreamQueryTemplate :: string where
  "updateEventStreamQueryTemplate = raw_sql 2 [''INSERT INTO %s (event_stream_id, version)'', ''VALUES ($1, $2)'',
     ''ON CONFLICT (event_stream_id) DO'', ''UPDATE SET version = $2'']"

definition appendDomainEventQueryTemplate :: string where
  "appendDomainEventQueryTemplate = raw_sql 1
     [''INSERT INTO %s (event_stream_id, \"type\", \"version\", event, metadata)'', ''VALUES ($1, $2, $3, $4, $5)'']"

definition getAggregateQueryTemplate :: string where
  "getAggregateQueryTemplate = raw_sql 1 [''SELECT version, state'', ''FROM %s'', ''WHERE aggregate_id = $1 AND \"type\" = $2'']"

definition saveAggregateQueryTemplate :: string where
  "saveAggregateQueryTemplate = raw_sql 1 [''INSERT INTO %s (aggregate_id, \"type\", \"version\", \"state\")'',
     ''VALUES ($1, $2, $3, $4)'', ''ON CONFLICT (aggregate_id) DO'', ''UPDATE SET \"version\" = $3, \"state\" = $4'']"

text \<open>
  What the driver is sent for a statement of the model. Only the configured table name is put into the text; the values are bound to the
  placeholders.
\<close>

fun statement_sql :: "statement \<Rightarrow> string" where
  "statement_sql (GetEventStream streamsTableName sid) = Sprintf_s getEventStreamQueryTemplate streamsTableName"
| "statement_sql (UpdateEventStream streamsTableName sid v) = Sprintf_s updateEventStreamQueryTemplate streamsTableName"
| "statement_sql (AppendDomainEvent eventsTableName sid name v data metadata) = Sprintf_s appendDomainEventQueryTemplate eventsTableName"
| "statement_sql (SelectEvents sid v) = ''SELECT version, event, metadata FROM events'' @
     CHR 0x0A # replicate 3 (CHR 0x09) @ ''WHERE event_stream_id = $1 AND version >= $2'' @
     CHR 0x0A # replicate 3 (CHR 0x09) @ ''ORDER BY version''"
| "statement_sql (GetAggregate aggregateTableName i name) = Sprintf_s getAggregateQueryTemplate aggregateTableName"
| "statement_sql (SaveAggregate aggregateTableName i name v state) = Sprintf_s saveAggregateQueryTemplate aggregateTableName"

section \<open>Appending domain events\<close>

definition serializeMetadata :: "'m pg_env \<Rightarrow> Metadata \<Rightarrow> error + bytes option" where
  "serializeMetadata env metadata =
     (case metadata of
        None \<Rightarrow> Inr None
      | Some m \<Rightarrow>
          (case json_Marshal env m of
             Inl e \<Rightarrow> Inl (Errorf ''postgres.serializeMetadata: failed to marshal to json, %w'' [e])
           | Inr data \<Rightarrow> Inr (Some data)))"

text \<open>
  The metadata that is stored. \<open>With\<close> writes into the map of the caller's envelope when there is one;
  here only the value that is serialized next matters.
\<close>

definition enrichedMetadata :: "'m pg_env \<Rightarrow> nat \<Rightarrow> Version \<Rightarrow> Metadata \<Rightarrow> Metadata" where
  "enrichedMetadata env i newVersion metadata =
     with_value (with_value metadata ''Recorded-At'' (recorded_at env i))
       ''Recorded-With-New-Overall-Version'' (Itoa (unat newVersion))"

definition appendDomainEvent ::
  "('tx, 'db) pgx \<Rightarrow> 'm pg_env \<Rightarrow> ctx \<Rightarrow> string \<Rightarrow> ('m, bytes) Serializer \<Rightarrow> StreamID \<Rightarrow> Version \<Rightarrow> Version \<Rightarrow>
   nat \<Rightarrow> 'm Envelope \<Rightarrow> 'tx \<Rightarrow> error option \<times> 'tx" where
  "appendDomainEvent db env ctx eventsTableName messageSerializer i eventVersion newVersion k evt tx =
     (let msg = Message evt in
      case messageSerializer msg of
        Inl e \<Rightarrow> (Some (Errorf ''postgres.appendDomainEvent: failed to serialize domain event, %w'' [e]), tx)
      | Inr data \<Rightarrow>
          (case serializeMetadata env (enrichedMetadata env k newVersion (Metadata evt)) of
             Inl e \<Rightarrow> (Some e, tx)
           | Inr metadata \<Rightarrow>
               (case tx_Exec db ctx (AppendDomainEvent eventsTableName i (message_Name env msg) eventVersion data metadata) tx of
                  (Some e, tx) \<Rightarrow>
                    (Some (Errorf ''postgres.appendDomainEvent: failed to append new domain event to event store, %w'' [e]), tx)
                | (None, tx) \<Rightarrow> (None, tx))))"

primrec appendDomainEvents_loop ::
  "('tx, 'db) pgx \<Rightarrow> 'm pg_env \<Rightarrow> ctx \<Rightarrow> string \<Rightarrow> ('m, bytes) Serializer \<Rightarrow> StreamID \<Rightarrow> Version \<Rightarrow> Version \<Rightarrow>
   nat \<Rightarrow> 'm Envelope list \<Rightarrow> 'tx \<Rightarrow> error option \<times> 'tx" where
  "appendDomainEvents_loop db env ctx eventsTableName messageSerializer sid oldVersion newVersion i [] tx = (None, tx)"
| "appendDomainEvents_loop db env ctx eventsTableName messageSerializer sid oldVersion newVersion i (evt # evts) tx =
     (let eventVersion = oldVersion + word_of_nat i + 1 in
      case appendDomainEvent db env ctx eventsTableName messageSerializer sid eventVersion newVersion i evt tx of
        (Some e, tx) \<Rightarrow> (Some e, tx)
      | (None, tx) \<Rightarrow>
          appendDomainEvents_loop db env ctx eventsTableName messageSerializer sid oldVersion newVersion (Suc i) evts tx)"

text \<open>After the version check: update the stream, then append the events one by one.\<close>

definition appendDomainEvents_checked ::
  "('tx, 'db) pgx \<Rightarrow> 'm pg_env \<Rightarrow> ctx \<Rightarrow> string \<Rightarrow> string \<Rightarrow> ('m, bytes) Serializer \<Rightarrow> StreamID \<Rightarrow> Version \<Rightarrow>
   'm Envelope list \<Rightarrow> 'tx \<Rightarrow> (Version \<times> error option) \<times> 'tx" where
  "appendDomainEvents_checked db env ctx eventsTableName streamsTableName messageSerializer sid oldVersion evts tx =
     (let newVersion = oldVersion + version_of evts in
      case tx_Exec db ctx (UpdateEventStream streamsTableName sid newVersion) tx of
        (Some e, tx) \<Rightarrow> ((0, Some (Errorf ''postgres.EventStore: failed to update event stream, %w'' [e])), tx)
      | (None, tx) \<Rightarrow>
          (case appendDomainEvents_loop db env ctx eventsTableName messageSerializer sid oldVersion newVersion 0 evts tx of
             (Some e, tx) \<Rightarrow> ((0, Some e), tx)
           | (None, tx) \<Rightarrow> ((newVersion, None), tx)))"

text \<open>A scan that finds no row leaves \<open>oldVersion\<close> at zero.\<close>

definition scanned_version :: "error + Version \<Rightarrow> error + Version" where
  "scanned_version row = (case row of Inl e \<Rightarrow> if errors_Is e ErrNoRows then Inr 0 else Inl e | Inr v \<Rightarrow> Inr v)"

definition appendDomainEvents ::
  "('tx, 'db) pgx \<Rightarrow> 'm pg_env \<Rightarrow> ctx \<Rightarrow> string \<Rightarrow> string \<Rightarrow> ('m, bytes) Serializer \<Rightarrow> StreamID \<Rightarrow> Check \<Rightarrow>
   'm Envelope list \<Rightarrow> 'tx \<Rightarrow> (Version \<times> error option) \<times> 'tx" where
  "appendDomainEvents db env ctx eventsTableName streamsTableName messageSerializer sid expected evts tx =
     (let (row, tx) = tx_ScanVersion db ctx (GetEventStream streamsTableName sid) tx in
      case scanned_version row of
        Inl e \<Rightarrow>
          ((0, Some (Errorf ''postgres.appendDomainEvents: failed to scan old event stream version, %w'' [e])), tx)
      | Inr oldVersion \<Rightarrow>
          (case expected of
             CheckExact v \<Rightarrow>
               if oldVersion \<noteq> v
               then ((0, Some (Errorf ''postgres.appendDomainEvents: event stream version check failed, %w''
                          [Conflict \<lparr>Expected = v, Actual = oldVersion\<rparr>])), tx)
               else appendDomainEvents_checked db env ctx eventsTableName streamsTableName messageSerializer sid oldVersion evts tx
           | CheckAny \<Rightarrow>
               appendDomainEvents_checked db env ctx eventsTableName streamsTableName messageSerializer sid oldVersion evts tx))"

section \<open>The event store\<close>

record ('tx, 'db, 'm) pg_EventStore =
  es_conn :: "('tx, 'db) pgx"
  es_messageSerde :: "'m Bytes"

definition NewEventStore :: "('tx, 'db) pgx \<Rightarrow> ('m, bytes) Fused \<Rightarrow> ('tx, 'db, 'm) pg_EventStore" where
  "NewEventStore conn messageSerde = \<lparr>es_conn = conn, es_messageSerde = messageSerde\<rparr>"

primrec pg_rows_loop ::
  "('m, bytes) Deserializer \<Rightarrow> (bytes \<Rightarrow> error + Metadata) \<Rightarrow> StreamID \<Rightarrow> error option \<Rightarrow> 'db \<Rightarrow>
   (error + Version \<times> bytes \<times> bytes) list \<Rightarrow> ('m Persisted, 'db) producer" where
  "pg_rows_loop deserialize unmarshal sid rowsErr pool [] =
     (case rowsErr of
        Some e \<Rightarrow> Return (Some (Errorf ''postgres.EventStore: failed to iterate events rows, %w'' [e])) pool
      | None \<Rightarrow> Return None pool)"
| "pg_rows_loop deserialize unmarshal sid rowsErr pool (row # rest) =
     (case row of
        Inl e \<Rightarrow> Return (Some (Errorf ''postgres.EventStore: failed to scan next row, %w'' [e])) pool
      | Inr (eventVersion, rawEvent, rawMetadata) \<Rightarrow>
          (case deserialize rawEvent of
             Inl e \<Rightarrow> Return (Some (Errorf ''postgres.EventStore: failed to deserialize event, %w'' [e])) pool
           | Inr msg \<Rightarrow>
               (case unmarshal rawMetadata of
                  Inl e \<Rightarrow> Return (Some (Errorf ''postgres.EventStore: failed to deserialize metadata, %w'' [e])) pool
                | Inr metadata \<Rightarrow>
                    Yield \<lparr>StreamID = sid, Version = eventVersion,
                           Envelope = \<lparr>Message = msg, Metadata = metadata\<rparr>\<rparr>
                      (\<lambda>go. if \<not> go then Return None pool
                            else pg_rows_loop deserialize unmarshal sid rowsErr pool rest))))"

definition pg_EventStore_Stream :: "('tx, 'db, 'm) pg_EventStore \<Rightarrow> 'm pg_env \<Rightarrow> ('m, 'db) Streamer" where
  "pg_EventStore_Stream es env ctx sid selector =
     NewStream (\<lambda>pool.
       case db_Query (es_conn es) ctx (SelectEvents sid (From selector)) pool of
         (Inl e, pool) \<Rightarrow> Return (Some (Errorf ''postgres.EventStore: failed to query events table, %w'' [e])) pool
       | (Inr rows, pool) \<Rightarrow>
           pg_rows_loop (Deserialize (es_messageSerde es)) (json_Unmarshal env) sid (rows_Err rows) pool (rows_list rows))"

definition serializable_rw :: TxOptions where
  "serializable_rw = \<lparr>IsoLevel = Serializable, AccessMode = ReadWrite\<rparr>"

text \<open>The callback assigns the captured \<open>newVersion\<close>.\<close>

definition pg_EventStore_Append :: "('tx, 'db, 'm) pg_EventStore \<Rightarrow> 'm pg_env \<Rightarrow> ('m, 'db) Appender" where
  "pg_EventStore_Append es env ctx sid expected evts pool =
     (let (result, newVersion, pool) =
        RunTransaction (es_conn es) ctx serializable_rw
          (\<lambda>ctx tx newVersion.
             let ((v, e), tx) = appendDomainEvents (es_conn es) env ctx DefaultEventsTableName DefaultStreamsTableName
                   (Serialize (es_messageSerde es)) sid expected evts tx
             in case e of
                  Some e \<Rightarrow> (Some (Errorf ''postgres.EventStore: failed to append domain events, %w'' [e]), tx, v)
                | None \<Rightarrow> (None, tx, v))
          0 pool
      in case result of Some e \<Rightarrow> ((0, Some e), pool) | None \<Rightarrow> ((newVersion, None), pool))"

section \<open>The aggregate repository\<close>

record ('tx, 'db, 'id, 'm, 'z) AggregateRepository =
  ar_conn :: "('tx, 'db) pgx"
  aggregateType :: "('id, 'm, 'z) Type"
  aggregateSerde :: "('m, 'z) BaseRoot_scheme Bytes"
  ar_messageSerde :: "'m Bytes"
  aggregateTableName :: string
  eventsTableName :: string
  streamsTableName :: string

text \<open>An option is the function it applies to the repository.\<close>

type_synonym ('tx, 'db, 'id, 'm, 'z) Option =
  "('tx, 'db, 'id, 'm, 'z) AggregateRepository \<Rightarrow> ('tx, 'db, 'id, 'm, 'z) AggregateRepository"

definition WithAggregateTableName :: "string \<Rightarrow> ('tx, 'db, 'id, 'm, 'z) Option" where
  "WithAggregateTableName tableName repository = repository\<lparr>aggregateTableName := tableName\<rparr>"

definition WithEventsTableName :: "string \<Rightarrow> ('tx, 'db, 'id, 'm, 'z) Option" where
  "WithEventsTableName tableName repository = repository\<lparr>eventsTableName := tableName\<rparr>"

definition WithStreamsTableName :: "string \<Rightarrow> ('tx, 'db, 'id, 'm, 'z) Option" where
  "WithStreamsTableName tableName repository = repository\<lparr>streamsTableName := tableName\<rparr>"

definition NewAggregateRepository ::
  "('tx, 'db) pgx \<Rightarrow> ('id, 'm, 'z) Type \<Rightarrow> (('m, 'z) BaseRoot_scheme, bytes) Fused \<Rightarrow> ('m, bytes) Fused \<Rightarrow>
   ('tx, 'db, 'id, 'm, 'z) Option list \<Rightarrow> ('tx, 'db, 'id, 'm, 'z) AggregateRepository" where
  "NewAggregateRepository conn t aggregate_serde message_serde options =
     foldl (\<lambda>repo opt. opt repo)
       \<lparr>ar_conn = conn, aggregateType = t, aggregateSerde = aggregate_serde, ar_messageSerde = message_serde,
        aggregateTableName = DefaultAggregateTableName, eventsTableName = DefaultEventsTableName,
        streamsTableName = DefaultStreamsTableName\<rparr> options"

definition AggregateRepository_get ::
  "('tx, 'db, 'id, 'm, 'z) AggregateRepository \<Rightarrow> ctx \<Rightarrow> 'id \<Rightarrow> 'db \<Rightarrow> (error + ('m, 'z) BaseRoot_scheme) \<times> 'db" where
  "AggregateRepository_get repo ctx i pool =
     (case db_ScanAggregate (ar_conn repo) ctx
             (GetAggregate (aggregateTableName repo) (String (aggregateType repo) i) (Name (aggregateType repo))) pool of
        (Inl e, pool) \<Rightarrow>
          if errors_Is e ErrNoRows then (Inl ErrRootNotFound, pool)
          else (Inl (Errorf ''postgres.AggregateRepository: failed to fetch aggregate state from database, %w'' [e]), pool)
      | (Inr (v, state), pool) \<Rightarrow>
          (case RehydrateFromState v state (Deserialize (aggregateSerde repo)) of
             Inl e \<Rightarrow>
               (Inl (Errorf ''postgres.AggregateRepository: failed to deserialize state into aggregate root object, %w'' [e]), pool)
           | Inr root \<Rightarrow> (Inr root, pool)))"

definition AggregateRepository_Get ::
  "('tx, 'db, 'id, 'm, 'z) AggregateRepository \<Rightarrow> ('id, ('m, 'z) BaseRoot_scheme, 'db) Getter" where
  "AggregateRepository_Get repo ctx i pool = Some (AggregateRepository_get repo ctx i pool)"

text \<open>\<open>fmt.Errorf\<close> of a prefixed message: an operand is wrapped only where the message has a \<open>%w\<close>.\<close>

definition saveErr :: "string \<Rightarrow> error list \<Rightarrow> error" where
  "saveErr msg args = Errorf (''postgres.AggregateRepository: '' @ msg) args"

definition saveAggregateState ::
  "('tx, 'db, 'id, 'm, 'z) AggregateRepository \<Rightarrow> ctx \<Rightarrow> StreamID \<Rightarrow> ('m, 'z) BaseRoot_scheme \<Rightarrow> 'tx \<Rightarrow>
   error option \<times> 'tx" where
  "saveAggregateState repo ctx i root tx =
     (case Serialize (aggregateSerde repo) root of
        Inl e \<Rightarrow> (Some (saveErr ''failed to serialize aggregate root into wire format, %w'' [e]), tx)
      | Inr state \<Rightarrow>
          (case tx_Exec (ar_conn repo) ctx
                  (SaveAggregate (aggregateTableName repo) i (Name (aggregateType repo)) (version root) state) tx of
             (Some e, tx) \<Rightarrow> (Some (saveErr ''failed to save new aggregate state, %w'' [e]), tx)
           | (None, tx) \<Rightarrow> (None, tx)))"

text \<open>
  The callback of \<open>Save\<close> on the captured root. The message of a version mismatch has no verb for the
  conflict it is given.
\<close>

definition AggregateRepository_save_action ::
  "('tx, 'db, 'id, 'm, 'z) AggregateRepository \<Rightarrow> 'm pg_env \<Rightarrow> ctx \<Rightarrow> 'tx \<Rightarrow> ('m, 'z) BaseRoot_scheme \<Rightarrow>
   error option \<times> 'tx \<times> ('m, 'z) BaseRoot_scheme" where
  "AggregateRepository_save_action repo env ctx tx root =
     (let (eventsToCommit, root) = FlushRecordedEvents root;
          expectedRootVersion = version root - version_of eventsToCommit;
          eventStreamID = String (aggregateType repo) (AggregateID (aggregateType repo) root);
          ((newEventStreamVersion, e), tx) =
            appendDomainEvents (ar_conn repo) env ctx (eventsTableName repo) (streamsTableName repo)
              (Serialize (ar_messageSerde repo)) eventStreamID (CheckExact expectedRootVersion) eventsToCommit tx
      in case e of
           Some e \<Rightarrow> (Some e, tx, root)
         | None \<Rightarrow>
             if newEventStreamVersion \<noteq> version root
             then (Some (saveErr ''version mismatch between event stream and aggregate'' []), tx, root)
             else (case saveAggregateState repo ctx eventStreamID root tx of (e, tx) \<Rightarrow> (e, tx, root)))"

definition AggregateRepository_Save ::
  "('tx, 'db, 'id, 'm, 'z) AggregateRepository \<Rightarrow> 'm pg_env \<Rightarrow> (('m, 'z) BaseRoot_scheme, 'db) Saver" where
  "AggregateRepository_Save repo env ctx root pool =
     RunTransaction (ar_conn repo) ctx serializable_rw (AggregateRepository_save_action repo env) root pool"

section \<open>The callbacks keep their transaction open\<close>

context transactional
begin

lemma appendDomainEvent_keeps:
  "appendDomainEvent db env ctx table ser sid v nv k evt tx = (e, tx') \<Longrightarrow> \<not> finished tx \<Longrightarrow>
   started tx' = started tx \<and> \<not> finished tx'"
  using exec_started
  by (auto simp: appendDomainEvent_def Let_def split: sum.splits prod.splits option.splits)

lemma appendDomainEvents_loop_keeps:
  "appendDomainEvents_loop db env ctx table ser sid old new k evts tx = (e, tx') \<Longrightarrow> \<not> finished tx \<Longrightarrow>
   started tx' = started tx \<and> \<not> finished tx'"
proof (induction evts arbitrary: k tx)
  case Nil
  then show ?case by simp
next
  case (Cons evt evts)
  obtain e1 tx1 where a: "appendDomainEvent db env ctx table ser sid (old + word_of_nat k + 1) new k evt tx = (e1, tx1)"
    by fastforce
  from appendDomainEvent_keeps [OF a Cons.prems(2)] Cons.prems(1) Cons.IH [of "Suc k" tx1] a show ?case
    by (cases e1) (auto simp: Let_def)
qed

lemma appendDomainEvents_checked_keeps:
  assumes "appendDomainEvents_checked db env ctx etable streams ser sid old evts tx = (r, tx')" and "\<not> finished tx"
  shows "started tx' = started tx \<and> \<not> finished tx'"
proof -
  let ?new = "old + version_of evts"
  obtain x tx1 where u: "tx_Exec db ctx (UpdateEventStream streams sid ?new) tx = (x, tx1)" by fastforce
  obtain y tx2 where l: "appendDomainEvents_loop db env ctx etable ser sid old ?new 0 evts tx1 = (y, tx2)" by fastforce
  from exec_started [OF u assms(2)] have tx1: "started tx1 = started tx" "\<not> finished tx1" by auto
  from appendDomainEvents_loop_keeps [OF l tx1(2)] tx1 have "started tx2 = started tx" "\<not> finished tx2" by auto
  with assms(1) u l tx1 show ?thesis
    by (cases x; cases y) (auto simp: appendDomainEvents_checked_def Let_def)
qed

lemma appendDomainEvents_keeps:
  assumes "appendDomainEvents db env ctx etable streams ser sid expected evts tx = (r, tx')" and "\<not> finished tx"
  shows "started tx' = started tx \<and> \<not> finished tx'"
proof -
  obtain row tx1 where s: "tx_ScanVersion db ctx (GetEventStream streams sid) tx = (row, tx1)" by fastforce
  from scan_started [OF s assms(2)] have tx1: "started tx1 = started tx" "\<not> finished tx1" by auto
  show ?thesis
  proof (cases "scanned_version row")
    case (Inl e)
    with assms(1) s tx1 show ?thesis by (auto simp: appendDomainEvents_def)
  next
    case (Inr v)
    with assms(1) s tx1 appendDomainEvents_checked_keeps [of env ctx etable streams ser sid v evts tx1] show ?thesis
      by (cases expected) (auto simp: appendDomainEvents_def split: if_splits)
  qed
qed

lemma well_behavedI:
  "(\<And>ctx tx s e tx' s'. action ctx tx s = (e, tx', s') \<Longrightarrow> \<not> finished tx \<Longrightarrow> started tx' = started tx \<and> \<not> finished tx') \<Longrightarrow>
   well_behaved action"
  by (auto simp: well_behaved_def)

end

end
