(* ===== verification/Postgres_Schema.thy ===== *)
theory Postgres_Schema
  imports Postgres_Store
begin

text \<open>
  The tables that the migrations in \<open>postgres/migrations/*.sql\<close> create, the meaning of the SQL
  statements of the package on them, and a driver over these tables that can fail at any call. The
  transactions are serializable, so one that commits works as if it ran alone.
\<close>

section \<open>Tables\<close>

record event_row =
  row_stream :: StreamID
  row_type :: string
  row_version :: int
  row_event :: bytes
  row_metadata :: "bytes option"

record aggregate_row =
  agg_type :: string
  agg_row_version :: int
  agg_state :: bytes

text \<open>\<open>event_streams\<close> and \<open>aggregates\<close> by primary key; \<open>events\<close> as the list of its rows.\<close>

record tables =
  event_streams :: "StreamID \<rightharpoonup> int"
  events_table :: "event_row list"
  aggregates_table :: "string \<rightharpoonup> aggregate_row"

definition no_tables :: tables where
  "no_tables = \<lparr>event_streams = Map.empty, events_table = [], aggregates_table = Map.empty\<rparr>"

definition pg_error :: "string \<Rightarrow> error" where
  "pg_error msg = Errorf msg []"

text \<open>A version scans into a \<open>uint32\<close> when it fits; versions are BIGINT columns.\<close>

definition scan_uint32 :: "int \<Rightarrow> error + Version" where
  "scan_uint32 v = (if 0 \<le> v \<and> v < 2 ^ 32 then Inr (word_of_int v) else Inl (pg_error ''value out of range for uint32''))"

definition select_version :: "statement \<Rightarrow> tables \<Rightarrow> error + Version" where
  "select_version stmt t =
     (case stmt of
        GetEventStream table i \<Rightarrow>
          if table \<noteq> DefaultStreamsTableName then Inl (pg_error ''undefined table'')
          else (case event_streams t i of None \<Rightarrow> Inl ErrNoRows | Some v \<Rightarrow> scan_uint32 v)
      | _ \<Rightarrow> Inl (pg_error ''wrong columns''))"

definition rows_of :: "tables \<Rightarrow> StreamID \<Rightarrow> event_row list" where
  "rows_of t i = filter (\<lambda>r. row_stream r = i) (events_table t)"

text \<open>
  Writing: the checks \<open>version > 0\<close>, the primary key of \<open>events\<close> and the foreign keys into
  \<open>event_streams\<close>.
\<close>

definition execute :: "statement \<Rightarrow> tables \<Rightarrow> error + tables" where
  "execute stmt t =
     (case stmt of
        UpdateEventStream table i v \<Rightarrow>
          if table \<noteq> DefaultStreamsTableName then Inl (pg_error ''undefined table'')
          else if \<not> 0 < uint v then Inl (pg_error ''check constraint violated'')
          else Inr (t\<lparr>event_streams := (event_streams t)(i \<mapsto> uint v)\<rparr>)
      | AppendDomainEvent table i ty v data metadata \<Rightarrow>
          if table \<noteq> DefaultEventsTableName then Inl (pg_error ''undefined table'')
          else if \<not> 0 < uint v then Inl (pg_error ''check constraint violated'')
          else if event_streams t i = None then Inl (pg_error ''foreign key violated'')
          else if list_ex (\<lambda>r. row_version r = uint v) (rows_of t i) then Inl (pg_error ''duplicate key'')
          else Inr (t\<lparr>events_table := events_table t @
                 [\<lparr>row_stream = i, row_type = ty, row_version = uint v, row_event = data, row_metadata = metadata\<rparr>]\<rparr>)
      | SaveAggregate table i ty v state \<Rightarrow>
          if table \<noteq> DefaultAggregateTableName then Inl (pg_error ''undefined table'')
          else if \<not> 0 < uint v then Inl (pg_error ''check constraint violated'')
          else if event_streams t i = None then Inl (pg_error ''foreign key violated'')
          else Inr (t\<lparr>aggregates_table := (aggregates_table t)(i \<mapsto>
                 (case aggregates_table t i of
                    None \<Rightarrow> \<lparr>agg_type = ty, agg_row_version = uint v, agg_state = state\<rparr>
                  | Some row \<Rightarrow> row\<lparr>agg_row_version := uint v, agg_state := state\<rparr>))\<rparr>)
      | _ \<Rightarrow> Inr t)"

definition scan_row :: "event_row \<Rightarrow> error + Version \<times> bytes \<times> bytes" where
  "scan_row r =
     (case scan_uint32 (row_version r) of
        Inl e \<Rightarrow> Inl e
      | Inr v \<Rightarrow> Inr (v, row_event r, (case row_metadata r of None \<Rightarrow> [] | Some m \<Rightarrow> m)))"

definition select_events :: "statement \<Rightarrow> tables \<Rightarrow> error + rows" where
  "select_events stmt t =
     (case stmt of
        SelectEvents i v \<Rightarrow>
          Inr \<lparr>rows_list = map scan_row (sort_key row_version (filter (\<lambda>r. uint v \<le> row_version r) (rows_of t i))),
               rows_Err = None\<rparr>
      | _ \<Rightarrow> Inl (pg_error ''wrong columns''))"

definition select_aggregate :: "statement \<Rightarrow> tables \<Rightarrow> error + Version \<times> bytes" where
  "select_aggregate stmt t =
     (case stmt of
        GetAggregate table i ty \<Rightarrow>
          if table \<noteq> DefaultAggregateTableName then Inl (pg_error ''undefined table'')
          else (case aggregates_table t i of
                  None \<Rightarrow> Inl ErrNoRows
                | Some row \<Rightarrow>
                    if agg_type row \<noteq> ty then Inl ErrNoRows
                    else (case scan_uint32 (agg_row_version row) of Inl e \<Rightarrow> Inl e | Inr v \<Rightarrow> Inr (v, agg_state row)))
      | _ \<Rightarrow> Inl (pg_error ''wrong columns''))"

section \<open>A driver that can fail\<close>

text \<open>
  \<open>faults k\<close> is the failure of the \<open>k\<close>-th call, if it fails; \<open>landed k\<close> says whether a commit that
  fails at that call had reached the server. After a failed statement the transaction is aborted.
\<close>

type_synonym faults = "nat \<Rightarrow> error option"

record pool =
  tables_now :: tables
  calls :: nat

record transaction = pool +
  tx_base :: tables
  tx_work :: tables
  tx_done :: bool
  tx_aborted :: bool

definition next_call :: "transaction \<Rightarrow> transaction" where
  "next_call tx = tx\<lparr>calls := Suc (calls tx)\<rparr>"

definition on_tx :: "faults \<Rightarrow> (tables \<Rightarrow> error + 'a) \<Rightarrow> transaction \<Rightarrow> (error + 'a) \<times> transaction" where
  "on_tx faults f tx =
     (case faults (calls tx) of
        Some e \<Rightarrow> (Inl e, (next_call tx)\<lparr>tx_aborted := True\<rparr>)
      | None \<Rightarrow>
          if tx_done tx \<or> tx_aborted tx then (Inl (pg_error ''current transaction is aborted''), next_call tx)
          else (f (tx_work tx), next_call tx))"

definition pg_Commit :: "faults \<Rightarrow> (nat \<Rightarrow> bool) \<Rightarrow> transaction \<Rightarrow> error option \<times> transaction" where
  "pg_Commit faults landed tx =
     (let tx' = (next_call tx)\<lparr>tx_done := True\<rparr> in
      if tx_done tx then (Some (Sentinel ''tx is closed''), next_call tx)
      else if tx_aborted tx then (Some (Sentinel ''commit unexpectedly resulted in rollback''), tx'\<lparr>tables_now := tx_base tx\<rparr>)
      else
        (case faults (calls tx) of
           Some e \<Rightarrow> (Some e, tx'\<lparr>tables_now := if landed (calls tx) then tx_work tx else tx_base tx\<rparr>)
         | None \<Rightarrow> (None, tx'\<lparr>tables_now := tx_work tx\<rparr>)))"

definition pg_Rollback :: "faults \<Rightarrow> transaction \<Rightarrow> error option \<times> transaction" where
  "pg_Rollback faults tx =
     (if tx_done tx then (Some (Sentinel ''tx is closed''), next_call tx)
      else (faults (calls tx), (next_call tx)\<lparr>tx_done := True, tables_now := tx_base tx\<rparr>))"

definition on_pool :: "faults \<Rightarrow> (tables \<Rightarrow> error + 'a) \<Rightarrow> pool \<Rightarrow> (error + 'a) \<times> pool" where
  "on_pool faults f p =
     (case faults (calls p) of
        Some e \<Rightarrow> (Inl e, p\<lparr>calls := Suc (calls p)\<rparr>)
      | None \<Rightarrow> (f (tables_now p), p\<lparr>calls := Suc (calls p)\<rparr>))"

definition engine :: "faults \<Rightarrow> (nat \<Rightarrow> bool) \<Rightarrow> (transaction, pool) pgx" where
  "engine faults landed =
     \<lparr>BeginTx = (\<lambda>ctx options p.
        case faults (calls p) of
          Some e \<Rightarrow> (Inl e, p\<lparr>calls := Suc (calls p)\<rparr>)
        | None \<Rightarrow>
            (Inr \<lparr>tables_now = tables_now p, calls = Suc (calls p), tx_base = tables_now p, tx_work = tables_now p,
                  tx_done = False, tx_aborted = False\<rparr>, p)),
      Commit = (\<lambda>ctx. pg_Commit faults landed),
      Rollback = (\<lambda>ctx. pg_Rollback faults),
      tx_pool = (\<lambda>tx. \<lparr>tables_now = tables_now tx, calls = calls tx\<rparr>),
      tx_ScanVersion = (\<lambda>ctx stmt. on_tx faults (select_version stmt)),
      tx_Exec = (\<lambda>ctx stmt tx.
        case on_tx faults (execute stmt) tx of
          (Inl e, tx) \<Rightarrow> (Some e, tx\<lparr>tx_aborted := True\<rparr>)
        | (Inr t, tx) \<Rightarrow> (None, tx\<lparr>tx_work := t\<rparr>)),
      db_Query = (\<lambda>ctx stmt. on_pool faults (select_events stmt)),
      db_ScanAggregate = (\<lambda>ctx stmt. on_pool faults (select_aggregate stmt))\<rparr>"

text \<open>
  The engine is transactional, whatever fails.
\<close>

interpretation pg: transactional "engine faults landed" tables_now tx_base tx_work tx_done
  for faults :: faults and landed :: "nat \<Rightarrow> bool"
  by unfold_locales
    (auto simp: engine_def pg_Commit_def pg_Rollback_def on_tx_def next_call_def Let_def
      split: option.splits if_splits prod.splits sum.splits)

end
