(* ===== verification/Postgres_Correct.thy ===== *)
theory Postgres_Correct
  imports Postgres_Schema
begin

text \<open>
  What the PostgreSQL event store and aggregate repository guarantee on the tables of the
  migrations: atomicity whatever fails, and the outcome of each operation when nothing does.
\<close>

section \<open>Appending, abstractly\<close>

text \<open>The rows that appending \<open>evts\<close> adds, unless an event or its metadata cannot be serialized.\<close>

primrec new_rows ::
  "'m pg_env \<Rightarrow> ('m, bytes) Serializer \<Rightarrow> StreamID \<Rightarrow> Version \<Rightarrow> Version \<Rightarrow> nat \<Rightarrow> 'm Envelope list \<Rightarrow>
   event_row list option" where
  "new_rows env ser sid old new i [] = Some []"
| "new_rows env ser sid old new i (evt # evts) =
     (case (ser (Message evt), serializeMetadata env (enrichedMetadata env i new (Metadata evt))) of
        (Inr data, Inr metadata) \<Rightarrow>
          map_option (\<lambda>rs. \<lparr>row_stream = sid, row_type = message_Name env (Message evt),
              row_version = uint (old + word_of_nat i + 1), row_event = data, row_metadata = metadata\<rparr> # rs)
            (new_rows env ser sid old new (Suc i) evts)
      | _ \<Rightarrow> None)"

definition appended ::
  "'m pg_env \<Rightarrow> ('m, bytes) Serializer \<Rightarrow> StreamID \<Rightarrow> Version \<Rightarrow> 'm Envelope list \<Rightarrow> tables \<Rightarrow> tables option" where
  "appended env ser sid old evts t =
     map_option (\<lambda>rs. t\<lparr>event_streams := (event_streams t)(sid \<mapsto> uint (old + version_of evts)),
                        events_table := events_table t @ rs\<rparr>)
       (new_rows env ser sid old (old + version_of evts) 0 evts)"

definition stream_version :: "tables \<Rightarrow> StreamID \<Rightarrow> Version option" where
  "stream_version t sid =
     (case scanned_version (select_version (GetEventStream DefaultStreamsTableName sid) t) of
        Inl e \<Rightarrow> None | Inr v \<Rightarrow> Some v)"

lemma engine_exec_None:
  "tx_Exec (engine faults landed) ctx stmt tx = (None, tx') \<Longrightarrow> execute stmt (tx_work tx) = Inr (tx_work tx')"
  by (auto simp: engine_def on_tx_def next_call_def split: option.splits if_splits sum.splits prod.splits)

lemma engine_scan_Inr:
  "tx_ScanVersion (engine faults landed) ctx stmt tx = (Inr v, tx') \<Longrightarrow>
     select_version stmt (tx_work tx) = Inr v \<and> tx_work tx' = tx_work tx"
  "tx_ScanVersion (engine faults landed) ctx stmt tx = (Inl e, tx') \<Longrightarrow> tx_work tx' = tx_work tx"
  by (auto simp: engine_def on_tx_def next_call_def split: option.splits if_splits)

lemma appendDomainEvent_engine:
  assumes "appendDomainEvent (engine faults landed) env ctx DefaultEventsTableName ser sid v new i evt tx = (None, tx')"
  obtains data metadata where "ser (Message evt) = Inr data"
    and "serializeMetadata env (enrichedMetadata env i new (Metadata evt)) = Inr metadata"
    and "tx_work tx' = (tx_work tx)\<lparr>events_table := events_table (tx_work tx) @
       [\<lparr>row_stream = sid, row_type = message_Name env (Message evt), row_version = uint v, row_event = data,
         row_metadata = metadata\<rparr>]\<rparr>"
  using assms
  by (auto simp: appendDomainEvent_def Let_def execute_def dest!: engine_exec_None
      split: sum.splits option.splits prod.splits if_splits)

lemma appendDomainEvents_loop_engine:
  "appendDomainEvents_loop (engine faults landed) env ctx DefaultEventsTableName ser sid old new i evts tx = (None, tx') \<Longrightarrow>
   \<exists>rs. new_rows env ser sid old new i evts = Some rs \<and>
        tx_work tx' = (tx_work tx)\<lparr>events_table := events_table (tx_work tx) @ rs\<rparr>"
proof (induction evts arbitrary: i tx)
  case Nil
  then show ?case by simp
next
  case (Cons evt evts)
  obtain e tx1 where a: "appendDomainEvent (engine faults landed) env ctx DefaultEventsTableName ser sid
      (old + word_of_nat i + 1) new i evt tx = (e, tx1)" by fastforce
  with Cons.prems have "e = None" by (cases e) (auto simp: Let_def)
  with a Cons.prems have rest: "appendDomainEvents_loop (engine faults landed) env ctx DefaultEventsTableName ser sid
      old new (Suc i) evts tx1 = (None, tx')" by (simp add: Let_def)
  from appendDomainEvent_engine [OF a [unfolded \<open>e = None\<close>]] Cons.IH [OF rest] show ?case by fastforce
qed

lemma appendDomainEvents_checked_engine:
  assumes "appendDomainEvents_checked (engine faults landed) env ctx DefaultEventsTableName DefaultStreamsTableName ser sid old evts tx =
      ((v, None), tx')"
  shows "v = old + version_of evts \<and> appended env ser sid old evts (tx_work tx) = Some (tx_work tx')"
proof -
  let ?new = "old + version_of evts"
  obtain x tx1 where u: "tx_Exec (engine faults landed) ctx (UpdateEventStream DefaultStreamsTableName sid ?new) tx = (x, tx1)"
    by fastforce
  with assms have "x = None" by (cases x) (auto simp: appendDomainEvents_checked_def Let_def)
  from engine_exec_None [OF u [unfolded this]]
  have w: "tx_work tx1 = (tx_work tx)\<lparr>event_streams := (event_streams (tx_work tx))(sid \<mapsto> uint ?new)\<rparr>"
    by (auto simp: execute_def split: if_splits)
  obtain y tx2 where l: "appendDomainEvents_loop (engine faults landed) env ctx DefaultEventsTableName ser sid old ?new 0 evts tx1 = (y, tx2)"
    by fastforce
  with assms u \<open>x = None\<close> have "y = None" "tx' = tx2" "v = ?new"
    by (auto simp: appendDomainEvents_checked_def Let_def split: option.splits)
  with appendDomainEvents_loop_engine [OF l [unfolded \<open>y = None\<close>]] w show ?thesis
    by (auto simp: appended_def)
qed

lemma scan_stream_version:
  assumes "tx_ScanVersion (engine faults landed) ctx (GetEventStream DefaultStreamsTableName sid) tx = (row, tx')"
    and "scanned_version row = Inr v" and "\<forall>k e. faults k = Some e \<longrightarrow> \<not> errors_Is e ErrNoRows"
  shows "stream_version (tx_work tx) sid = Some v \<and> tx_work tx' = tx_work tx"
  using assms
  by (auto simp: engine_def on_tx_def next_call_def stream_version_def scanned_version_def pg_error_def
      split: option.splits if_splits sum.splits)

text \<open>
  A failing call never reports \<open>ErrNoRows\<close>, which is the answer to a query and not a failure.
\<close>

definition proper_faults :: "faults \<Rightarrow> bool" where
  "proper_faults faults \<longleftrightarrow> (\<forall>k e. faults k = Some e \<longrightarrow> \<not> errors_Is e ErrNoRows)"

lemma appendDomainEvents_engine:
  assumes "proper_faults faults"
    and "appendDomainEvents (engine faults landed) env ctx DefaultEventsTableName DefaultStreamsTableName ser sid expected evts tx =
      ((v, None), tx')"
  shows "\<exists>old. stream_version (tx_work tx) sid = Some old \<and> check_passes expected old \<and>
     v = old + version_of evts \<and> appended env ser sid old evts (tx_work tx) = Some (tx_work tx')"
proof -
  obtain row tx1 where s: "tx_ScanVersion (engine faults landed) ctx (GetEventStream DefaultStreamsTableName sid) tx = (row, tx1)"
    by fastforce
  with assms(2) obtain old where old: "scanned_version row = Inr old"
    by (cases "scanned_version row") (auto simp: appendDomainEvents_def)
  from scan_stream_version [OF s old] assms(1) have t: "stream_version (tx_work tx) sid = Some old" "tx_work tx1 = tx_work tx"
    by (auto simp: proper_faults_def)
  from assms(2) s old have pass: "check_passes expected old"
    and c: "appendDomainEvents_checked (engine faults landed) env ctx DefaultEventsTableName DefaultStreamsTableName ser sid old evts tx1 =
      ((v, None), tx')"
    by (cases expected; auto simp: appendDomainEvents_def split: if_splits)+
  from appendDomainEvents_checked_engine [OF c] t pass show ?thesis by auto
qed

section \<open>Atomicity\<close>

definition append_action ::
  "faults \<Rightarrow> (nat \<Rightarrow> bool) \<Rightarrow> 'm pg_env \<Rightarrow> ('m, bytes) Serializer \<Rightarrow> StreamID \<Rightarrow> Check \<Rightarrow> 'm Envelope list \<Rightarrow>
   ctx \<Rightarrow> transaction \<Rightarrow> Version \<Rightarrow> error option \<times> transaction \<times> Version" where
  "append_action faults landed env ser sid expected evts =
     (\<lambda>ctx tx newVersion.
        let ((v, e), tx) = appendDomainEvents (engine faults landed) env ctx DefaultEventsTableName DefaultStreamsTableName
              ser sid expected evts tx
        in case e of
             Some e \<Rightarrow> (Some (Errorf ''postgres.EventStore: failed to append domain events, %w'' [e]), tx, v)
           | None \<Rightarrow> (None, tx, v))"

lemma pg_EventStore_Append_action:
  "pg_EventStore_Append (NewEventStore (engine faults landed) serde) env ctx sid expected evts p =
     (let (result, v, p) = RunTransaction (engine faults landed) ctx serializable_rw
            (append_action faults landed env (Serialize serde) sid expected evts) 0 p
      in case result of Some e \<Rightarrow> ((0, Some e), p) | None \<Rightarrow> ((v, None), p))"
  by (simp add: pg_EventStore_Append_def append_action_def NewEventStore_def)

lemma append_action_well_behaved:
  "transactional.well_behaved tx_base tx_done (append_action faults landed env ser sid expected evts)"
proof (rule pg.well_behavedI)
  fix ctx and tx :: transaction and s e tx' s'
  assume a: "append_action faults landed env ser sid expected evts ctx tx s = (e, tx', s')" and "\<not> tx_done tx"
  obtain r tx1 where "appendDomainEvents (engine faults landed) env ctx DefaultEventsTableName DefaultStreamsTableName
      ser sid expected evts tx = (r, tx1)" by fastforce
  with a pg.appendDomainEvents_keeps [OF this \<open>\<not> tx_done tx\<close>] show "tx_base tx' = tx_base tx \<and> \<not> tx_done tx'"
    by (auto simp: append_action_def Let_def split: prod.splits option.splits)
qed

lemma append_action_ok:
  assumes "proper_faults faults"
    and "append_action faults landed env ser sid expected evts ctx tx s = (None, tx', v)"
  shows "\<exists>old. stream_version (tx_work tx) sid = Some old \<and> check_passes expected old \<and>
     v = old + version_of evts \<and> appended env ser sid old evts (tx_work tx) = Some (tx_work tx')"
proof -
  have "appendDomainEvents (engine faults landed) env ctx DefaultEventsTableName DefaultStreamsTableName
      ser sid expected evts tx = ((v, None), tx')"
    using assms(2) by (auto simp: append_action_def Let_def split: prod.splits option.splits)
  from appendDomainEvents_engine [OF assms(1) this] show ?thesis .
qed

lemma pg_EventStore_Append_atomic_core:
  assumes "proper_faults faults"
  shows "case pg_EventStore_Append (NewEventStore (engine faults landed) serde) env ctx sid expected evts p of
     ((v, None), p') \<Rightarrow>
        \<exists>old. stream_version (tables_now p) sid = Some old \<and> check_passes expected old \<and> v = old + version_of evts \<and>
          appended env (Serialize serde) sid old evts (tables_now p) = Some (tables_now p')
   | ((v, Some e), p') \<Rightarrow> v = 0 \<and>
        (tables_now p' = tables_now p \<or>
         (\<exists>old. stream_version (tables_now p) sid = Some old \<and> check_passes expected old \<and>
            appended env (Serialize serde) sid old evts (tables_now p) = Some (tables_now p')))"
proof -
  obtain r v p' where run: "RunTransaction (engine faults landed) ctx serializable_rw
      (append_action faults landed env (Serialize serde) sid expected evts) 0 p = (r, v, p')"
    by (metis prod_cases3)
  note atomic = pg.RunTransaction_atomic [OF append_action_well_behaved run]
  define committed where "committed v' t' \<longleftrightarrow> (\<exists>old. stream_version (tables_now p) sid = Some old \<and> check_passes expected old \<and>
      v' = old + version_of evts \<and> appended env (Serialize serde) sid old evts (tables_now p) = Some t')" for v' t'
  have ok: "committed v' (tx_work tx')"
    if "tx_work tx = tables_now p" "append_action faults landed env (Serialize serde) sid expected evts ctx tx 0 = (None, tx', v')" for tx tx' v'
    using append_action_ok [OF assms that(2)] that(1) by (simp add: committed_def)
  have "case r of None \<Rightarrow> committed v (tables_now p')
      | Some e \<Rightarrow> tables_now p' = tables_now p \<or> (\<exists>v'. committed v' (tables_now p'))"
  proof (cases r)
    case None
    with atomic obtain tx tx' where "tx_work tx = tables_now p" "tables_now p' = tx_work tx'"
      "append_action faults landed env (Serialize serde) sid expected evts ctx tx 0 = (None, tx', v)" by auto
    with ok None show ?thesis by simp
  next
    case (Some e)
    with atomic have "tables_now p' = tables_now p \<or> (\<exists>tx tx'. tx_work tx = tables_now p \<and> tables_now p' = tx_work tx' \<and>
      append_action faults landed env (Serialize serde) sid expected evts ctx tx 0 = (None, tx', v))" by auto
    with ok have "tables_now p' = tables_now p \<or> committed v (tables_now p')" by metis
    with Some show ?thesis by auto
  qed
  then show ?thesis by (cases r) (auto simp: pg_EventStore_Append_action run committed_def)
qed

text \<open>C30: Whatever call to the database fails, an append to the PostgreSQL event store that reports
  success has passed its version check, returns the new version and has committed the new stream
  version together with all the events, numbered from it; one that reports an error has left the
  tables as they were, or, when the failing call was a commit that reached the server, has committed
  all of that. Nothing is ever written in part.\<close>

theorem pg_EventStore_Append_atomic:
  assumes "proper_faults faults"
  shows "case pg_EventStore_Append (NewEventStore (engine faults landed) serde) env ctx sid expected evts p of
     ((v, None), p') \<Rightarrow>
        \<exists>old. stream_version (tables_now p) sid = Some old \<and> check_passes expected old \<and> v = old + version_of evts \<and>
          appended env (Serialize serde) sid old evts (tables_now p) = Some (tables_now p')
   | ((v, Some e), p') \<Rightarrow> v = 0 \<and>
        (tables_now p' = tables_now p \<or>
         (\<exists>old. stream_version (tables_now p) sid = Some old \<and> check_passes expected old \<and>
            appended env (Serialize serde) sid old evts (tables_now p) = Some (tables_now p')))"
  by (rule pg_EventStore_Append_atomic_core [OF assms])

section \<open>A single winner, whatever fails\<close>

lemma stream_version_upd:
  "stream_version (t\<lparr>event_streams := (event_streams t)(s \<mapsto> uint v), events_table := rs\<rparr>) sid =
     (if s = sid then Some v else stream_version t sid)"
  using uint_bounded [of v]
  by (auto simp: stream_version_def scanned_version_def select_version_def scan_uint32_def)

text \<open>One append moves the version of a stream by the events it commits there, all of them when it succeeds.\<close>

lemma pg_append_version:
  assumes "proper_faults faults" and "stream_version (tables_now p) sid = Some w"
    and "pg_EventStore_Append (NewEventStore (engine faults landed) serde) env ctx s expected evts p = (r, p')"
  shows "\<exists>n. stream_version (tables_now p') sid = Some (w + word_of_nat n) \<and> n \<le> length evts \<and>
     (s = sid \<and> snd r = None \<longrightarrow> check_passes expected w \<and> n = length evts)"
proof -
  obtain v e where r: "r = (v, e)" by (cases r)
  have moved: "stream_version t' sid = Some (w + word_of_nat (if s = sid then length evts else 0)) \<and>
      (s = sid \<longrightarrow> old = w)"
    if "stream_version (tables_now p) s = Some old" "appended env (Serialize serde) s old evts (tables_now p) = Some t'" for old t'
    using that assms(2) by (auto simp: appended_def stream_version_upd)
  note atomic = pg_EventStore_Append_atomic_core [OF assms(1), where landed = landed and serde = serde and env = env and ctx = ctx
      and sid = s and expected = expected and evts = evts and p = p, unfolded assms(3) r]
  show ?thesis
  proof (cases e)
    case None
    with atomic obtain old where old: "stream_version (tables_now p) s = Some old" "check_passes expected old"
      "appended env (Serialize serde) s old evts (tables_now p) = Some (tables_now p')" by auto
    with moved [OF old(1,3)] show ?thesis
      by (intro exI [of _ "if s = sid then length evts else 0"]) (auto simp: r)
  next
    case (Some e')
    with atomic consider "tables_now p' = tables_now p" | old where "stream_version (tables_now p) s = Some old"
      "appended env (Serialize serde) s old evts (tables_now p) = Some (tables_now p')" by auto
    then show ?thesis
    proof cases
      case 1
      with assms(2) Some show ?thesis by (intro exI [of _ 0]) (simp add: r)
    next
      case (2 old)
      with moved [OF 2] Some show ?thesis
        by (intro exI [of _ "if s = sid then length evts else 0"]) (auto simp: r)
    qed
  qed
qed

lemma unat_add_len32: "unat w + n < 2 ^ 32 \<Longrightarrow> unat (w + word_of_nat n :: 32 word) = unat w + n"
  by (simp add: unat_word_ariths unat_len32)

lemma pg_append_results_beyond:
  assumes "proper_faults faults"
  shows "stream_version (tables_now p) sid = Some w \<Longrightarrow> unat v < unat w \<Longrightarrow>
     unat w + sum_list (map (\<lambda>(s, c, es). length es) ops) < 2 ^ 32 \<Longrightarrow>
     winners sid v ops (fst (append_results (pg_EventStore_Append (NewEventStore (engine faults landed) serde) env) ctx ops p)) = []"
proof (induction ops arbitrary: p w)
  case Nil
  then show ?case by (simp add: winners_def)
next
  case (Cons oper ops)
  obtain s c es where o: "oper = (s, c, es)" by (cases oper)
  obtain r p' where a: "pg_EventStore_Append (NewEventStore (engine faults landed) serde) env ctx s c es p = (r, p')" by fastforce
  from pg_append_version [OF assms Cons.prems(1) a] obtain n where
    n: "stream_version (tables_now p') sid = Some (w + word_of_nat n)" "n \<le> length es"
    "s = sid \<and> snd r = None \<longrightarrow> check_passes c w" by blast
  have u: "unat (w + word_of_nat n) = unat w + n" using n(2) Cons.prems(3) by (intro unat_add_len32) (simp add: o)
  have "winners sid v ops (fst (append_results (pg_EventStore_Append (NewEventStore (engine faults landed) serde) env) ctx ops p')) = []"
    by (rule Cons.IH [OF n(1)]) (use u n(2) Cons.prems(2,3) in \<open>auto simp: o\<close>)
  moreover have "\<not> (s = sid \<and> c = CheckExact v \<and> snd r = None)" using n(3) Cons.prems(2) by auto
  ultimately show ?case by (auto simp: o a winners_def split: prod.splits)
qed

lemma pg_append_results_winner:
  assumes "proper_faults faults"
  shows "stream_version (tables_now p) sid = Some w \<Longrightarrow>
     unat w + sum_list (map (\<lambda>(s, c, es). length es) ops) < 2 ^ 32 \<Longrightarrow>
     length (winners sid v ops (fst (append_results (pg_EventStore_Append (NewEventStore (engine faults landed) serde) env) ctx ops p))) \<le> 1"
proof (induction ops arbitrary: p w)
  case Nil
  then show ?case by (simp add: winners_def)
next
  case (Cons oper ops)
  obtain s c es where o: "oper = (s, c, es)" by (cases oper)
  obtain r p' where a: "pg_EventStore_Append (NewEventStore (engine faults landed) serde) env ctx s c es p = (r, p')" by fastforce
  from pg_append_version [OF assms Cons.prems(1) a] obtain n where
    n: "stream_version (tables_now p') sid = Some (w + word_of_nat n)" "n \<le> length es"
    "s = sid \<and> snd r = None \<longrightarrow> check_passes c w \<and> n = length es" by blast
  have u: "unat (w + word_of_nat n) = unat w + n" using n(2) Cons.prems(2) by (intro unat_add_len32) (simp add: o)
  show ?case
  proof (cases "s = sid \<and> c = CheckExact v \<and> es \<noteq> [] \<and> snd r = None")
    case True
    with n(3) have "v = w" "n = length es" by auto
    with True u Cons.prems(2) have
      "winners sid v ops (fst (append_results (pg_EventStore_Append (NewEventStore (engine faults landed) serde) env) ctx ops p')) = []"
      by (intro pg_append_results_beyond [OF assms n(1)]) (auto simp: o)
    then show ?thesis by (auto simp: o a winners_def split: prod.splits)
  next
    case False
    have "length (winners sid v ops (fst (append_results (pg_EventStore_Append (NewEventStore (engine faults landed) serde) env) ctx ops p'))) \<le> 1"
      by (rule Cons.IH [OF n(1)]) (use u n(2) Cons.prems(2) in \<open>auto simp: o\<close>)
    with False show ?thesis by (auto simp: o a winners_def split: prod.splits)
  qed
qed

text \<open>C31: Of any sequence of appends to the PostgreSQL event store, on any streams and with any checks, at most one non-empty append that
  expects a given version of a given stream succeeds, whatever database calls fail in between: a commit may fail without effect, as for a transaction that
  cannot be serialized, or take effect and still be reported as failed. The versions must not wrap around.\<close>

theorem pg_EventStore_single_winner:
  assumes "proper_faults faults" and "stream_version (tables_now p) sid = Some w"
    and "unat w + sum_list (map (\<lambda>(s, c, es). length es) ops) < 2 ^ 32"
  shows "length (winners sid v ops (fst (append_results
     (pg_EventStore_Append (NewEventStore (engine faults landed) serde) env) ctx ops p))) \<le> 1"
  by (rule pg_append_results_winner [OF assms])

section \<open>The aggregate repository\<close>

text \<open>What saving a root writes: its recorded events and its serialized state, both at its version.\<close>

definition saved ::
  "'m pg_env \<Rightarrow> ('id, 'm, 'z) Type \<Rightarrow> (('m, 'z) BaseRoot_scheme, bytes) Fused \<Rightarrow> ('m, bytes) Fused \<Rightarrow>
   ('m, 'z) BaseRoot_scheme \<Rightarrow> tables \<Rightarrow> tables option" where
  "saved env ty aggregate_serde message_serde root t =
     (let sid = String ty (AggregateID ty (flushed root));
          old = version root - version_of (recordedEvents root)
      in case (appended env (Serialize message_serde) sid old (recordedEvents root) t, Serialize aggregate_serde (flushed root)) of
           (Some t', Inr state) \<Rightarrow>
             Some (t'\<lparr>aggregates_table := (aggregates_table t')(sid \<mapsto>
               (case aggregates_table t' sid of
                  None \<Rightarrow> \<lparr>agg_type = Name ty, agg_row_version = uint (version root), agg_state = state\<rparr>
                | Some row \<Rightarrow> row\<lparr>agg_row_version := uint (version root), agg_state := state\<rparr>))\<rparr>)
         | _ \<Rightarrow> None)"

abbreviation pg_repo ::
  "faults \<Rightarrow> (nat \<Rightarrow> bool) \<Rightarrow> ('id, 'm, 'z) Type \<Rightarrow> (('m, 'z) BaseRoot_scheme, bytes) Fused \<Rightarrow> ('m, bytes) Fused \<Rightarrow>
   (transaction, pool, 'id, 'm, 'z) AggregateRepository" where
  "pg_repo faults landed ty aggregate_serde message_serde \<equiv>
     NewAggregateRepository (engine faults landed) ty aggregate_serde message_serde []"

lemma pg_repo_simps [simp]:
  "ar_conn (pg_repo faults landed ty as ms) = engine faults landed"
  "aggregateType (pg_repo faults landed ty as ms) = ty"
  "aggregateSerde (pg_repo faults landed ty as ms) = as"
  "ar_messageSerde (pg_repo faults landed ty as ms) = ms"
  "aggregateTableName (pg_repo faults landed ty as ms) = DefaultAggregateTableName"
  "eventsTableName (pg_repo faults landed ty as ms) = DefaultEventsTableName"
  "streamsTableName (pg_repo faults landed ty as ms) = DefaultStreamsTableName"
  by (simp_all add: NewAggregateRepository_def)

lemma save_action_well_behaved:
  "transactional.well_behaved tx_base tx_done (AggregateRepository_save_action (pg_repo faults landed ty as ms) env)"
proof (rule pg.well_behavedI)
  fix ctx and tx :: transaction and root e tx' root'
  assume a: "AggregateRepository_save_action (pg_repo faults landed ty as ms) env ctx tx root = (e, tx', root')"
    and open_tx: "\<not> tx_done tx"
  let ?sid = "String ty (AggregateID ty (flushed root))"
  obtain v x tx1 where ap: "appendDomainEvents (engine faults landed) env ctx DefaultEventsTableName DefaultStreamsTableName
      (Serialize ms) ?sid (CheckExact (version root - version_of (recordedEvents root))) (recordedEvents root) tx = ((v, x), tx1)"
    by (metis prod.collapse)
  from pg.appendDomainEvents_keeps [OF ap open_tx] have tx1: "tx_base tx1 = tx_base tx" "\<not> tx_done tx1" by auto
  have "tx_base tx2 = tx_base tx \<and> \<not> tx_done tx2"
    if "saveAggregateState (pg_repo faults landed ty as ms) ctx ?sid (flushed root) tx1 = (y, tx2)" for y tx2
    using that tx1 pg.exec_started [of faults landed ctx _ tx1]
    by (auto simp: saveAggregateState_def split: sum.splits prod.splits option.splits)
  with a ap tx1 show "tx_base tx' = tx_base tx \<and> \<not> tx_done tx'"
    by (auto simp: AggregateRepository_save_action_def FlushRecordedEvents_eq Let_def
        split: option.splits if_splits prod.splits)
qed

lemma save_action_ok:
  assumes "proper_faults faults"
    and "AggregateRepository_save_action (pg_repo faults landed ty as ms) env ctx tx root = (None, tx', root')"
  shows "root' = flushed root \<and>
     stream_version (tx_work tx) (String ty (AggregateID ty (flushed root))) =
       Some (version root - version_of (recordedEvents root)) \<and>
     saved env ty as ms root (tx_work tx) = Some (tx_work tx')"
proof -
  let ?sid = "String ty (AggregateID ty (flushed root))" and ?evts = "recordedEvents root"
  obtain v x tx1 where ap: "appendDomainEvents (engine faults landed) env ctx DefaultEventsTableName DefaultStreamsTableName
      (Serialize ms) ?sid (CheckExact (version root - version_of ?evts)) ?evts tx = ((v, x), tx1)"
    by (metis prod.collapse)
  with assms(2) have "x = None" and root': "root' = flushed root"
    and st: "saveAggregateState (pg_repo faults landed ty as ms) ctx ?sid (flushed root) tx1 = (None, tx')"
    by (auto simp: AggregateRepository_save_action_def FlushRecordedEvents_eq Let_def
        split: option.splits if_splits prod.splits)
  from appendDomainEvents_engine [OF assms(1) ap [unfolded \<open>x = None\<close>]]
  have t: "stream_version (tx_work tx) ?sid = Some (version root - version_of ?evts)"
    "appended env (Serialize ms) ?sid (version root - version_of ?evts) ?evts (tx_work tx) = Some (tx_work tx1)"
    by auto
  from st obtain state where "Serialize as (flushed root) = Inr state"
    and ex: "execute (SaveAggregate DefaultAggregateTableName ?sid (Name ty) (version root) state) (tx_work tx1) = Inr (tx_work tx')"
    by (auto simp: saveAggregateState_def dest!: engine_exec_None split: sum.splits prod.splits option.splits)
  with root' t show ?thesis
    by (auto simp: saved_def Let_def execute_def split: if_splits)
qed

lemma pg_AggregateRepository_Save_atomic_core:
  assumes "proper_faults faults"
  shows "case AggregateRepository_Save (pg_repo faults landed ty as ms) env ctx root p of
     (None, root', p') \<Rightarrow> root' = flushed root \<and>
        stream_version (tables_now p) (String ty (AggregateID ty (flushed root))) =
          Some (version root - version_of (recordedEvents root)) \<and>
        saved env ty as ms root (tables_now p) = Some (tables_now p')
   | (Some e, root', p') \<Rightarrow> tables_now p' = tables_now p \<or> saved env ty as ms root (tables_now p) = Some (tables_now p')"
proof -
  obtain r root' p' where run: "RunTransaction (engine faults landed) ctx serializable_rw
      (AggregateRepository_save_action (pg_repo faults landed ty as ms) env) root p = (r, root', p')"
    by (metis prod_cases3)
  note atomic = pg.RunTransaction_atomic [OF save_action_well_behaved run]
  note ok = save_action_ok [OF assms, of landed ty as ms env ctx]
  show ?thesis
  proof (cases r)
    case None
    with atomic obtain tx tx' where "tx_work tx = tables_now p" "tables_now p' = tx_work tx'"
      "AggregateRepository_save_action (pg_repo faults landed ty as ms) env ctx tx root = (None, tx', root')" by auto
    with ok [OF this(3)] None show ?thesis by (simp add: AggregateRepository_Save_def run)
  next
    case (Some e)
    with atomic have "tables_now p' = tables_now p \<or> (\<exists>tx tx'. tx_work tx = tables_now p \<and> tables_now p' = tx_work tx' \<and>
      AggregateRepository_save_action (pg_repo faults landed ty as ms) env ctx tx root = (None, tx', root'))" by auto
    with ok have "tables_now p' = tables_now p \<or> saved env ty as ms root (tables_now p) = Some (tables_now p')" by metis
    with Some show ?thesis by (simp add: AggregateRepository_Save_def run)
  qed
qed

text \<open>C32: Whatever call to the database fails, saving a root on PostgreSQL writes the events, the stream
  version and the serialized state in one piece: when it reports success the root was based on the
  stored stream version and all of it is committed; when it reports an error nothing is, unless the
  failing call was a commit that reached the server.\<close>

theorem pg_AggregateRepository_Save_atomic:
  assumes "proper_faults faults"
  shows "case AggregateRepository_Save (pg_repo faults landed ty as ms) env ctx root p of
     (None, root', p') \<Rightarrow> root' = flushed root \<and>
        stream_version (tables_now p) (String ty (AggregateID ty (flushed root))) =
          Some (version root - version_of (recordedEvents root)) \<and>
        saved env ty as ms root (tables_now p) = Some (tables_now p')
   | (Some e, root', p') \<Rightarrow> tables_now p' = tables_now p \<or> saved env ty as ms root (tables_now p) = Some (tables_now p')"
  using assms by (rule pg_AggregateRepository_Save_atomic_core)

text \<open>Every stored aggregate has the version of its event stream.\<close>

definition aligned :: "tables \<Rightarrow> bool" where
  "aligned t \<longleftrightarrow> (\<forall>i row. aggregates_table t i = Some row \<longrightarrow> event_streams t i = Some (agg_row_version row))"

lemma aligned_saved:
  "aligned t \<Longrightarrow> saved env ty as ms root t = Some t' \<Longrightarrow> aligned t'"
  by (auto simp: aligned_def saved_def appended_def Let_def split: option.splits sum.splits if_splits)

text \<open>C33: Saving roots on PostgreSQL keeps the version of every stored aggregate equal to the version of
  its event stream, whatever call to the database fails.\<close>

theorem pg_AggregateRepository_Save_aligned:
  assumes "proper_faults faults" and "aligned (tables_now p)"
    and "AggregateRepository_Save (pg_repo faults landed ty as ms) env ctx root p = (r, root', p')"
  shows "aligned (tables_now p')"
proof -
  from pg_AggregateRepository_Save_atomic_core [OF assms(1), where landed = landed and ty = ty and as = as and ms = ms and env = env
      and ctx = ctx and root = root and p = p] assms(3)
  have "tables_now p' = tables_now p \<or> saved env ty as ms root (tables_now p) = Some (tables_now p')"
    by (auto split: option.splits)
  with assms(2) aligned_saved show ?thesis by metis
qed

end
