(* ===== verification/Postgres_Outcome.thy ===== *)
theory Postgres_Outcome
  imports Postgres_Correct
begin

text \<open>
  The PostgreSQL event store and aggregate repository when the database does not fail: the tables
  carry one log of envelopes per stream; an append extends it or reports a conflict, a stream
  replays it, and a saved root can be loaded.
\<close>

section \<open>Consistent tables\<close>

text \<open>
  The rows of a stream are numbered from 1 in the order of their insertion, and the stream's version
  is the number of its last row.
\<close>

definition tables_ok :: "tables \<Rightarrow> bool" where
  "tables_ok t \<longleftrightarrow> (\<forall>sid. map row_version (rows_of t sid) = map int [1..<Suc (length (rows_of t sid))] \<and>
     event_streams t sid = (if rows_of t sid = [] then None else Some (int (length (rows_of t sid)))) \<and>
     length (rows_of t sid) < 2 ^ 32)"

text \<open>
  \<open>json.Marshal\<close> does not fail on a map of strings, and the message must be one its serde knows.
\<close>

definition serializable_event :: "'m pg_env \<Rightarrow> ('m, bytes) Serializer \<Rightarrow> 'm Envelope \<Rightarrow> bool" where
  "serializable_event env ser evt \<longleftrightarrow>
     (\<exists>data. ser (Message evt) = Inr data) \<and> (\<forall>m. \<exists>data. json_Marshal env m = Inr data)"

abbreviation no_faults :: faults where
  "no_faults \<equiv> \<lambda>_. None"

lemma engine_exec_ok:
  "execute stmt (tx_work tx) = Inr t \<Longrightarrow> \<not> tx_done tx \<Longrightarrow> \<not> tx_aborted tx \<Longrightarrow>
   tx_Exec (engine no_faults landed) ctx stmt tx = (None, (next_call tx)\<lparr>tx_work := t\<rparr>)"
  by (simp add: engine_def on_tx_def)

lemma next_call_simps [simp]:
  "tx_work (next_call tx) = tx_work tx" "tx_base (next_call tx) = tx_base tx" "tx_done (next_call tx) = tx_done tx"
  "tx_aborted (next_call tx) = tx_aborted tx" "tables_now (next_call tx) = tables_now tx"
  by (simp_all add: next_call_def)

lemma rows_of_append [simp]:
  "rows_of (t\<lparr>events_table := events_table t @ rs\<rparr>) i = rows_of t i @ filter (\<lambda>r. row_stream r = i) rs"
  "rows_of (t\<lparr>event_streams := s\<rparr>) i = rows_of t i"
  by (simp_all add: rows_of_def)

lemma appendDomainEvent_succeeds:
  assumes "\<not> tx_done tx" "\<not> tx_aborted tx" and "serializable_event env ser evt"
    and "event_streams (tx_work tx) sid \<noteq> None" and "\<forall>r \<in> set (rows_of (tx_work tx) sid). row_version r \<noteq> uint v"
    and "0 < uint v"
  obtains tx' where "appendDomainEvent (engine no_faults landed) env ctx DefaultEventsTableName ser sid v new i evt tx = (None, tx')"
    and "\<not> tx_done tx'" and "\<not> tx_aborted tx'"
proof -
  obtain data where d: "ser (Message evt) = Inr data" using assms(3) by (auto simp: serializable_event_def)
  obtain m where "enrichedMetadata env i new (Metadata evt) = Some m"
    by (simp add: enrichedMetadata_def with_value_def)
  moreover obtain bs where "json_Marshal env m = Inr bs" using assms(3) by (auto simp: serializable_event_def)
  ultimately obtain metadata where m: "serializeMetadata env (enrichedMetadata env i new (Metadata evt)) = Inr metadata"
    by (simp add: serializeMetadata_def)
  have "\<not> list_ex (\<lambda>r. row_version r = uint v) (rows_of (tx_work tx) sid)"
    using assms(5) by (simp add: list_ex_iff)
  with assms(4,6) obtain t where "execute (AppendDomainEvent DefaultEventsTableName sid (message_Name env (Message evt)) v data metadata)
      (tx_work tx) = Inr t"
    by (auto simp: execute_def)
  from engine_exec_ok [OF this assms(1,2), of landed ctx] d m assms(1,2) show thesis
    by (intro that [of "(next_call tx)\<lparr>tx_work := t\<rparr>"]) (simp_all add: appendDomainEvent_def Let_def)
qed

lemma appendDomainEvents_loop_succeeds:
  assumes "\<forall>evt \<in> set evts. serializable_event env ser evt"
    and "\<not> tx_done tx" "\<not> tx_aborted tx"
    and "event_streams (tx_work tx) sid \<noteq> None"
    and "\<forall>r \<in> set (rows_of (tx_work tx) sid). row_version r \<le> int (n + i)"
    and "n + i + length evts < 2 ^ 32"
  shows "\<exists>tx'. appendDomainEvents_loop (engine no_faults landed) env ctx DefaultEventsTableName ser sid
      (word_of_nat n) new i evts tx = (None, tx') \<and> \<not> tx_done tx' \<and> \<not> tx_aborted tx'"
  using assms
proof (induction evts arbitrary: i tx)
  case Nil
  then show ?case by simp
next
  case (Cons evt evts)
  let ?v = "word_of_nat n + word_of_nat i + 1 :: Version"
  have "?v = word_of_nat (n + i + 1)" by simp
  moreover have "n + i + 1 < 2 ^ 32" using Cons.prems(6) by simp
  ultimately have "uint ?v = int (n + i + 1)" by (simp only: uint_len32)
  then have v: "uint ?v = int (n + i) + 1" by simp
  have "serializable_event env ser evt" using Cons.prems(1) by simp
  moreover have "\<forall>r \<in> set (rows_of (tx_work tx) sid). row_version r \<noteq> uint ?v"
    using Cons.prems(5) v by fastforce
  moreover have "0 < uint ?v" using v by simp
  ultimately obtain tx1 where
    a: "appendDomainEvent (engine no_faults landed) env ctx DefaultEventsTableName ser sid ?v new i evt tx = (None, tx1)"
    and tx1: "\<not> tx_done tx1" "\<not> tx_aborted tx1"
    using appendDomainEvent_succeeds [OF Cons.prems(2,3) _ Cons.prems(4)] by blast
  from appendDomainEvent_engine [OF a] obtain data metadata where
    w: "tx_work tx1 = (tx_work tx)\<lparr>events_table := events_table (tx_work tx) @
       [\<lparr>row_stream = sid, row_type = message_Name env (Message evt), row_version = uint ?v, row_event = data,
         row_metadata = metadata\<rparr>]\<rparr>" by blast
  have "event_streams (tx_work tx1) sid \<noteq> None" using Cons.prems(4) by (simp add: w)
  moreover have "\<forall>r \<in> set (rows_of (tx_work tx1) sid). row_version r \<le> int (n + Suc i)"
    using Cons.prems(5) v by (auto simp: w)
  ultimately show ?case
    using Cons.IH [of tx1 "Suc i"] Cons.prems(1,6) tx1 a by (simp add: Let_def)
qed


lemma new_rows_shape:
  "new_rows env ser sid (word_of_nat n) new i evts = Some rs \<Longrightarrow> n + i + length evts < 2 ^ 32 \<Longrightarrow>
   map row_version rs = map int [Suc (n + i)..<Suc (n + i + length evts)] \<and> length rs = length evts \<and>
   (\<forall>r \<in> set rs. row_stream r = sid)"
proof (induction evts arbitrary: i rs)
  case Nil
  then show ?case by simp
next
  case (Cons evt evts)
  from Cons.prems(1) obtain r rs' where rs: "rs = r # rs'" "row_stream r = sid"
    "row_version r = uint (word_of_nat n + word_of_nat i + 1 :: Version)"
    "new_rows env ser sid (word_of_nat n) new (Suc i) evts = Some rs'"
    by (auto split: sum.splits)
  have "word_of_nat n + word_of_nat i + 1 = (word_of_nat (n + i + 1) :: Version)" by simp
  moreover have "n + i + 1 < 2 ^ 32" using Cons.prems(2) by simp
  ultimately have "row_version r = int (n + i + 1)" unfolding rs(3) by (simp only: uint_len32)
  with Cons.IH [OF rs(4)] Cons.prems(2) rs show ?case
    by (simp add: upt_conv_Cons)
qed

lemma rows_of_upd [simp]:
  "rows_of (t\<lparr>event_streams := s, events_table := rs\<rparr>) i = filter (\<lambda>r. row_stream r = i) rs"
  by (simp add: rows_of_def)

lemma stream_version_ok:
  assumes "tables_ok t"
  shows "stream_version t sid = Some (word_of_nat (length (rows_of t sid)))"
    and "scanned_version (select_version (GetEventStream DefaultStreamsTableName sid) t) =
      Inr (word_of_nat (length (rows_of t sid)))"
proof -
  have "event_streams t sid = (if rows_of t sid = [] then None else Some (int (length (rows_of t sid))))"
    "length (rows_of t sid) < 2 ^ 32"
    using assms by (auto simp: tables_ok_def)
  then show v: "scanned_version (select_version (GetEventStream DefaultStreamsTableName sid) t) =
      Inr (word_of_nat (length (rows_of t sid)))"
    by (auto simp: select_version_def scanned_version_def scan_uint32_def ErrNoRows_def)
  then show "stream_version t sid = Some (word_of_nat (length (rows_of t sid)))"
    by (simp add: stream_version_def)
qed

lemma numbered_append:
  assumes "map row_version xs = map int [1..<Suc n]" and "map row_version rs = map int [Suc n..<Suc (n + k)]"
  shows "map row_version (xs @ rs) = map int [1..<Suc (n + k)]"
proof -
  have "[1..<Suc n] @ [Suc n..<Suc n + k] = [1..<Suc n + k]"
    by (rule upt_add_eq_append [symmetric]) simp
  then have "map int [1..<Suc n] @ map int [Suc n..<Suc n + k] = map int [1..<Suc n + k]"
    by (metis map_append)
  with assms show ?thesis by (simp del: upt_Suc)
qed

lemma appended_tables_ok:
  assumes ok: "tables_ok t" and ap: "appended env ser sid (word_of_nat (length (rows_of t sid))) evts t = Some t'"
    and ne: "evts \<noteq> []" and bound: "length (rows_of t sid) + length evts < 2 ^ 32"
  shows "tables_ok t'"
proof -
  let ?n = "length (rows_of t sid)"
  from ap obtain rs where rs: "new_rows env ser sid (word_of_nat ?n) (word_of_nat ?n + version_of evts) 0 evts = Some rs"
    and t': "t' = t\<lparr>event_streams := (event_streams t)(sid \<mapsto> uint (word_of_nat ?n + version_of evts :: Version)),
                    events_table := events_table t @ rs\<rparr>"
    by (auto simp: appended_def)
  have "(word_of_nat ?n + version_of evts :: Version) = word_of_nat (?n + length evts)" by simp
  then have new: "uint (word_of_nat ?n + version_of evts :: Version) = int (?n + length evts)"
    using bound by (simp only: uint_len32)
  from new_rows_shape [OF rs] bound have shape: "map row_version rs = map int [Suc ?n..<Suc (?n + length evts)]"
    "length rs = length evts" "\<forall>r \<in> set rs. row_stream r = sid" by auto
  then have "filter (\<lambda>r. row_stream r = sid) rs = rs" by simp
  then have self: "rows_of t' sid = rows_of t sid @ rs" by (simp add: t' rows_of_def)
  have other: "rows_of t' i = rows_of t i" "event_streams t' i = event_streams t i" if "i \<noteq> sid" for i
    using shape(3) that by (auto simp: t' rows_of_def filter_empty_conv)
  have "map row_version (rows_of t sid) = map int [1..<Suc ?n]" using ok by (simp add: tables_ok_def)
  note num = numbered_append [OF this shape(1)]
  show ?thesis
    unfolding tables_ok_def
  proof (intro allI)
    fix i
    show "map row_version (rows_of t' i) = map int [1..<Suc (length (rows_of t' i))] \<and>
        event_streams t' i = (if rows_of t' i = [] then None else Some (int (length (rows_of t' i)))) \<and>
        length (rows_of t' i) < 2 ^ 32"
    proof (cases "i = sid")
      case True
      have "event_streams t' sid = Some (int (?n + length evts))" by (simp add: t' new)
      with True self num shape(2) bound ne show ?thesis by (auto simp del: upt_Suc)
    next
      case False
      with other [OF False] ok show ?thesis by (simp add: tables_ok_def)
    qed
  qed
qed


section \<open>Appending without faults\<close>

definition opened :: "pool \<Rightarrow> transaction" where
  "opened p = \<lparr>tables_now = tables_now p, calls = Suc (calls p), tx_base = tables_now p, tx_work = tables_now p,
     tx_done = False, tx_aborted = False\<rparr>"

lemma opened_simps [simp]:
  "tx_work (opened p) = tables_now p" "tx_base (opened p) = tables_now p" "\<not> tx_done (opened p)"
  "\<not> tx_aborted (opened p)"
  by (simp_all add: opened_def)

lemma RunTransaction_commits:
  assumes "action ctx (opened p) s = (None, tx', s')" and "\<not> tx_done tx'" and "\<not> tx_aborted tx'"
  shows "\<exists>p'. RunTransaction (engine no_faults landed) ctx options action s p = (None, s', p') \<and>
     tables_now p' = tx_work tx'"
  using assms by (simp add: RunTransaction_def engine_def pg_Commit_def Let_def opened_def)

lemma RunTransaction_rolls_back:
  assumes "action ctx (opened p) s = (Some e, tx', s')" and "\<not> tx_done tx'" and "tx_base tx' = tables_now p"
  shows "\<exists>p'. RunTransaction (engine no_faults landed) ctx options action s p =
       (Some (withContext ''failed to perform transaction'' e), s', p') \<and>
     tables_now p' = tables_now p"
  using assms by (simp add: RunTransaction_def engine_def pg_Rollback_def deferred_rollback_def Let_def opened_def)

lemma scan_no_faults:
  "\<not> tx_done tx \<Longrightarrow> \<not> tx_aborted tx \<Longrightarrow>
   tx_ScanVersion (engine no_faults landed) ctx stmt tx = (select_version stmt (tx_work tx), next_call tx)"
  by (simp add: engine_def on_tx_def)

lemma appendDomainEvents_checked_succeeds:
  assumes ok: "tables_ok (tx_work tx)" and open_tx: "\<not> tx_done tx" "\<not> tx_aborted tx"
    and ser: "\<forall>evt \<in> set evts. serializable_event env ser evt" and ne: "evts \<noteq> []"
    and bound: "length (rows_of (tx_work tx) sid) + length evts < 2 ^ 32"
  shows "\<exists>tx'. appendDomainEvents_checked (engine no_faults landed) env ctx DefaultEventsTableName DefaultStreamsTableName
      ser sid (word_of_nat (length (rows_of (tx_work tx) sid))) evts tx =
      ((word_of_nat (length (rows_of (tx_work tx) sid)) + version_of evts, None), tx') \<and> \<not> tx_done tx' \<and> \<not> tx_aborted tx'"
proof -
  let ?n = "length (rows_of (tx_work tx) sid)"
  let ?new = "word_of_nat ?n + version_of evts :: Version"
  have "?new = word_of_nat (?n + length evts)" by simp
  then have "uint ?new = int (?n + length evts)" using bound by (simp only: uint_len32)
  with ne have "0 < uint ?new" by (cases evts) simp_all
  then have ex: "execute (UpdateEventStream DefaultStreamsTableName sid ?new) (tx_work tx) =
      Inr ((tx_work tx)\<lparr>event_streams := (event_streams (tx_work tx))(sid \<mapsto> uint ?new)\<rparr>)"
    by (simp add: execute_def)
  define tx1 where "tx1 = (next_call tx)\<lparr>tx_work := (tx_work tx)\<lparr>event_streams := (event_streams (tx_work tx))(sid \<mapsto> uint ?new)\<rparr>\<rparr>"
  have u: "tx_Exec (engine no_faults landed) ctx (UpdateEventStream DefaultStreamsTableName sid ?new) tx = (None, tx1)"
    using engine_exec_ok [OF ex open_tx] by (simp add: tx1_def)
  have "map row_version (rows_of (tx_work tx) sid) = map int [1..<Suc ?n]" using ok by (simp add: tables_ok_def)
  then have "row_version ` set (rows_of (tx_work tx) sid) = int ` {1..<Suc ?n}"
    by (metis list.set_map atLeastLessThan_upt)
  then have "row_version r \<in> int ` {1..<Suc ?n}" if "r \<in> set (rows_of (tx_work tx) sid)" for r
    using that by (metis imageI)
  then have "\<forall>r \<in> set (rows_of (tx_work tx) sid). row_version r \<le> int (?n + 0)" by fastforce
  then have "\<exists>tx'. appendDomainEvents_loop (engine no_faults landed) env ctx DefaultEventsTableName ser sid
      (word_of_nat ?n) ?new 0 evts tx1 = (None, tx') \<and> \<not> tx_done tx' \<and> \<not> tx_aborted tx'"
    using ser open_tx bound by (intro appendDomainEvents_loop_succeeds) (simp_all add: tx1_def)
  with u show ?thesis by (auto simp: appendDomainEvents_checked_def Let_def)
qed

lemma appendDomainEvents_succeeds:
  assumes ok: "tables_ok (tx_work tx)" and open_tx: "\<not> tx_done tx" "\<not> tx_aborted tx"
    and ser: "\<forall>evt \<in> set evts. serializable_event env ser evt" and ne: "evts \<noteq> []"
    and bound: "length (rows_of (tx_work tx) sid) + length evts < 2 ^ 32"
    and pass: "check_passes expected (word_of_nat (length (rows_of (tx_work tx) sid)))"
  shows "\<exists>tx'. appendDomainEvents (engine no_faults landed) env ctx DefaultEventsTableName DefaultStreamsTableName ser sid expected evts tx =
      ((word_of_nat (length (rows_of (tx_work tx) sid)) + version_of evts, None), tx') \<and> \<not> tx_done tx' \<and> \<not> tx_aborted tx'"
proof -
  have "\<exists>tx'. appendDomainEvents_checked (engine no_faults landed) env ctx DefaultEventsTableName DefaultStreamsTableName
      ser sid (word_of_nat (length (rows_of (tx_work tx) sid))) evts (next_call tx) =
      ((word_of_nat (length (rows_of (tx_work tx) sid)) + version_of evts, None), tx') \<and> \<not> tx_done tx' \<and> \<not> tx_aborted tx'"
    using appendDomainEvents_checked_succeeds [of "next_call tx" evts env ser sid landed ctx] assms by simp
  with pass open_tx show ?thesis
    by (cases expected) (auto simp: appendDomainEvents_def scan_no_faults stream_version_ok [OF ok])
qed

lemma appendDomainEvents_conflicts:
  assumes ok: "tables_ok (tx_work tx)" and open_tx: "\<not> tx_done tx" "\<not> tx_aborted tx"
    and v: "v \<noteq> word_of_nat (length (rows_of (tx_work tx) sid))"
  shows "appendDomainEvents (engine no_faults landed) env ctx DefaultEventsTableName DefaultStreamsTableName ser sid (CheckExact v) evts tx =
      ((0, Some (Errorf ''postgres.appendDomainEvents: event stream version check failed, %w''
          [Conflict \<lparr>Expected = v, Actual = word_of_nat (length (rows_of (tx_work tx) sid))\<rparr>])), next_call tx)"
  using assms by (simp add: appendDomainEvents_def scan_no_faults stream_version_ok [OF ok])

lemma append_action_succeeds:
  assumes "tables_ok (tx_work tx)" "\<not> tx_done tx" "\<not> tx_aborted tx"
    and "\<forall>evt \<in> set evts. serializable_event env ser evt" and "evts \<noteq> []"
    and "length (rows_of (tx_work tx) sid) + length evts < 2 ^ 32"
    and "check_passes expected (word_of_nat (length (rows_of (tx_work tx) sid)))"
  shows "\<exists>tx'. append_action no_faults landed env ser sid expected evts ctx tx s =
      (None, tx', word_of_nat (length (rows_of (tx_work tx) sid)) + version_of evts) \<and> \<not> tx_done tx' \<and> \<not> tx_aborted tx'"
  using appendDomainEvents_succeeds [OF assms, of landed ctx] by (auto simp: append_action_def)

lemma append_action_conflicts:
  assumes "tables_ok (tx_work tx)" "\<not> tx_done tx" "\<not> tx_aborted tx"
    and "v \<noteq> word_of_nat (length (rows_of (tx_work tx) sid))"
  shows "append_action no_faults landed env ser sid (CheckExact v) evts ctx tx s =
      (Some (Errorf ''postgres.EventStore: failed to append domain events, %w''
        [Errorf ''postgres.appendDomainEvents: event stream version check failed, %w''
          [Conflict \<lparr>Expected = v, Actual = word_of_nat (length (rows_of (tx_work tx) sid))\<rparr>]]), next_call tx, 0)"
  by (simp add: append_action_def appendDomainEvents_conflicts [OF assms])

lemma pg_EventStore_Append_conflict:
  assumes ok: "tables_ok (tables_now p)" and v: "v \<noteq> word_of_nat (length (rows_of (tables_now p) sid))"
  shows "\<exists>e p'. pg_EventStore_Append (NewEventStore (engine no_faults landed) serde) env ctx sid (CheckExact v) evts p =
      ((0, Some e), p') \<and> caused_by e (Conflict \<lparr>Expected = v, Actual = word_of_nat (length (rows_of (tables_now p) sid))\<rparr>) \<and>
      tables_now p' = tables_now p"
proof -
  have "append_action no_faults landed env (Serialize serde) sid (CheckExact v) evts ctx (opened p) 0 =
      (Some (Errorf ''postgres.EventStore: failed to append domain events, %w''
        [Errorf ''postgres.appendDomainEvents: event stream version check failed, %w''
          [Conflict \<lparr>Expected = v, Actual = word_of_nat (length (rows_of (tables_now p) sid))\<rparr>]]), next_call (opened p), 0)"
    using append_action_conflicts [of "opened p" v sid landed env "Serialize serde" evts ctx 0] ok v by simp
  from RunTransaction_rolls_back [where action = "append_action no_faults landed env (Serialize serde) sid (CheckExact v) evts"
      and ctx = ctx and p = p and s = 0, OF this, of landed serializable_rw] obtain p' where
    "RunTransaction (engine no_faults landed) ctx serializable_rw
        (append_action no_faults landed env (Serialize serde) sid (CheckExact v) evts) 0 p =
       (Some (withContext ''failed to perform transaction'' (Errorf ''postgres.EventStore: failed to append domain events, %w''
        [Errorf ''postgres.appendDomainEvents: event stream version check failed, %w''
          [Conflict \<lparr>Expected = v, Actual = word_of_nat (length (rows_of (tables_now p) sid))\<rparr>]])), 0, p')"
    "tables_now p' = tables_now p" by auto
  then show ?thesis
    by (simp add: pg_EventStore_Append_action withContext_def)
qed

lemma pg_EventStore_Append_succeeds:
  assumes ok: "tables_ok (tables_now p)" and ser: "\<forall>evt \<in> set evts. serializable_event env (Serialize serde) evt"
    and ne: "evts \<noteq> []" and bound: "length (rows_of (tables_now p) sid) + length evts < 2 ^ 32"
    and pass: "check_passes expected (word_of_nat (length (rows_of (tables_now p) sid)))"
  shows "\<exists>p'. pg_EventStore_Append (NewEventStore (engine no_faults landed) serde) env ctx sid expected evts p =
      ((word_of_nat (length (rows_of (tables_now p) sid) + length evts), None), p') \<and>
      appended env (Serialize serde) sid (word_of_nat (length (rows_of (tables_now p) sid))) evts (tables_now p) = Some (tables_now p') \<and>
      tables_ok (tables_now p')"
proof -
  let ?n = "length (rows_of (tables_now p) sid)"
  obtain tx' where a: "append_action no_faults landed env (Serialize serde) sid expected evts ctx (opened p) 0 =
      (None, tx', word_of_nat ?n + version_of evts)" and tx': "\<not> tx_done tx'" "\<not> tx_aborted tx'"
    using append_action_succeeds [of "opened p" evts env "Serialize serde" sid expected landed ctx 0] assms by auto
  from RunTransaction_commits [where action = "append_action no_faults landed env (Serialize serde) sid expected evts"
      and ctx = ctx and p = p and s = 0, OF a tx', of landed serializable_rw] obtain p' where
    run: "RunTransaction (engine no_faults landed) ctx serializable_rw
        (append_action no_faults landed env (Serialize serde) sid expected evts) 0 p = (None, word_of_nat ?n + version_of evts, p')"
    "tables_now p' = tx_work tx'" by auto
  from append_action_ok [OF _ a] obtain old where
    "stream_version (tables_now p) sid = Some old" "appended env (Serialize serde) sid old evts (tables_now p) = Some (tx_work tx')"
    by (auto simp: proper_faults_def)
  with stream_version_ok(1) [OF ok] run(2) have
    ap: "appended env (Serialize serde) sid (word_of_nat ?n) evts (tables_now p) = Some (tables_now p')" by simp
  with run appended_tables_ok [OF ok ap ne bound] show ?thesis by (simp add: pg_EventStore_Append_action)
qed


section \<open>The log behind the tables\<close>

definition stored_metadata :: "event_row \<Rightarrow> bytes" where
  "stored_metadata r = (case row_metadata r of None \<Rightarrow> [] | Some m \<Rightarrow> m)"

definition readable_row :: "('m, bytes) Fused \<Rightarrow> 'm pg_env \<Rightarrow> event_row \<Rightarrow> bool" where
  "readable_row serde env r \<longleftrightarrow>
     \<not> isl (Deserialize serde (row_event r)) \<and> \<not> isl (json_Unmarshal env (stored_metadata r))"

definition decode_row :: "('m, bytes) Fused \<Rightarrow> 'm pg_env \<Rightarrow> event_row \<Rightarrow> 'm Envelope" where
  "decode_row serde env r =
     \<lparr>Message = projr (Deserialize serde (row_event r)), Metadata = projr (json_Unmarshal env (stored_metadata r))\<rparr>"

definition pg_log :: "('m, bytes) Fused \<Rightarrow> 'm pg_env \<Rightarrow> tables \<Rightarrow> StreamID \<Rightarrow> 'm Envelope list" where
  "pg_log serde env t sid = map (decode_row serde env) (rows_of t sid)"

definition pg_ok :: "('m, bytes) Fused \<Rightarrow> 'm pg_env \<Rightarrow> tables \<Rightarrow> bool" where
  "pg_ok serde env t \<longleftrightarrow> tables_ok t \<and> (\<forall>r \<in> set (events_table t). readable_row serde env r)"

text \<open>The envelopes as they are recorded: with the metadata that appending adds.\<close>

primrec as_recorded :: "'m pg_env \<Rightarrow> Version \<Rightarrow> nat \<Rightarrow> 'm Envelope list \<Rightarrow> 'm Envelope list" where
  "as_recorded env new i [] = []"
| "as_recorded env new i (evt # evts) =
     \<lparr>Message = Message evt, Metadata = enrichedMetadata env i new (Metadata evt)\<rparr> # as_recorded env new (Suc i) evts"

text \<open>What is written of an envelope reads back.\<close>

definition reads_back :: "('m, bytes) Fused \<Rightarrow> 'm pg_env \<Rightarrow> 'm Envelope \<Rightarrow> bool" where
  "reads_back serde env evt \<longleftrightarrow>
     (\<forall>data. Serialize serde (Message evt) = Inr data \<longrightarrow> Deserialize serde data = Inr (Message evt)) \<and>
     (\<forall>data. serializeMetadata env (Metadata evt) = Inr (Some data) \<longrightarrow> json_Unmarshal env data = Inr (Metadata evt))"

lemma new_rows_decode:
  "new_rows env (Serialize serde) sid old new i evts = Some rs \<Longrightarrow>
   \<forall>evt \<in> set (as_recorded env new i evts). reads_back serde env evt \<Longrightarrow>
   map (decode_row serde env) rs = as_recorded env new i evts \<and> (\<forall>r \<in> set rs. readable_row serde env r)"
proof (induction evts arbitrary: i rs)
  case Nil
  then show ?case by simp
next
  case (Cons evt evts)
  from Cons.prems(1) obtain data metadata rs' where ser: "Serialize serde (Message evt) = Inr data"
    "serializeMetadata env (enrichedMetadata env i new (Metadata evt)) = Inr metadata"
    and rest: "new_rows env (Serialize serde) sid old new (Suc i) evts = Some rs'"
    and rs: "rs = \<lparr>row_stream = sid, row_type = message_Name env (Message evt),
        row_version = uint (old + word_of_nat i + 1), row_event = data, row_metadata = metadata\<rparr> # rs'"
    by (auto split: sum.splits)
  obtain bs where bs: "metadata = Some bs"
    using ser(2) by (auto simp: serializeMetadata_def enrichedMetadata_def with_value_def split: sum.splits)
  from Cons.prems(2) have "reads_back serde env \<lparr>Message = Message evt, Metadata = enrichedMetadata env i new (Metadata evt)\<rparr>"
    by simp
  with ser bs have "Deserialize serde data = Inr (Message evt)"
    "json_Unmarshal env bs = Inr (enrichedMetadata env i new (Metadata evt))"
    by (auto simp: reads_back_def)
  with Cons.IH [OF rest] Cons.prems(2) rs bs show ?case
    by (simp add: decode_row_def readable_row_def stored_metadata_def)
qed

lemma appended_pg_log:
  assumes ok: "pg_ok serde env t" and ap: "appended env (Serialize serde) sid (word_of_nat (length (rows_of t sid))) evts t = Some t'"
    and ne: "evts \<noteq> []" and bound: "length (rows_of t sid) + length evts < 2 ^ 32"
    and rb: "\<forall>evt \<in> set (as_recorded env (word_of_nat (length (rows_of t sid) + length evts)) 0 evts). reads_back serde env evt"
  shows "pg_ok serde env t'"
    and "pg_log serde env t' = (pg_log serde env t)
      (sid := pg_log serde env t sid @ as_recorded env (word_of_nat (length (rows_of t sid) + length evts)) 0 evts)"
proof -
  let ?n = "length (rows_of t sid)"
  let ?new = "word_of_nat ?n + version_of evts :: Version"
  from ap obtain rs where rs: "new_rows env (Serialize serde) sid (word_of_nat ?n) ?new 0 evts = Some rs"
    and t': "t' = t\<lparr>event_streams := (event_streams t)(sid \<mapsto> uint ?new), events_table := events_table t @ rs\<rparr>"
    by (auto simp: appended_def)
  have new: "?new = word_of_nat (?n + length evts)" by simp
  have dec: "map (decode_row serde env) rs = as_recorded env ?new 0 evts" "\<forall>r \<in> set rs. readable_row serde env r"
    using new_rows_decode [OF rs] rb unfolding new by blast+
  from new_rows_shape [OF rs] bound have sid: "\<forall>r \<in> set rs. row_stream r = sid" by simp
  have "tables_ok t" using ok by (simp add: pg_ok_def)
  from appended_tables_ok [OF this ap ne bound] dec(2) ok show "pg_ok serde env t'"
    by (auto simp: pg_ok_def t')
  have "filter (\<lambda>r. row_stream r = i) rs = (if i = sid then rs else [])" for i
    using sid by (auto simp: filter_empty_conv)
  then have "rows_of t' i = rows_of t i @ (if i = sid then rs else [])" for i
    by (simp add: t' rows_of_def)
  then show "pg_log serde env t' = (pg_log serde env t)
      (sid := pg_log serde env t sid @ as_recorded env (word_of_nat (?n + length evts)) 0 evts)"
    using dec(1) by (simp add: pg_log_def fun_eq_iff)
qed

lemma length_pg_log [simp]: "length (pg_log serde env t sid) = length (rows_of t sid)"
  by (simp add: pg_log_def)

section \<open>Reading the log\<close>

definition row_persisted :: "('m, bytes) Fused \<Rightarrow> 'm pg_env \<Rightarrow> StreamID \<Rightarrow> event_row \<Rightarrow> 'm Persisted" where
  "row_persisted serde env sid r =
     \<lparr>StreamID = sid, Version = word_of_int (row_version r), Envelope = decode_row serde env r\<rparr>"

lemma pg_rows_loop_feed:
  assumes "\<forall>r \<in> set rs. readable_row serde env r \<and> 0 \<le> row_version r \<and> row_version r < 2 ^ 32"
  shows "pg_rows_loop (Deserialize serde) (json_Unmarshal env) sid None p (map scan_row rs) =
     feed (map (row_persisted serde env sid) rs) None p"
  using assms
proof (induction rs)
  case Nil
  then show ?case by simp
next
  case (Cons r rs)
  then have "\<not> isl (Deserialize serde (row_event r))" "\<not> isl (json_Unmarshal env (stored_metadata r))"
    by (auto simp: readable_row_def)
  then obtain msg metadata where "Deserialize serde (row_event r) = Inr msg"
    "json_Unmarshal env (stored_metadata r) = Inr metadata"
    by (metis isl_def sum.exhaust)
  with Cons show ?case
    by (auto simp: scan_row_def scan_uint32_def row_persisted_def decode_row_def stored_metadata_def fun_eq_iff)
qed


lemma row_persisted_numbered:
  "map row_version rs = map int [Suc k..<Suc (k + length rs)] \<Longrightarrow>
   map (row_persisted serde env sid) rs = persisted_from sid (word_of_nat k) (map (decode_row serde env) rs)"
proof (induction rs arbitrary: k)
  case Nil
  then show ?case by simp
next
  case (Cons r rs)
  then have "row_version r = int (Suc k)" "map row_version rs = map int [Suc (Suc k)..<Suc (Suc k + length rs)]"
    by (simp_all add: upt_conv_Cons del: upt_Suc)
  with Cons.IH [of "Suc k"] show ?case by (simp add: row_persisted_def add.commute)
qed

lemma rows_of_bounds:
  assumes "tables_ok t" and "r \<in> set (rows_of t sid)"
  shows "0 < row_version r" and "row_version r < 2 ^ 32"
proof -
  let ?n = "length (rows_of t sid)"
  have "map row_version (rows_of t sid) = map int [1..<Suc ?n]" "?n < 2 ^ 32"
    using assms(1) by (auto simp: tables_ok_def)
  then have "row_version r \<in> int ` {1..<Suc ?n}" using assms(2)
    by (metis imageI list.set_map atLeastLessThan_upt)
  with \<open>?n < 2 ^ 32\<close> show "0 < row_version r" "row_version r < 2 ^ 32" by auto
qed

lemma select_events_rows:
  assumes ok: "pg_ok serde env t"
  shows "\<exists>rs. select_events (SelectEvents sid v) t = Inr \<lparr>rows_list = map scan_row rs, rows_Err = None\<rparr> \<and>
     (\<forall>r \<in> set rs. readable_row serde env r \<and> 0 \<le> row_version r \<and> row_version r < 2 ^ 32) \<and>
     map (row_persisted serde env sid) rs =
       filter (selects \<lparr>From = v\<rparr>) (persisted_from sid 0 (pg_log serde env t sid))"
proof -
  have t: "tables_ok t" using ok by (simp add: pg_ok_def)
  let ?rows = "rows_of t sid"
  let ?rs = "filter (\<lambda>r. uint v \<le> row_version r) ?rows"
  have num: "map row_version ?rows = map int [Suc 0..<Suc (0 + length ?rows)]"
    using t by (simp add: tables_ok_def)
  have "sorted (map int [Suc 0..<Suc (0 + length ?rows)])"
    by (simp add: sorted_map sorted_wrt_upt del: upt_Suc)
  then have "sorted (map row_version ?rows)" by (simp only: num)
  then have "sort_key row_version ?rs = ?rs"
    by (intro sort_key_id_if_sorted) (simp add: sorted_filter)
  moreover have "map (row_persisted serde env sid) ?rs =
      filter (selects \<lparr>From = v\<rparr>) (persisted_from sid 0 (pg_log serde env t sid))"
  proof -
    have "filter (selects \<lparr>From = v\<rparr>) (map (row_persisted serde env sid) ?rows) =
        map (row_persisted serde env sid) (filter (\<lambda>r. selects \<lparr>From = v\<rparr> (row_persisted serde env sid r)) ?rows)"
      by (simp add: filter_map o_def)
    moreover have "selects \<lparr>From = v\<rparr> (row_persisted serde env sid r) \<longleftrightarrow> uint v \<le> row_version r"
      if "r \<in> set ?rows" for r
      using rows_of_bounds [OF t that] by (simp add: selects_def row_persisted_def word_le_def uint_word_of_int)
    ultimately show ?thesis
      using row_persisted_numbered [OF num, of serde env sid] by (simp add: pg_log_def cong: filter_cong)
  qed
  moreover have "\<forall>r \<in> set ?rs. readable_row serde env r \<and> 0 \<le> row_version r \<and> row_version r < 2 ^ 32"
    using rows_of_bounds [OF t] ok by (fastforce simp: pg_ok_def rows_of_def)
  ultimately show ?thesis by (intro exI [of _ ?rs]) (simp add: select_events_def)
qed

lemma pg_EventStore_Stream_feed:
  assumes "pg_ok serde env (tables_now p)"
  shows "produce (pg_EventStore_Stream (NewEventStore (engine no_faults landed) serde) env ctx sid selector) p =
     feed (filter (selects selector) (persisted_from sid 0 (pg_log serde env (tables_now p) sid))) None
       (p\<lparr>calls := Suc (calls p)\<rparr>)"
proof -
  have sel: "\<lparr>From = From selector\<rparr> = selector" by simp
  from select_events_rows [OF assms, of sid "From selector"] obtain rs where
    "select_events (SelectEvents sid (From selector)) (tables_now p) = Inr \<lparr>rows_list = map scan_row rs, rows_Err = None\<rparr>"
    "\<forall>r \<in> set rs. readable_row serde env r \<and> 0 \<le> row_version r \<and> row_version r < 2 ^ 32"
    "map (row_persisted serde env sid) rs = filter (selects selector) (persisted_from sid 0 (pg_log serde env (tables_now p) sid))"
    unfolding sel by blast
  then show ?thesis
    by (simp add: pg_EventStore_Stream_def NewEventStore_def engine_def on_pool_def pg_rows_loop_feed)
qed


lemma scan_uint32_uint [simp]: "scan_uint32 (uint v) = Inr v"
  using uint_lt2p [of v] by (simp add: scan_uint32_def)

lemma engine_scan_aggregate:
  "db_ScanAggregate (engine faults landed) ctx stmt p = on_pool faults (select_aggregate stmt) p"
  by (simp add: engine_def)

lemma saved_row:
  assumes "saved env ty as ms root t = Some t'"
    and "\<forall>row. aggregates_table t (String ty (AggregateID ty (flushed root))) = Some row \<longrightarrow> agg_type row = Name ty"
  shows "\<exists>state row. Serialize as (flushed root) = Inr state \<and>
     aggregates_table t' (String ty (AggregateID ty (flushed root))) = Some row \<and>
     agg_type row = Name ty \<and> agg_row_version row = uint (version root) \<and> agg_state row = state"
  using assms
  by (cases "aggregates_table t (String ty (AggregateID ty (flushed root)))")
    (auto simp: saved_def appended_def Let_def split: option.splits sum.splits)

section \<open>Saving without faults\<close>

lemma appended_streams:
  "appended env ser sid old evts t = Some t' \<Longrightarrow> event_streams t' sid = Some (uint (old + version_of evts))"
  by (auto simp: appended_def)

lemma save_action_succeeds:
  fixes root :: "('m, 'z) BaseRoot_scheme" and ty :: "('id, 'm, 'z) Type"
  defines "sid \<equiv> String ty (AggregateID ty (flushed root))"
  assumes ok: "tables_ok (tx_work tx)" and open_tx: "\<not> tx_done tx" "\<not> tx_aborted tx"
    and ser: "\<forall>evt \<in> set (recordedEvents root). serializable_event env (Serialize ms) evt" and ne: "recordedEvents root \<noteq> []"
    and bound: "length (rows_of (tx_work tx) sid) + length (recordedEvents root) < 2 ^ 32"
    and based: "version root - version_of (recordedEvents root) = word_of_nat (length (rows_of (tx_work tx) sid))"
    and state: "Serialize as (flushed root) = Inr state"
  shows "\<exists>tx'. AggregateRepository_save_action (pg_repo no_faults landed ty as ms) env ctx tx root = (None, tx', flushed root) \<and>
      \<not> tx_done tx' \<and> \<not> tx_aborted tx'"
proof -
  let ?evts = "recordedEvents root" and ?n = "length (rows_of (tx_work tx) sid)"
  have v: "version root = word_of_nat ?n + version_of ?evts" using based by (metis diff_add_cancel)
  also have "\<dots> = word_of_nat (?n + length ?evts)" by simp
  finally have u: "uint (version root) = int (?n + length ?evts)" using bound by (simp only: uint_len32)
  have "check_passes (CheckExact (version root - version_of ?evts)) (word_of_nat ?n)" using based by simp
  from appendDomainEvents_succeeds [OF ok open_tx ser ne bound this, of landed ctx] v obtain tx1 where
    ap: "appendDomainEvents (engine no_faults landed) env ctx DefaultEventsTableName DefaultStreamsTableName (Serialize ms) sid
      (CheckExact (version root - version_of ?evts)) ?evts tx = ((version root, None), tx1)"
    and tx1: "\<not> tx_done tx1" "\<not> tx_aborted tx1" by auto
  from appendDomainEvents_engine [OF _ ap] have "event_streams (tx_work tx1) sid \<noteq> None"
    by (auto simp: proper_faults_def dest!: appended_streams)
  moreover have "0 < uint (version root)" using u ne by (cases ?evts) simp_all
  ultimately obtain t where "execute (SaveAggregate DefaultAggregateTableName sid (Name ty) (version root) state) (tx_work tx1) = Inr t"
    by (auto simp: execute_def)
  from engine_exec_ok [OF this tx1, of landed ctx] state
  have "saveAggregateState (pg_repo no_faults landed ty as ms) ctx sid (flushed root) tx1 = (None, (next_call tx1)\<lparr>tx_work := t\<rparr>)"
    by (simp add: saveAggregateState_def)
  with ap tx1 show ?thesis
    by (simp add: AggregateRepository_save_action_def FlushRecordedEvents_eq Let_def flip: sid_def)
qed

lemma saved_tables_ok:
  assumes "tables_ok t" and "saved env ty as ms root t = Some t'" and "recordedEvents root \<noteq> []"
    and "length (rows_of t (String ty (AggregateID ty (flushed root)))) + length (recordedEvents root) < 2 ^ 32"
    and "version root - version_of (recordedEvents root) = word_of_nat (length (rows_of t (String ty (AggregateID ty (flushed root)))))"
  shows "tables_ok t'"
proof -
  obtain t1 a where ap: "appended env (Serialize ms) (String ty (AggregateID ty (flushed root)))
      (version root - version_of (recordedEvents root)) (recordedEvents root) t = Some t1"
    and t': "t' = t1\<lparr>aggregates_table := a\<rparr>"
    using assms(2) by (auto simp: saved_def Let_def split: option.splits sum.splits)
  have "tables_ok t1" by (rule appended_tables_ok [OF assms(1) ap [unfolded assms(5)] assms(3,4)])
  then show ?thesis by (simp add: tables_ok_def t' rows_of_def)
qed

section \<open>Properties\<close>

text \<open>C34: When the database does not fail, an append to the PostgreSQL event store of events that can
  be serialized and read back extends the log of its stream, and of no other, by the given messages
  with the recording time and the new version added to their metadata, and returns the new version;
  when the version check fails it changes nothing and its error is caused by a \<open>ConflictError\<close> with
  both versions. The tables stay consistent.\<close>

theorem pg_EventStore_Append_outcome:
  assumes "pg_ok serde env (tables_now p)" and "evts \<noteq> []"
    and "length (pg_log serde env (tables_now p) sid) + length evts < 2 ^ 32"
    and "\<forall>evt \<in> set evts. serializable_event env (Serialize serde) evt"
    and "\<forall>evt \<in> set (as_recorded env (version_of (pg_log serde env (tables_now p) sid @ evts)) 0 evts). reads_back serde env evt"
  shows "case pg_EventStore_Append (NewEventStore (engine no_faults landed) serde) env ctx sid expected evts p of
     ((v, None), p') \<Rightarrow>
        check_passes expected (version_of (pg_log serde env (tables_now p) sid)) \<and>
        v = version_of (pg_log serde env (tables_now p) sid @ evts) \<and>
        pg_log serde env (tables_now p') = (pg_log serde env (tables_now p))
          (sid := pg_log serde env (tables_now p) sid @ as_recorded env v 0 evts) \<and>
        pg_ok serde env (tables_now p')
   | ((v, Some e), p') \<Rightarrow> v = 0 \<and> tables_now p' = tables_now p \<and>
        (\<exists>v'. expected = CheckExact v' \<and> v' \<noteq> version_of (pg_log serde env (tables_now p) sid) \<and>
          caused_by e (Conflict \<lparr>Expected = v', Actual = version_of (pg_log serde env (tables_now p) sid)\<rparr>))"
proof (cases "check_passes expected (word_of_nat (length (rows_of (tables_now p) sid)))")
  case True
  have ok: "tables_ok (tables_now p)" using assms(1) by (simp add: pg_ok_def)
  have bound: "length (rows_of (tables_now p) sid) + length evts < 2 ^ 32" using assms(3) by simp
  from pg_EventStore_Append_succeeds [OF ok assms(4,2) bound True, of landed ctx] obtain p' where
    r: "pg_EventStore_Append (NewEventStore (engine no_faults landed) serde) env ctx sid expected evts p =
      ((word_of_nat (length (rows_of (tables_now p) sid) + length evts), None), p')" and
    ap: "appended env (Serialize serde) sid (word_of_nat (length (rows_of (tables_now p) sid))) evts (tables_now p) = Some (tables_now p')"
    by blast
  from assms(5) have rb: "\<forall>evt \<in> set (as_recorded env (word_of_nat (length (rows_of (tables_now p) sid) + length evts)) 0 evts).
      reads_back serde env evt" by simp
  from r True appended_pg_log [OF assms(1) ap assms(2) bound rb] show ?thesis by simp
next
  case False
  then obtain v where v: "expected = CheckExact v" "v \<noteq> word_of_nat (length (rows_of (tables_now p) sid))"
    by (cases expected) auto
  have ok: "tables_ok (tables_now p)" using assms(1) by (simp add: pg_ok_def)
  from pg_EventStore_Append_conflict [OF ok v(2), of landed serde env ctx evts] v show ?thesis by auto
qed

text \<open>A stream of the PostgreSQL event store pushes exactly the log of its stream from the selected
  version on, each envelope with its position as version, and then reports no error; the tables are
  unchanged.\<close>

lemma pg_EventStore_Stream_replays:
  assumes "pg_ok serde env (tables_now p)"
  shows "\<exists>strm p'. for_range (\<lambda>evt acc. (None :: unit option, acc @ [evt]))
      (pg_EventStore_Stream (NewEventStore (engine no_faults landed) serde) env ctx sid selector) p [] =
     Some (None, strm, p', filter (selects selector) (persisted_from sid 0 (pg_log serde env (tables_now p) sid))) \<and>
     Err strm = None \<and> tables_now p' = tables_now p"
proof -
  have "\<not> iterated (pg_EventStore_Stream (NewEventStore (engine no_faults landed) serde) env ctx sid selector)"
    by (simp add: pg_EventStore_Stream_def)
  from for_range_fresh [OF this pg_EventStore_Stream_feed [OF assms], of "\<lambda>evt acc. (None :: unit option, acc @ [evt])" "[]"]
  show ?thesis
    by (simp add: for_each_collect Err_def)
qed

lemma pg_AggregateRepository_Save_conflict:
  fixes root :: "('m, 'z) BaseRoot_scheme" and ty :: "('id, 'm, 'z) Type"
  defines "sid \<equiv> String ty (AggregateID ty (flushed root))"
  assumes "tables_ok (tables_now p)"
    and ne: "version root - version_of (recordedEvents root) \<noteq> word_of_nat (length (rows_of (tables_now p) sid))"
  shows "\<exists>e p'. AggregateRepository_Save (pg_repo no_faults landed ty as ms) env ctx root p = (Some e, flushed root, p') \<and>
    caused_by e (Conflict \<lparr>Expected = version root - version_of (recordedEvents root),
      Actual = word_of_nat (length (rows_of (tables_now p) sid))\<rparr>) \<and> tables_now p' = tables_now p"
proof -
  let ?e = "Errorf ''postgres.appendDomainEvents: event stream version check failed, %w''
      [Conflict \<lparr>Expected = version root - version_of (recordedEvents root), Actual = word_of_nat (length (rows_of (tables_now p) sid))\<rparr>]"
  have "AggregateRepository_save_action (pg_repo no_faults landed ty as ms) env ctx (opened p) root =
      (Some ?e, next_call (opened p), flushed root)"
    using appendDomainEvents_conflicts [of "opened p" "version root - version_of (recordedEvents root)"
        sid landed env ctx "Serialize ms" "recordedEvents root"] assms(2) ne
    by (simp add: AggregateRepository_save_action_def FlushRecordedEvents_eq Let_def flip: sid_def)
  from RunTransaction_rolls_back [where action = "AggregateRepository_save_action (pg_repo no_faults landed ty as ms) env"
      and ctx = ctx and p = p and s = root, OF this, of landed serializable_rw] show ?thesis
    by (auto simp: AggregateRepository_Save_def withContext_def)
qed

lemma pg_AggregateRepository_Save_outcome_core:
  fixes root :: "('m, 'z) BaseRoot_scheme" and ty :: "('id, 'm, 'z) Type"
  assumes "tables_ok (tables_now p)" and "recordedEvents root \<noteq> []"
    and "length (rows_of (tables_now p) (String ty (AggregateID ty (flushed root)))) + length (recordedEvents root) < 2 ^ 32"
    and "\<forall>evt \<in> set (recordedEvents root). serializable_event env (Serialize ms) evt"
    and "Serialize as (flushed root) = Inr state"
  shows "case AggregateRepository_Save (pg_repo no_faults landed ty as ms) env ctx root p of
     (None, root', p') \<Rightarrow> root' = flushed root \<and>
        version root - version_of (recordedEvents root) =
          word_of_nat (length (rows_of (tables_now p) (String ty (AggregateID ty (flushed root))))) \<and>
        saved env ty as ms root (tables_now p) = Some (tables_now p') \<and> tables_ok (tables_now p')
   | (Some e, root', p') \<Rightarrow> root' = flushed root \<and> tables_now p' = tables_now p \<and>
        version root - version_of (recordedEvents root) \<noteq>
          word_of_nat (length (rows_of (tables_now p) (String ty (AggregateID ty (flushed root))))) \<and>
        caused_by e (Conflict \<lparr>Expected = version root - version_of (recordedEvents root),
          Actual = word_of_nat (length (rows_of (tables_now p) (String ty (AggregateID ty (flushed root)))))\<rparr>)"
proof (cases "version root - version_of (recordedEvents root) =
    word_of_nat (length (rows_of (tables_now p) (String ty (AggregateID ty (flushed root)))))")
  case True
  obtain tx' where a: "AggregateRepository_save_action (pg_repo no_faults landed ty as ms) env ctx (opened p) root =
      (None, tx', flushed root)" and tx': "\<not> tx_done tx'" "\<not> tx_aborted tx'"
    using save_action_succeeds [of "opened p" root env ms ty as state landed ctx] assms True by auto
  from RunTransaction_commits [where action = "AggregateRepository_save_action (pg_repo no_faults landed ty as ms) env"
      and ctx = ctx and p = p and s = root, OF a tx', of landed serializable_rw] obtain p' where
    r: "AggregateRepository_Save (pg_repo no_faults landed ty as ms) env ctx root p = (None, flushed root, p')"
    and p': "tables_now p' = tx_work tx'" by (auto simp: AggregateRepository_Save_def)
  from save_action_ok [OF _ a] p' have sv: "saved env ty as ms root (tables_now p) = Some (tables_now p')"
    by (auto simp: proper_faults_def)
  with r True saved_tables_ok [OF assms(1) sv assms(2,3) True] show ?thesis by simp
next
  case False
  from pg_AggregateRepository_Save_conflict [OF assms(1) this, of landed as ms env ctx] False show ?thesis by auto
qed

text \<open>C37: When the database does not fail, saving a root with recorded events on PostgreSQL, all of them
  and the root serializable, commits the events and the state when the root was based on the last
  event of its stream, and otherwise changes nothing and reports an error caused by a
  \<open>ConflictError\<close> with the version the root was based on and the stream's version. The tables stay
  consistent. The root is flushed either way.\<close>

theorem pg_AggregateRepository_Save_outcome:
  fixes root :: "('m, 'z) BaseRoot_scheme" and ty :: "('id, 'm, 'z) Type"
  assumes "tables_ok (tables_now p)" and "recordedEvents root \<noteq> []"
    and "length (rows_of (tables_now p) (String ty (AggregateID ty (flushed root)))) + length (recordedEvents root) < 2 ^ 32"
    and "\<forall>evt \<in> set (recordedEvents root). serializable_event env (Serialize ms) evt"
    and "Serialize as (flushed root) = Inr state"
  shows "case AggregateRepository_Save (pg_repo no_faults landed ty as ms) env ctx root p of
     (None, root', p') \<Rightarrow> root' = flushed root \<and>
        version root - version_of (recordedEvents root) =
          word_of_nat (length (rows_of (tables_now p) (String ty (AggregateID ty (flushed root))))) \<and>
        saved env ty as ms root (tables_now p) = Some (tables_now p') \<and> tables_ok (tables_now p')
   | (Some e, root', p') \<Rightarrow> root' = flushed root \<and> tables_now p' = tables_now p \<and>
        version root - version_of (recordedEvents root) \<noteq>
          word_of_nat (length (rows_of (tables_now p) (String ty (AggregateID ty (flushed root))))) \<and>
        caused_by e (Conflict \<lparr>Expected = version root - version_of (recordedEvents root),
          Actual = word_of_nat (length (rows_of (tables_now p) (String ty (AggregateID ty (flushed root)))))\<rparr>)"
  using assms by (rule pg_AggregateRepository_Save_outcome_core)

text \<open>C38: A root whose save on PostgreSQL reported success, whatever failed on the way, is what the next
  load that reaches the database returns, when its serde reads its state back up to the version,
  which is restored from its column, and the row, if there was one, had the aggregate's type.\<close>

theorem pg_AggregateRepository_Save_then_Get:
  assumes "proper_faults faults"
    and "AggregateRepository_Save (pg_repo faults landed ty as ms) env ctx root p = (None, root', p')"
    and "faults (calls p') = None"
    and "\<forall>state. Serialize as (flushed root) = Inr state \<longrightarrow>
        (\<exists>src. Deserialize as state = Inr src \<and> setVersion (version root) src = flushed root)"
    and "\<forall>row. aggregates_table (tables_now p) (String ty (AggregateID ty (flushed root))) = Some row \<longrightarrow> agg_type row = Name ty"
  shows "\<exists>p''. AggregateRepository_Get (pg_repo faults landed ty as ms) ctx (AggregateID ty root') p' =
       Some (Inr root', p'') \<and> tables_now p'' = tables_now p'"
proof -
  from pg_AggregateRepository_Save_atomic_core [OF assms(1), where landed = landed and ty = ty and as = as and ms = ms and env = env
      and ctx = ctx and root = root and p = p] assms(2)
  have root': "root' = flushed root" and "saved env ty as ms root (tables_now p) = Some (tables_now p')" by auto
  from saved_row [OF this(2) assms(5)] obtain state row where ser: "Serialize as (flushed root) = Inr state"
    and row: "aggregates_table (tables_now p') (String ty (AggregateID ty root')) = Some row"
      "agg_type row = Name ty" "agg_row_version row = uint (version root)" "agg_state row = state"
    unfolding root' by blast
  from assms(4) ser obtain src where "Deserialize as state = Inr src" "setVersion (version root) src = root'"
    using root' by auto
  with row assms(3) show ?thesis
    by (simp add: AggregateRepository_Get_def AggregateRepository_get_def RehydrateFromState_def
        engine_scan_aggregate on_pool_def select_aggregate_def)
qed

end
