(* ===== verification/Postgres_Samples.thy ===== *)
theory Postgres_Samples
  imports Postgres_Outcome Todo_Service
begin

text \<open>
  Concrete databases, serdes and roots on which the properties of the PostgreSQL components apply.
\<close>

text \<open>A serde that knows one message, and JSON that knows the metadata recorded with it.\<close>

definition sample_metadata :: Metadata where
  "sample_metadata = Some [''Recorded-At'' \<mapsto> ''noon'', ''Recorded-With-New-Overall-Version'' \<mapsto> Itoa 1]"

definition sample_env :: "todo_event pg_env" where
  "sample_env = \<lparr>message_Name = todo_event_Name, recorded_at = (\<lambda>_. ''noon''), json_Marshal = (\<lambda>_. Inr [123, 125]),
     json_Unmarshal = (\<lambda>_. Inr sample_metadata)\<rparr>"

definition sample_serde :: "(todo_event, bytes) Fused" where
  "sample_serde = \<lparr>Serialize = (\<lambda>_. Inr [1]), Deserialize = (\<lambda>_. Inr (Message groceries))\<rparr>"

definition sample_root_serde :: "(TodoList, bytes) Fused" where
  "sample_root_serde = \<lparr>Serialize = (\<lambda>_. Inr [2]), Deserialize = (\<lambda>_. Inr (at_base 0 [] groceries_list))\<rparr>"

definition created_list :: TodoList where
  "created_list = at_base 1 [groceries] groceries_list"

definition fresh_pool :: pool where
  "fresh_pool = \<lparr>tables_now = no_tables, calls = 0\<rparr>"

text \<open>The connection is lost at the sixth call.\<close>

definition lost_connection :: faults where
  "lost_connection k = (if k = 5 then Some (Sentinel ''connection lost'') else None)"

lemma proper_lost_connection: "proper_faults lost_connection"
  by (simp add: proper_faults_def lost_connection_def ErrNoRows_def)

lemma tables_ok_no_tables: "tables_ok no_tables"
  by (simp add: tables_ok_def no_tables_def rows_of_def)

section \<open>Witnesses\<close>

theorem pg_EventStore_Append_atomic_witness:
  "case pg_EventStore_Append (NewEventStore (engine lost_connection (\<lambda>_. True)) sample_serde) sample_env Background
      ''a'' (CheckExact 0) [groceries, groceries] fresh_pool of
     ((v, None), p') \<Rightarrow>
        \<exists>old. stream_version (tables_now fresh_pool) ''a'' = Some old \<and> check_passes (CheckExact 0) old \<and>
          v = old + version_of [groceries, groceries] \<and>
          appended sample_env (Serialize sample_serde) ''a'' old [groceries, groceries] (tables_now fresh_pool) = Some (tables_now p')
   | ((v, Some e), p') \<Rightarrow> v = 0 \<and>
        (tables_now p' = tables_now fresh_pool \<or>
         (\<exists>old. stream_version (tables_now fresh_pool) ''a'' = Some old \<and> check_passes (CheckExact 0) old \<and>
            appended sample_env (Serialize sample_serde) ''a'' old [groceries, groceries] (tables_now fresh_pool) = Some (tables_now p')))"
  by (rule pg_EventStore_Append_atomic [OF proper_lost_connection])

theorem pg_EventStore_single_winner_witness:
  "length (winners ''a'' 0 [(''a'', CheckExact 0, [groceries]), (''a'', CheckExact 0, [groceries, groceries]), (''b'', CheckAny, [groceries])]
     (fst (append_results (pg_EventStore_Append (NewEventStore (engine lost_connection (\<lambda>_. True)) sample_serde) sample_env) Background
        [(''a'', CheckExact 0, [groceries]), (''a'', CheckExact 0, [groceries, groceries]), (''b'', CheckAny, [groceries])] fresh_pool))) \<le> 1"
proof -
  have "stream_version (tables_now fresh_pool) ''a'' = Some 0"
    by (simp add: stream_version_def scanned_version_def select_version_def fresh_pool_def no_tables_def ErrNoRows_def)
  then show ?thesis by (rule pg_EventStore_single_winner [OF proper_lost_connection]) simp
qed

theorem pg_AggregateRepository_Save_atomic_witness:
  "case AggregateRepository_Save (pg_repo lost_connection (\<lambda>_. True) (TodoList_Type unary) sample_root_serde sample_serde)
      sample_env Background created_list fresh_pool of
     (None, root', p') \<Rightarrow> root' = flushed created_list \<and>
        stream_version (tables_now fresh_pool) (String (TodoList_Type unary) (AggregateID (TodoList_Type unary) (flushed created_list))) =
          Some (version created_list - version_of (recordedEvents created_list)) \<and>
        saved sample_env (TodoList_Type unary) sample_root_serde sample_serde created_list (tables_now fresh_pool) = Some (tables_now p')
   | (Some e, root', p') \<Rightarrow> tables_now p' = tables_now fresh_pool \<or>
        saved sample_env (TodoList_Type unary) sample_root_serde sample_serde created_list (tables_now fresh_pool) = Some (tables_now p')"
  by (rule pg_AggregateRepository_Save_atomic [OF proper_lost_connection])

theorem pg_AggregateRepository_Save_aligned_witness:
  "\<exists>r root' p'. AggregateRepository_Save (pg_repo lost_connection (\<lambda>_. True) (TodoList_Type unary) sample_root_serde sample_serde)
      sample_env Background created_list fresh_pool = (r, root', p') \<and> aligned (tables_now p')"
proof -
  obtain r root' p' where s: "AggregateRepository_Save (pg_repo lost_connection (\<lambda>_. True) (TodoList_Type unary) sample_root_serde
      sample_serde) sample_env Background created_list fresh_pool = (r, root', p')"
    by (metis prod_cases3)
  have "aligned (tables_now fresh_pool)" by (simp add: aligned_def fresh_pool_def no_tables_def)
  from pg_AggregateRepository_Save_aligned [OF proper_lost_connection this s] s show ?thesis by blast
qed

lemma sample_pg_ok: "pg_ok sample_serde sample_env (tables_now fresh_pool)"
  by (simp add: pg_ok_def fresh_pool_def tables_ok_no_tables) (simp add: no_tables_def)

theorem pg_EventStore_Append_outcome_witness:
  "case pg_EventStore_Append (NewEventStore (engine no_faults (\<lambda>_. True)) sample_serde) sample_env Background
      ''a'' CheckAny [groceries] fresh_pool of
     ((v, None), p') \<Rightarrow> v = 1 \<and>
        pg_log sample_serde sample_env (tables_now p') ''a'' = [\<lparr>Message = Message groceries, Metadata = sample_metadata\<rparr>] \<and>
        pg_ok sample_serde sample_env (tables_now p')
   | ((v, Some e), p') \<Rightarrow> False"
proof -
  have "pg_log sample_serde sample_env (tables_now fresh_pool) ''a'' = []"
    by (simp add: pg_log_def rows_of_def fresh_pool_def no_tables_def)
  moreover have m: "as_recorded sample_env 1 0 [groceries] = [\<lparr>Message = Message groceries, Metadata = sample_metadata\<rparr>]"
    by (simp add: enrichedMetadata_def with_value_def groceries_def ToEnvelope_def sample_env_def sample_metadata_def)
  moreover have "reads_back sample_serde sample_env \<lparr>Message = Message groceries, Metadata = sample_metadata\<rparr>"
    by (simp add: reads_back_def sample_serde_def sample_env_def)
  moreover have "serializable_event sample_env (Serialize sample_serde) groceries"
    by (simp add: serializable_event_def sample_serde_def sample_env_def)
  ultimately show ?thesis
    using sample_pg_ok pg_EventStore_Append_outcome [where serde = sample_serde and env = sample_env and p = fresh_pool and evts = "[groceries]"
      and sid = "''a''" and landed = "\<lambda>_. True" and ctx = Background and expected = CheckAny]
    by (auto split: prod.splits option.splits)
qed

lemma sample_save_hyps:
  "tables_ok (tables_now fresh_pool)" "recordedEvents created_list \<noteq> []"
  "rows_of (tables_now fresh_pool) sid = []"
  "\<forall>evt \<in> set (recordedEvents created_list). serializable_event sample_env (Serialize sample_serde) evt"
  "Serialize sample_root_serde (flushed created_list) = Inr [2]"
  "version created_list - version_of (recordedEvents created_list) = 0"
  "length (recordedEvents created_list) < 2 ^ 32"
  by (simp_all add: fresh_pool_def tables_ok_no_tables created_list_def sample_root_serde_def serializable_event_def
      sample_serde_def sample_env_def) (simp add: rows_of_def no_tables_def)

theorem pg_AggregateRepository_Save_outcome_witness:
  "\<exists>p'. AggregateRepository_Save (pg_repo no_faults (\<lambda>_. True) (TodoList_Type unary) sample_root_serde sample_serde)
      sample_env Background created_list fresh_pool = (None, flushed created_list, p') \<and>
     saved sample_env (TodoList_Type unary) sample_root_serde sample_serde created_list no_tables = Some (tables_now p')"
proof -
  obtain r root' p' where s: "AggregateRepository_Save (pg_repo no_faults (\<lambda>_. True) (TodoList_Type unary) sample_root_serde
      sample_serde) sample_env Background created_list fresh_pool = (r, root', p')"
    by (metis prod_cases3)
  from pg_AggregateRepository_Save_outcome [OF sample_save_hyps(1,2) _ sample_save_hyps(4,5), of "TodoList_Type unary" "\<lambda>_. True"
      Background] sample_save_hyps(3,6) s show ?thesis
    by (auto simp: created_list_def fresh_pool_def split: option.splits)
qed

theorem pg_AggregateRepository_Save_then_Get_witness:
  "\<exists>root' p' p''. AggregateRepository_Save (pg_repo no_faults (\<lambda>_. True) (TodoList_Type unary) sample_root_serde sample_serde)
      sample_env Background created_list fresh_pool = (None, root', p') \<and>
     AggregateRepository_Get (pg_repo no_faults (\<lambda>_. True) (TodoList_Type unary) sample_root_serde sample_serde)
       Background (AggregateID (TodoList_Type unary) root') p' = Some (Inr root', p'')"
proof -
  obtain tx' where "AggregateRepository_save_action (pg_repo no_faults (\<lambda>_. True) (TodoList_Type unary) sample_root_serde sample_serde)
      sample_env Background (opened fresh_pool) created_list = (None, tx', flushed created_list)" "\<not> tx_done tx'" "\<not> tx_aborted tx'"
    using save_action_succeeds [of "opened fresh_pool" created_list sample_env sample_serde "TodoList_Type unary"
        sample_root_serde "[2]" "\<lambda>_. True" Background] sample_save_hyps by auto
  from RunTransaction_commits [where landed = "\<lambda>_. True" and options = serializable_rw and p = fresh_pool and s = created_list
      and action = "AggregateRepository_save_action (pg_repo no_faults (\<lambda>_. True) (TodoList_Type unary) sample_root_serde sample_serde) sample_env",
      OF this]
  obtain p' where s: "AggregateRepository_Save (pg_repo no_faults (\<lambda>_. True) (TodoList_Type unary) sample_root_serde sample_serde)
      sample_env Background created_list fresh_pool = (None, flushed created_list, p')"
    by (auto simp: AggregateRepository_Save_def)
  have "proper_faults no_faults" by (simp add: proper_faults_def)
  from pg_AggregateRepository_Save_then_Get [OF this s] s show ?thesis
    by (auto simp: sample_root_serde_def created_list_def go_defs fresh_pool_def no_tables_def)
qed

end
