(* ===== verification/Postgres_Sourced.thy ===== *)
theory Postgres_Sourced
  imports Postgres_Samples
begin

text \<open>
  Event-sourced repositories over the PostgreSQL event store. The store keeps the contract \<open>event_reader\<close> on the logs of its tables, but not
  \<open>event_store\<close>: it adds to the metadata of what it stores and only stores what its serde knows. Event sourcing depends on
  the messages only.
\<close>

definition pg_Store :: "faults \<Rightarrow> (nat \<Rightarrow> bool) \<Rightarrow> ('m, bytes) Fused \<Rightarrow> 'm pg_env \<Rightarrow> ('m, pool) Store" where
  "pg_Store faults landed serde env = (let es = NewEventStore (engine faults landed) serde in
     \<lparr>Append = pg_EventStore_Append es env, Stream = pg_EventStore_Stream es env\<rparr>)"

abbreviation pg_es_repo :: "(nat \<Rightarrow> bool) \<Rightarrow> ('m, bytes) Fused \<Rightarrow> 'm pg_env \<Rightarrow> ('id, 'm, 'z) Type \<Rightarrow> ('id, 'm, 'z, pool) EventSourcedRepository" where
  "pg_es_repo landed serde env t \<equiv> NewEventSourcedRepository (pg_Store no_faults landed serde env) t"

lemma pg_Store_simps [simp]:
  "Append (pg_Store faults landed serde env) = pg_EventStore_Append (NewEventStore (engine faults landed) serde) env"
  "Stream (pg_Store faults landed serde env) = pg_EventStore_Stream (NewEventStore (engine faults landed) serde) env"
  by (simp_all add: pg_Store_def Let_def)

interpretation pg_reader: event_reader "pg_EventStore_Stream (NewEventStore (engine no_faults landed) serde) env"
  "\<lambda>p. pg_log serde env (tables_now p)" "\<lambda>p. pg_ok serde env (tables_now p)"
  for landed :: "nat \<Rightarrow> bool" and serde :: "('m, bytes) Fused" and env :: "'m pg_env"
proof unfold_locales
  fix ctx sid selector
  show "\<not> iterated (pg_EventStore_Stream (NewEventStore (engine no_faults landed) serde) env ctx sid selector)"
    by (simp add: pg_EventStore_Stream_def)
next
  fix p :: pool and sid selector
  assume "pg_ok serde env (tables_now p)"
  from pg_EventStore_Stream_feed [OF this, of landed Background sid selector] this
  show "\<exists>p'. produce (pg_EventStore_Stream (NewEventStore (engine no_faults landed) serde) env Background sid selector) p =
      feed (filter (selects selector) (persisted_from sid 0 (pg_log serde env (tables_now p) sid))) None p' \<and>
      pg_log serde env (tables_now p') = pg_log serde env (tables_now p) \<and> pg_ok serde env (tables_now p')"
    by auto
qed

lemma pg_sourced_reader:
  "aggregate_type t \<Longrightarrow> event_sourced_reader (pg_EventStore_Stream (NewEventStore (engine no_faults landed) serde) env)
     (\<lambda>p. pg_log serde env (tables_now p)) (\<lambda>p. pg_ok serde env (tables_now p)) t"
  by (rule event_sourced_reader.intro [OF pg_reader.event_reader_axioms])

lemma as_recorded_messages: "map Message (as_recorded env new i evts) = map Message evts"
  by (induction evts arbitrary: i) auto

text \<open>
  A client has \<open>loaded\<close> a root when \<open>Get\<close> returned it, or when its stream does not exist yet and it
  starts from a new one. It is then the fold of the log.
\<close>

definition loaded :: "(nat \<Rightarrow> bool) \<Rightarrow> ('m, bytes) Fused \<Rightarrow> 'm pg_env \<Rightarrow> ('id, 'm, 'z) Type \<Rightarrow> 'id \<Rightarrow> ('m, 'z) BaseRoot_scheme \<Rightarrow> pool \<Rightarrow> bool" where
  "loaded landed serde env t i root p \<longleftrightarrow>
     (\<exists>p'. EventSourcedRepository_Get (pg_es_repo landed serde env t) Background i p = Some (Inr root, p')) \<or>
     pg_log serde env (tables_now p) (String t i) = [] \<and> root = Factory t ()"

lemma loaded_folds:
  assumes t: "aggregate_type t" and ok: "pg_ok serde env (tables_now p)" and l: "loaded landed serde env t i root p"
  obtains q where "replay (Apply t) (map Message (pg_log serde env (tables_now p) (String t i))) (Factory t ()) = (q, None)"
    and "root = at_base (version_of (pg_log serde env (tables_now p) (String t i))) [] q"
proof (cases "pg_log serde env (tables_now p) (String t i) = [] \<and> root = Factory t ()")
  case True
  moreover have "at_base 0 [] (Factory t ()) = Factory t ()"
    using aggregate_type.fresh_factory [OF t] by (metis at_base_refl)
  ultimately show thesis using that [of "Factory t ()"] by simp
next
  case False
  with l obtain p' where "EventSourcedRepository_Get (pg_es_repo landed serde env t) Background i p = Some (Inr root, p')"
    by (auto simp: loaded_def)
  then show thesis
    by (rule event_sourced_reader.get_foldsD [OF pg_sourced_reader [OF t, of landed serde env] pg_Store_simps(2) ok])
      (rule that)
qed

text \<open>What the store must know of events to keep them in the stream \<open>sid\<close>, and room for them.\<close>

definition storable :: "('m, bytes) Fused \<Rightarrow> 'm pg_env \<Rightarrow> tables \<Rightarrow> StreamID \<Rightarrow> 'm Envelope list \<Rightarrow> bool" where
  "storable serde env tb sid evts \<longleftrightarrow> length (pg_log serde env tb sid) + length evts < 2 ^ 32 \<and>
     (\<forall>evt \<in> set evts. serializable_event env (Serialize serde) evt) \<and>
     (\<forall>evt \<in> set (as_recorded env (version_of (pg_log serde env tb sid @ evts)) 0 evts). reads_back serde env evt)"

lemma pg_save_succeeds:
  assumes t: "aggregate_type t" and ok: "pg_ok serde env (tables_now p)" and l: "loaded landed serde env t i root p"
    and rec: "RecordThat t evts root = (root', None)" and ne: "evts \<noteq> []" and i: "AggregateID t root' = i"
    and st: "storable serde env (tables_now p) (String t i) evts"
  obtains p' where "EventSourcedRepository_Save (pg_es_repo landed serde env t) Background root' p = (None, flushed root', p')"
    and "pg_log serde env (tables_now p') (String t i) =
      pg_log serde env (tables_now p) (String t i) @ as_recorded env (version root') 0 evts"
    and "pg_ok serde env (tables_now p')"
    and "version root' = version root + version_of evts" "recordedEvents root' = evts"
    and "version root' = version_of (pg_log serde env (tables_now p') (String t i))"
    and "\<forall>sid. sid \<noteq> String t i \<longrightarrow> pg_log serde env (tables_now p') sid = pg_log serde env (tables_now p) sid"
proof -
  let ?log = "pg_log serde env (tables_now p) (String t i)"
  from loaded_folds [OF t ok l] obtain q where
    q: "replay (Apply t) (map Message ?log) (Factory t ()) = (q, None)" "root = at_base (version_of ?log) [] q" .
  from aggregate_type.record_on_fold [OF t q rec] obtain r where r: "root' = at_base (version_of (?log @ evts)) evts r" .
  have bound: "length ?log + length evts < 2 ^ 32" and ser: "\<forall>evt \<in> set evts. serializable_event env (Serialize serde) evt"
    and rb: "\<forall>evt \<in> set (as_recorded env (version_of (?log @ evts)) 0 evts). reads_back serde env evt"
    using st by (simp_all add: storable_def)
  note out = pg_EventStore_Append_outcome [OF ok ne bound ser rb, where landed = landed and ctx = Background and expected = "CheckExact (version_of ?log)"]
  obtain v e p' where a: "pg_EventStore_Append (NewEventStore (engine no_faults landed) serde) env Background (String t i)
      (CheckExact (version_of ?log)) evts p = ((v, e), p')" by (metis prod.collapse)
  have "e = None" using out a by (cases e) auto
  with out a have v: "v = version_of (?log @ evts)"
    and log': "pg_log serde env (tables_now p') = (pg_log serde env (tables_now p))(String t i := ?log @ as_recorded env v 0 evts)"
    and ok': "pg_ok serde env (tables_now p')" by auto
  have id: "AggregateID t (flushed root') = i" using aggregate_type.id_oblivious [OF t] i by metis
  have "EventSourcedRepository_Save (pg_es_repo landed serde env t) Background root' p = (None, flushed root', p')"
    using a \<open>e = None\<close> id ne
    by (simp add: EventSourcedRepository_Save_def FlushRecordedEvents_eq r NewEventSourcedRepository_def Let_def)
  moreover have "version root' = version_of (pg_log serde env (tables_now p') (String t i))"
    using arg_cong [OF as_recorded_messages, of length env v 0 evts] by (simp add: r log' v)
  ultimately show thesis using that [OF _ _ ok'] by (simp add: log' r v q(2))
qed

lemma pg_save_conflicts:
  assumes ok: "pg_ok serde env (tables_now p)" and ne: "recordedEvents root \<noteq> []" and t: "aggregate_type t"
    and v: "version root - version_of (recordedEvents root) \<noteq> version_of (pg_log serde env (tables_now p) (String t (AggregateID t root)))"
  obtains e p' where "EventSourcedRepository_Save (pg_es_repo landed serde env t) Background root p = (Some e, flushed root, p')"
    and "caused_by e (Conflict \<lparr>Expected = version root - version_of (recordedEvents root),
      Actual = version_of (pg_log serde env (tables_now p) (String t (AggregateID t root)))\<rparr>)"
    and "tables_now p' = tables_now p"
proof -
  let ?v = "version root - version_of (recordedEvents root)" and ?sid = "String t (AggregateID t root)"
  have "tables_ok (tables_now p)" "?v \<noteq> word_of_nat (length (rows_of (tables_now p) ?sid))" using ok v by (simp_all add: pg_ok_def)
  from pg_EventStore_Append_conflict [OF this, of landed serde env Background "recordedEvents root"] obtain e p' where
    "pg_EventStore_Append (NewEventStore (engine no_faults landed) serde) env Background ?sid (CheckExact ?v) (recordedEvents root) p =
       ((0, Some e), p')"
    "caused_by e (Conflict \<lparr>Expected = ?v, Actual = word_of_nat (length (rows_of (tables_now p) ?sid))\<rparr>)"
    "tables_now p' = tables_now p" by blast
  with ne that aggregate_type.id_oblivious [OF t] show thesis
    by (simp add: EventSourcedRepository_Save_def FlushRecordedEvents_eq NewEventSourcedRepository_def Let_def)
qed

text \<open>C35: Event sourcing on PostgreSQL, while the database does not fail: a client that loads a root or starts a new one,
  records events the store's serde knows and saves it succeeds; the next client to load the identifier gets the saved
  root; and one that had loaded the same root before and saves events of its own gets an error caused by a \<open>ConflictError\<close> with the version
  both had loaded and the one committed, and changes no table.\<close>

theorem pg_event_sourcing:
  assumes "aggregate_type t" and "pg_ok serde env (tables_now p)" and "loaded landed serde env t i root p"
    and "RecordThat t evts1 root = (root1, None)" "evts1 \<noteq> []" "AggregateID t root1 = i"
    and "storable serde env (tables_now p) (String t i) evts1"
    and "RecordThat t evts2 root = (root2, None)" "evts2 \<noteq> []" "AggregateID t root2 = i"
  shows "\<exists>p1 p2 e p3. EventSourcedRepository_Save (pg_es_repo landed serde env t) Background root1 p = (None, flushed root1, p1) \<and>
    EventSourcedRepository_Get (pg_es_repo landed serde env t) Background i p1 = Some (Inr (flushed root1), p2) \<and>
    EventSourcedRepository_Save (pg_es_repo landed serde env t) Background root2 p1 = (Some e, flushed root2, p3) \<and>
    caused_by e (Conflict \<lparr>Expected = version root, Actual = version root1\<rparr>) \<and> tables_now p3 = tables_now p1"
proof -
  let ?log = "\<lambda>p. pg_log serde env (tables_now p) (String t i)"
  from pg_save_succeeds [OF assms(1-7)] obtain p1 where
    save1: "EventSourcedRepository_Save (pg_es_repo landed serde env t) Background root1 p = (None, flushed root1, p1)"
    and log1: "?log p1 = ?log p @ as_recorded env (version root1) 0 evts1" and ok1: "pg_ok serde env (tables_now p1)"
    and v1: "version root1 = version root + version_of evts1" "version root1 = version_of (?log p1)" by metis
  from loaded_folds [OF assms(1-3)] obtain q where
    q: "replay (Apply t) (map Message (?log p)) (Factory t ()) = (q, None)" "root = at_base (version_of (?log p)) [] q" .
  have short: "length (?log p) + length evts1 < 2 ^ 32" using assms(7) by (simp add: storable_def)
  have len1: "length (?log p1) = length (?log p) + length evts1"
    unfolding log1 length_append using arg_cong [OF as_recorded_messages, of length env "version root1" 0 evts1] by simp
  from aggregate_type.record_on_fold [OF assms(1) q assms(4)] obtain r1 where
    r1: "replay (Apply t) (map Message (?log p @ evts1)) (Factory t ()) = (r1, None)" "root1 = at_base (version_of (?log p @ evts1)) evts1 r1" .
  have "replay (Apply t) (map Message (?log p1)) (Factory t ()) = (r1, None)" using r1(1) by (simp add: log1 as_recorded_messages)
  from event_sourced_reader.get_folds [OF pg_sourced_reader [OF assms(1), of landed serde env] pg_Store_simps(2) ok1 refl this]
  obtain p2 where get: "EventSourcedRepository_Get (pg_es_repo landed serde env t) Background i p1 =
      Some (if version_of (?log p1) = 0 then Inl ErrRootNotFound else Inr (at_base (version_of (?log p1)) [] r1), p2)" by blast
  have nz: "version_of (?log p1) \<noteq> (0 :: Version)" using short len1 assms(5) by (subst len32_eq_0_iff) auto
  have fl: "flushed root1 = at_base (version_of (?log p1)) [] r1" unfolding len1 by (simp add: r1(2))
  from aggregate_type.record_on_fold [OF assms(1) q assms(8)] obtain r2 where r2: "root2 = at_base (version_of (?log p @ evts2)) evts2 r2" .
  then have base: "version root2 - version_of (recordedEvents root2) = version root" "recordedEvents root2 = evts2" by (simp_all add: q(2))
  have "(version_of evts1 :: Version) \<noteq> 0" using assms(5) short by (subst len32_eq_0_iff) auto
  then have "version root2 - version_of (recordedEvents root2) \<noteq> version_of (pg_log serde env (tables_now p1) (String t (AggregateID t root2)))"
    unfolding base(1) assms(10) v1(2) [symmetric] v1(1) by simp
  with pg_save_conflicts [OF ok1 _ assms(1) this, of landed] assms(9) base(2) obtain e p3 where
    "EventSourcedRepository_Save (pg_es_repo landed serde env t) Background root2 p1 = (Some e, flushed root2, p3)"
    "caused_by e (Conflict \<lparr>Expected = version root, Actual = version root1\<rparr>)" "tables_now p3 = tables_now p1"
    unfolding base(1) assms(10) v1(2) [symmetric] by blast
  with save1 get nz fl show ?thesis by auto
qed

lemma groceries_recorded_fresh: "RecordThat (TodoList_Type unary) [groceries] zero_TodoList = (created_list, None)"
  by (simp add: created_list_def groceries_list_def groceries_def go_defs recordThat.simps(2) base_update_at_base)
    (simp add: zero_TodoList_def)

theorem pg_event_sourcing_witness:
  "\<exists>p1 p2 e p3. EventSourcedRepository_Save (pg_es_repo (\<lambda>_. True) sample_serde sample_env (TodoList_Type unary)) Background
        created_list fresh_pool = (None, flushed created_list, p1) \<and>
    EventSourcedRepository_Get (pg_es_repo (\<lambda>_. True) sample_serde sample_env (TodoList_Type unary)) Background 1 p1 =
        Some (Inr (flushed created_list), p2) \<and>
    EventSourcedRepository_Save (pg_es_repo (\<lambda>_. True) sample_serde sample_env (TodoList_Type unary)) Background created_list p1 =
        (Some e, flushed created_list, p3) \<and>
    caused_by e (Conflict \<lparr>Expected = 0, Actual = 1\<rparr>) \<and> tables_now p3 = tables_now p1"
proof -
  have empty: "pg_log sample_serde sample_env (tables_now fresh_pool) sid = []" for sid
    by (simp add: pg_log_def rows_of_def fresh_pool_def no_tables_def)
  then have "loaded (\<lambda>_. True) sample_serde sample_env (TodoList_Type unary) 1 zero_TodoList fresh_pool"
    by (simp add: loaded_def)
  moreover have "storable sample_serde sample_env (tables_now fresh_pool) (String (TodoList_Type unary) 1) [groceries]"
    unfolding storable_def empty
    by (simp add: serializable_event_def reads_back_def sample_serde_def sample_env_def enrichedMetadata_def with_value_def
        groceries_def ToEnvelope_def sample_metadata_def)
  moreover have "AggregateID (TodoList_Type unary) created_list = 1" "version created_list = 1" "version zero_TodoList = 0"
    by (simp_all add: created_list_def groceries_list_def)
  ultimately show ?thesis
    using pg_event_sourcing [OF todo_type.aggregate_type_axioms sample_pg_ok _ groceries_recorded_fresh _ _ _ groceries_recorded_fresh] by auto
qed

end
