(* ===== verification/User_Suites.thy ===== *)
theory User_Suites
  imports User_By_Email
begin

text \<open>
  The executable suites \<open>internal/user/suite_aggregate_repository.go\<close> and \<open>suite_event_store.go\<close>, as
  programs over the repository or event store they are given: the identifiers stand for the calls of
  \<open>uuid.New\<close>, \<open>now\<close> for \<open>time.Now\<close>, \<open>stamp\<close> for its rendering. The result is whether every check
  passed; a failed \<open>require\<close> ends its subtest, and \<open>None\<close> is a panic.
\<close>

text \<open>\<open>time.Date(1970, 1, 1, 0, 0, 0, 0, time.UTC)\<close>\<close>

definition epoch :: Time where
  "epoch = \<lparr>abs_sec = 62135596800, nsec = 0, zone_offset = 0\<rparr>"

lemma not_zero_epoch [simp]: "\<not> IsZero epoch"
  by (simp add: IsZero_def epoch_def)

type_synonym 'st User_Repository = "(UUID, User, 'st) Repository"

definition load_and_save_test :: "'st User_Repository \<Rightarrow> UUID \<Rightarrow> Time \<Rightarrow> 'st \<Rightarrow> (bool \<times> 'st) option" where
  "load_and_save_test repository i now st =
     (case Get repository Background i st of
        None \<Rightarrow> None
      | Some (Inr _, st) \<Rightarrow> Some (False, st)
      | Some (Inl e, st) \<Rightarrow>
          if \<not> errors_Is e ErrRootNotFound then Some (False, st)
          else
            (case User_Create i ''John'' ''Doe'' ''john@doe.com'' epoch now of
               Inl e \<Rightarrow> Some (False, st)
             | Inr usr \<Rightarrow>
                 (case Save repository Background usr st of
                    (Some e, usr, st) \<Rightarrow> Some (False, st)
                  | (None, usr, st) \<Rightarrow>
                      (case Get repository Background i st of
                         None \<Rightarrow> None
                       | Some (Inl e, st) \<Rightarrow> Some (False, st)
                       | Some (Inr got, st) \<Rightarrow> Some (usr = got, st)))))"

definition optimistic_locking_test ::
  "'st User_Repository \<Rightarrow> UUID \<Rightarrow> Time \<Rightarrow> string \<Rightarrow> 'st \<Rightarrow> (bool \<times> 'st) option" where
  "optimistic_locking_test repository i now stamp st =
     (case User_Create i ''John'' ''Doe'' ''john@doe.com'' epoch now of
        Inl e \<Rightarrow> Some (False, st)
      | Inr user \<Rightarrow>
          (case UpdateEmail ''johndoe@gmail.com'' now (Some [''Testing-Metadata-Time'' \<mapsto> stamp]) user of
             (user, Some e) \<Rightarrow> Some (False, st)
           | (user, None) \<Rightarrow>
               (case Save repository Background user st of
                  (Some e, user, st) \<Rightarrow> Some (False, st)
                | (None, user, st) \<Rightarrow>
                    (case User_Create i ''John'' ''Doe'' ''john@doe.com'' epoch now of
                       Inl e \<Rightarrow> Some (False, st)
                     | Inr outdatedUsr \<Rightarrow>
                         (case Save repository Background outdatedUsr st of
                            (None, outdatedUsr, st) \<Rightarrow> Some (False, st)
                          | (Some e, outdatedUsr, st) \<Rightarrow>
                              (case errors_As e of
                                 None \<Rightarrow> Some (False, st)
                               | Some conflictErr \<Rightarrow>
                                   Some (conflictErr = \<lparr>Expected = 0, Actual = 2\<rparr>, st)))))))"

definition AggregateRepositorySuite ::
  "'st User_Repository \<Rightarrow> UUID \<Rightarrow> UUID \<Rightarrow> Time \<Rightarrow> string \<Rightarrow> 'st \<Rightarrow> (bool \<times> 'st) option" where
  "AggregateRepositorySuite repository i1 i2 now stamp st =
     (case load_and_save_test repository i1 now st of
        None \<Rightarrow> None
      | Some (ok1, st) \<Rightarrow>
          (case optimistic_locking_test repository i2 now stamp st of
             None \<Rightarrow> None
           | Some (ok2, st) \<Rightarrow> Some (ok1 \<and> ok2, st)))"

definition append_any_test ::
  "(user_msg, 'st) Store \<Rightarrow> (UUID \<Rightarrow> string) \<Rightarrow> UUID \<Rightarrow> Time \<Rightarrow> 'st \<Rightarrow> bool \<times> 'st" where
  "append_any_test store uuid_String i now st =
     (case User_Create i ''Dani'' ''Ross'' ''dani@ross.com'' now now of
        Inl e \<Rightarrow> (False, st)
      | Inr usr \<Rightarrow>
          (case UpdateEmail ''dani.ross@mail.com'' now None usr of
             (usr, Some e) \<Rightarrow> (False, st)
           | (usr, None) \<Rightarrow>
               (let (eventsToCommit, usr) = FlushRecordedEvents usr;
                    expectedVersion = (word_of_nat (length eventsToCommit) :: Version)
                in case Append store Background (uuid_String i) Any eventsToCommit st of
                     ((newVersion, Some e), st) \<Rightarrow> (False, st)
                   | ((newVersion, None), st) \<Rightarrow>
                       if newVersion \<noteq> expectedVersion then (False, st)
                       else
                         (case UpdateEmail ''daniross123@gmail.com'' now None usr of
                            (usr, Some e) \<Rightarrow> (False, st)
                          | (usr, None) \<Rightarrow>
                              (let (newEventsToCommit, usr) = FlushRecordedEvents usr;
                                   expectedVersion = expectedVersion + word_of_nat (length newEventsToCommit)
                               in case Append store Background (uuid_String i) Any newEventsToCommit st of
                                    ((newVersion, Some e), st) \<Rightarrow> (False, st)
                                  | ((newVersion, None), st) \<Rightarrow> (newVersion = expectedVersion, st))))))"

definition EventStoreSuite ::
  "(user_msg, 'st) Store \<Rightarrow> (UUID \<Rightarrow> string) \<Rightarrow> UUID \<Rightarrow> UUID \<Rightarrow> UUID \<Rightarrow> Time \<Rightarrow> Time \<Rightarrow> string \<Rightarrow> 'st \<Rightarrow>
   (bool \<times> 'st) option" where
  "EventStoreSuite store uuid_String i1 i2 i3 now repository_now stamp st =
     (case AggregateRepositorySuite
             (EventSourcedRepository_Repository (NewEventSourcedRepository store (User_Type uuid_String)))
             i1 i2 repository_now stamp st of
        None \<Rightarrow> None
      | Some (ok, st) \<Rightarrow>
          (let (ok3, st) = append_any_test store uuid_String i3 now st in Some (ok \<and> ok3, st)))"

section \<open>What the suites need\<close>

text \<open>The users the suite for repositories saves.\<close>

definition john :: "UUID \<Rightarrow> Time \<Rightarrow> User" where
  "john i now = new_user i ''John'' ''Doe'' ''john@doe.com'' epoch now"

definition renamed_john :: "UUID \<Rightarrow> Time \<Rightarrow> string \<Rightarrow> User" where
  "renamed_john i now stamp = with_email ''johndoe@gmail.com'' now (Some [''Testing-Metadata-Time'' \<mapsto> stamp]) (john i now)"

lemma john_simps [simp]:
  "user_id (john i now) = i" "version (john i now) = 1"
  "recordedEvents (john i now) = [created i ''John'' ''Doe'' epoch now ''john@doe.com'']"
  "user_id (renamed_john i now stamp) = i" "version (renamed_john i now stamp) = 2"
  "recordedEvents (renamed_john i now stamp) = [created i ''John'' ''Doe'' epoch now ''john@doe.com'',
     (updated i now ''johndoe@gmail.com'')\<lparr>Metadata := Some [''Testing-Metadata-Time'' \<mapsto> stamp]\<rparr>]"
  by (simp_all add: john_def renamed_john_def)

lemma john_recorded:
  "recordThat User_Apply (recordedEvents (john i now)) zero_User = (john i now, None)"
  "recordThat User_Apply (recordedEvents (renamed_john i now stamp)) zero_User = (renamed_john i now stamp, None)"
proof -
  show john: "recordThat User_Apply (recordedEvents (john i now)) zero_User = (john i now, None)"
    unfolding john_def user_simps(3) by (rule user_recorded(1))
  have "recordThat User_Apply (recordedEvents (john i now) @
      [(updated (user_id (john i now)) now ''johndoe@gmail.com'')\<lparr>Metadata := Some [''Testing-Metadata-Time'' \<mapsto> stamp]\<rparr>]) zero_User =
      (renamed_john i now stamp, None)"
    unfolding recordThat_append john renamed_john_def by (simp only: prod.case option.case user_recorded(2))
  then show "recordThat User_Apply (recordedEvents (renamed_john i now stamp)) zero_User = (renamed_john i now stamp, None)"
    by simp
qed

text \<open>
  A repository on which the suite can run: it behaves on the users it \<open>keeps\<close>, which may be less than
  \<open>repository_contract\<close> asks for.
\<close>

locale user_suite =
  fixes get :: "(UUID, User, 'st) Getter" and save :: "(User, 'st) Saver" and us :: "UUID \<Rightarrow> string"
    and stored :: "'st \<Rightarrow> UUID \<Rightarrow> User option" and invar :: "'st \<Rightarrow> bool" and keeps :: "User \<Rightarrow> bool"
  assumes missing:
      "invar st \<Longrightarrow> stored st i = None \<Longrightarrow>
       \<exists>e st'. get Background i st = Some (Inl e, st') \<and> caused_by e ErrRootNotFound \<and> stored st' = stored st \<and> invar st'"
    and found:
      "invar st \<Longrightarrow> stored st i = Some r \<Longrightarrow> \<exists>st'. get Background i st = Some (Inr r, st') \<and> stored st' = stored st \<and> invar st'"
    and save_new:
      "invar st \<Longrightarrow> stored st (user_id user) = None \<Longrightarrow> keeps user \<Longrightarrow> recordedEvents user \<noteq> [] \<Longrightarrow>
       length (recordedEvents user) < 2 ^ 32 \<Longrightarrow> recordThat User_Apply (recordedEvents user) zero_User = (user, None) \<Longrightarrow>
       \<exists>st'. save Background user st = (None, flushed user, st') \<and> stored st' (user_id user) = Some (flushed user) \<and> invar st' \<and>
         (\<forall>j. us j \<noteq> us (user_id user) \<longrightarrow> stored st' j = stored st j)"
    and save_stale:
      "invar st \<Longrightarrow> stored st (user_id user) = Some r \<Longrightarrow> recordedEvents user \<noteq> [] \<Longrightarrow>
       version user - version_of (recordedEvents user) \<noteq> version r \<Longrightarrow>
       \<exists>e st'. save Background user st = (Some e, flushed user, st') \<and>
         caused_by e (Conflict \<lparr>Expected = version user - version_of (recordedEvents user), Actual = version r\<rparr>) \<and>
         stored st' = stored st \<and> invar st'"
begin

lemma load_and_save_passes:
  assumes inv: "invar st" and new: "stored st i = None" and keeps: "keeps (john i now)"
  obtains st' where "load_and_save_test \<lparr>Get = get, Save = save\<rparr> i now st = Some (True, st')" and "invar st'"
    and "\<forall>j. us j \<noteq> us i \<longrightarrow> stored st' j = stored st j"
proof -
  from missing [OF inv new] obtain e st1 where g: "get Background i st = Some (Inl e, st1)"
    "caused_by e ErrRootNotFound" "stored st1 = stored st" "invar st1" by blast
  from save_new [OF g(4) _ keeps _ _ john_recorded(1)] new g(3) obtain st2 where
    s: "save Background (john i now) st1 = (None, flushed (john i now), st2)" "invar st2" "stored st2 i = Some (flushed (john i now))"
      "\<forall>j. us j \<noteq> us i \<longrightarrow> stored st2 j = stored st j" by auto
  from found [OF s(2,3)] obtain st3 where "get Background i st2 = Some (Inr (flushed (john i now)), st3)"
    "stored st3 = stored st2" "invar st3" by blast
  with g s that show thesis
    by (simp add: load_and_save_test_def caused_by_Is User_Create_ok flip: john_def)
qed

lemma optimistic_locking_passes:
  assumes inv: "invar st" and new: "stored st i = None" and keeps: "keeps (renamed_john i now stamp)"
  obtains st' where "optimistic_locking_test \<lparr>Get = get, Save = save\<rparr> i now stamp st = Some (True, st')" and "invar st'"
    and "\<forall>j. us j \<noteq> us i \<longrightarrow> stored st' j = stored st j"
proof -
  from save_new [OF inv _ keeps _ _ john_recorded(2)] new obtain st1 where
    s1: "save Background (renamed_john i now stamp) st = (None, flushed (renamed_john i now stamp), st1)" "invar st1"
      "stored st1 i = Some (flushed (renamed_john i now stamp))" "\<forall>j. us j \<noteq> us i \<longrightarrow> stored st1 j = stored st j" by auto
  from save_stale [OF s1(2), of "john i now"] s1(3) obtain e st2 where
    "save Background (john i now) st1 = (Some e, flushed (john i now), st2)" "caused_by e (Conflict \<lparr>Expected = 0, Actual = 2\<rparr>)"
    "stored st2 = stored st1" "invar st2" by auto
  with s1 that show thesis
    by (simp add: optimistic_locking_test_def User_Create_ok UpdateEmail_eq caused_by_As flip: john_def renamed_john_def)
qed

lemma suite_passes:
  assumes "invar st" and "stored st ia = None" and "stored st ib = None" and "us ia \<noteq> us ib"
    and "keeps (john ia now)" and "keeps (renamed_john ib now stamp)"
  obtains st' where "AggregateRepositorySuite \<lparr>Get = get, Save = save\<rparr> ia ib now stamp st = Some (True, st')"
    and "invar st'" and "\<forall>j. us j \<noteq> us ia \<and> us j \<noteq> us ib \<longrightarrow> stored st' j = stored st j"
proof -
  from load_and_save_passes [OF assms(1,2,5)] obtain st1 where
    s1: "load_and_save_test \<lparr>Get = get, Save = save\<rparr> ia now st = Some (True, st1)" "invar st1"
      "\<forall>j. us j \<noteq> us ia \<longrightarrow> stored st1 j = stored st j" by blast
  then have "stored st1 ib = None" using assms(3,4) by simp
  from optimistic_locking_passes [OF s1(2) this assms(6)] obtain st2 where
    "optimistic_locking_test \<lparr>Get = get, Save = save\<rparr> ib now stamp st1 = Some (True, st2)" "invar st2"
    "\<forall>j. us j \<noteq> us ib \<longrightarrow> stored st2 j = stored st1 j" by blast
  with s1 that show thesis by (simp add: AggregateRepositorySuite_def)
qed

end

text \<open>The events the suite for event stores appends, and a store that takes them under any version.\<close>

definition dani :: "UUID \<Rightarrow> Time \<Rightarrow> user_msg Envelope list" where
  "dani i now = [created i ''Dani'' ''Ross'' now now ''dani@ross.com'', updated i now ''dani.ross@mail.com'']"

definition dani_later :: "UUID \<Rightarrow> Time \<Rightarrow> user_msg Envelope list" where
  "dani_later i now = [updated i now ''daniross123@gmail.com'']"

locale user_appender =
  fixes append :: "(user_msg, 'st) Appender" and count :: "'st \<Rightarrow> StreamID \<Rightarrow> nat" and invar :: "'st \<Rightarrow> bool"
    and keeps :: "user_msg Envelope \<Rightarrow> bool"
  assumes append_any:
    "invar st \<Longrightarrow> evts \<noteq> [] \<Longrightarrow> count st sid + length evts < 2 ^ 32 \<Longrightarrow> \<forall>evt \<in> set evts. keeps evt \<Longrightarrow>
     \<exists>st'. append Background sid CheckAny evts st = ((word_of_nat (count st sid + length evts), None), st') \<and>
       count st' sid = count st sid + length evts \<and> invar st'"
begin

lemma append_any_passes:
  assumes inv: "invar st" and new: "count st (us i) = 0" and now: "\<not> IsZero now"
    and keeps: "\<forall>evt \<in> set (dani i now @ dani_later i now). keeps evt"
  obtains st' where "append_any_test \<lparr>Append = append, Stream = stream\<rparr> us i now st = (True, st')" and "invar st'"
proof -
  let ?new = "new_user i ''Dani'' ''Ross'' ''dani@ross.com'' now now"
  have evts: "recordedEvents (with_email ''dani.ross@mail.com'' now None ?new) = dani i now"
    "recordedEvents (with_email ''daniross123@gmail.com'' now None (flushed (with_email ''dani.ross@mail.com'' now None ?new))) = dani_later i now"
    by (simp_all add: dani_def dani_later_def updated_def go_defs)
  have len: "length (dani i now) = 2" "length (dani_later i now) = 1" "dani i now \<noteq> []" "dani_later i now \<noteq> []"
    by (simp_all add: dani_def dani_later_def)
  from append_any [OF inv len(3), of "us i"] new keeps len obtain st1 where
    st1: "append Background (us i) CheckAny (dani i now) st = ((2, None), st1)" "count st1 (us i) = 2" "invar st1" by auto
  from append_any [OF st1(3) len(4), of "us i"] st1(2) keeps len obtain st2 where
    "append Background (us i) CheckAny (dani_later i now) st1 = ((3, None), st2)" "invar st2" by auto
  with st1 now that show thesis
    by (simp add: append_any_test_def User_Create_ok UpdateEmail_eq FlushRecordedEvents_eq Any_def Let_def evts len
        del: user_simps)
qed

end

section \<open>The suites pass\<close>

locale user_repository =
  repository_contract get save "User_Type us" stored invar
  for get :: "(UUID, User, 'st) Getter" and save :: "(User, 'st) Saver" and us :: "UUID \<Rightarrow> string"
    and stored :: "'st \<Rightarrow> UUID \<Rightarrow> User option" and invar :: "'st \<Rightarrow> bool"

sublocale user_repository \<subseteq> user_suite get save us stored invar "\<lambda>_. True"
proof unfold_locales
  fix st and user :: User
  assume "invar st" "stored st (user_id user) = None" "recordedEvents user \<noteq> []" "length (recordedEvents user) < 2 ^ 32"
    "recordThat User_Apply (recordedEvents user) zero_User = (user, None)"
  then show "\<exists>st'. save Background user st = (None, flushed user, st') \<and> stored st' (user_id user) = Some (flushed user) \<and> invar st' \<and>
      (\<forall>j. us j \<noteq> us (user_id user) \<longrightarrow> stored st' j = stored st j)"
    using save_ok [of st "recordedEvents user" "user_id user" user] by (auto simp: base_root_def)
next
  fix st and user r :: User
  assume "invar st" "stored st (user_id user) = Some r" "recordedEvents user \<noteq> []"
    "version user - version_of (recordedEvents user) \<noteq> version r"
  then show "\<exists>e st'. save Background user st = (Some e, flushed user, st') \<and>
      caused_by e (Conflict \<lparr>Expected = version user - version_of (recordedEvents user), Actual = version r\<rparr>) \<and>
      stored st' = stored st \<and> invar st'"
    using save_conflict [of st user] by (simp add: base_root_def)
qed (rule get_missing, assumption, assumption, rule get_found)

context user_repository
begin

lemma is_suite: "user_suite get save us stored invar (\<lambda>_. True)"
  by unfold_locales

end

locale user_event_store =
  event_store append stream log invar
  for append :: "(user_msg, 'st) Appender" and stream :: "(user_msg, 'st) Streamer"
    and log :: "'st \<Rightarrow> StreamID \<Rightarrow> user_msg Envelope list" and invar :: "'st \<Rightarrow> bool"

sublocale user_event_store \<subseteq> user_appender append "\<lambda>st sid. length (log st sid)" invar "\<lambda>_. True"
proof unfold_locales
  fix st sid and evts :: "user_msg Envelope list"
  assume "invar st"
  from append_ok [OF this, of CheckAny sid Background evts]
  show "\<exists>st'. append Background sid CheckAny evts st = ((word_of_nat (length (log st sid) + length evts), None), st') \<and>
      length (log st' sid) = length (log st sid) + length evts \<and> invar st'" by auto
qed

context user_event_store
begin

lemma event_store_suite_passes:
  assumes inv: "invar st" and empty: "\<And>sid. log st sid = []" and "distinct [us i1, us i2, us i3]" and "\<not> IsZero now"
  shows "\<exists>st'. EventStoreSuite \<lparr>Append = append, Stream = stream\<rparr> us i1 i2 i3 now repository_now stamp st = Some (True, st')"
proof -
  have sourced: "event_sourced append stream log invar (User_Type us)"
    by (rule event_sourced.intro [OF event_store_axioms user_type.aggregate_type_axioms])
  let ?repo = "NewEventSourcedRepository \<lparr>Append = append, Stream = stream\<rparr> (User_Type us)"
  let ?stored = "event_sourced.es_stored log (User_Type us)" and ?inv = "event_sourced.es_invar log invar (User_Type us)"
  have repo: "user_repository (EventSourcedRepository_Get ?repo) (EventSourcedRepository_Save ?repo) us ?stored ?inv"
    unfolding user_repository_def by (rule event_sourced.es_repository [OF sourced])
  have none: "?stored st i = None" for i
    by (simp add: event_sourced.es_stored_def [OF sourced] empty)
  have inv': "?inv st" by (simp add: event_sourced.es_invar_def [OF sourced] empty inv)
  have "us i1 \<noteq> us i2" using assms(3) by simp
  from user_suite.suite_passes [OF user_repository.is_suite [OF repo] inv' none none this TrueI TrueI, where now = repository_now and stamp = stamp]
  obtain st1 where suite: "AggregateRepositorySuite \<lparr>Get = EventSourcedRepository_Get ?repo, Save = EventSourcedRepository_Save ?repo\<rparr>
        i1 i2 repository_now stamp st = Some (True, st1)" "?inv st1"
    "\<forall>j. us j \<noteq> us i1 \<and> us j \<noteq> us i2 \<longrightarrow> ?stored st1 j = ?stored st j" by blast
  then have s: "AggregateRepositorySuite (EventSourcedRepository_Repository ?repo) i1 i2 repository_now stamp st = Some (True, st1)"
      "?inv st1" "?stored st1 i3 = None"
    using assms(3) by (auto simp: EventSourcedRepository_Repository_def none)
  have "invar st1" "log st1 (us i3) = []"
    using s(2,3) by (auto simp: event_sourced.es_invar_def [OF sourced] event_sourced.es_stored_def [OF sourced] Let_def
        split: if_splits)
  from append_any_passes [where us = us and i = i3, OF this(1) _ assms(4)] this(2) obtain st2 where
    "append_any_test \<lparr>Append = append, Stream = stream\<rparr> us i3 now st1 = (True, st2)" by blast
  with s(1) show ?thesis by (simp add: EventStoreSuite_def)
qed

end

interpretation mem_users: user_event_store InMemoryStore_Append InMemoryStore_Stream mem_log "\<lambda>_. True"
  by unfold_locales

interpretation tracked_users: user_event_store
  "TrackingStore_Append InMemoryStore_Append" "TrackingStore_Stream InMemoryStore_Stream"
  "\<lambda>es. mem_log (inner es)" "\<lambda>_. True"
  by unfold_locales

interpretation user_mem: user_repository
  "EventSourcedRepository_Get (NewEventSourcedRepository InMemoryStore_Store (User_Type us))"
  "EventSourcedRepository_Save (NewEventSourcedRepository InMemoryStore_Store (User_Type us))" us
  "event_sourced.es_stored mem_log (User_Type us)" "event_sourced.es_invar mem_log (\<lambda>_. True) (User_Type us)"
  for us :: "UUID \<Rightarrow> string"
  using user_es.es_repository [of us] by (simp add: user_repository_def go_defs)

text \<open>C20: The repository's own suite for event stores, which runs the suite for aggregate repositories
  on an event-sourced repository over the store and then appends without a version check, passes on
  a new in-memory store, and on a tracking store around one, whatever the clock shows and whichever
  distinct identifiers are drawn.\<close>

theorem EventStoreSuite_passes:
  assumes "distinct [us i1, us i2, us i3]" and "\<not> IsZero now"
  shows "(\<exists>st. EventStoreSuite InMemoryStore_Store us i1 i2 i3 now repository_now stamp NewInMemoryStore = Some (True, st)) \<and>
     (\<exists>st. EventStoreSuite (TrackingStore_Store InMemoryStore_Store) us i1 i2 i3 now repository_now stamp
             (NewTrackingStore NewInMemoryStore) = Some (True, st))"
  using mem_users.event_store_suite_passes [OF TrueI _ assms, of NewInMemoryStore]
    tracked_users.event_store_suite_passes [OF TrueI _ assms, of "NewTrackingStore NewInMemoryStore"]
  by (simp add: go_defs NewTrackingStore_def)

theorem EventStoreSuite_passes_witness:
  "\<exists>st. EventStoreSuite InMemoryStore_Store unary 1 2 3 epoch epoch ''now'' NewInMemoryStore = Some (True, st)"
proof -
  have "distinct [unary 1, unary 2, unary 3]" using inj_unary by (simp add: inj_eq)
  from EventStoreSuite_passes [OF this not_zero_epoch] show ?thesis by blast
qed

end
