(* ===== verification/Go_Calendar.thy ===== *)
theory Go_Calendar
  imports Go_Time
begin

text \<open>
  The calendar of Go's package \<open>time\<close>: \<open>Year\<close>, \<open>Month\<close> and \<open>Day\<close> of an instant in its location, and
  \<open>time.Date\<close> at midnight UTC. The calendar is the proleptic Gregorian one. Days are counted from January 1 of year 1.
\<close>

section \<open>Definitions\<close>

definition leap :: "int \<Rightarrow> bool" where
  "leap y \<longleftrightarrow> y mod 4 = 0 \<and> (y mod 100 \<noteq> 0 \<or> y mod 400 = 0)"

definition days_before_year :: "int \<Rightarrow> int" where
  "days_before_year y = 365 * (y - 1) + (y - 1) div 4 - (y - 1) div 100 + (y - 1) div 400"

definition month_lengths :: "bool \<Rightarrow> int list" where
  "month_lengths lp = [31, if lp then 29 else 28, 31, 30, 31, 30, 31, 31, 30, 31, 30, 31]"

text \<open>The year of a day and the day's number in it: whole cycles of 400, 100, 4 and 1 years are cut off in turn.\<close>

definition year_yday :: "int \<Rightarrow> int \<times> int" where
  "year_yday d =
     (let n400 = d div 146097; d = d mod 146097;
          n100 = min 3 (d div 36524); d = d - 36524 * n100;
          n4 = d div 1461; d = d mod 1461;
          n1 = min 3 (d div 365); d = d - 365 * n1
      in (400 * n400 + 100 * n100 + 4 * n4 + n1 + 1, d))"

text \<open>The month and the day in it, both from 1.\<close>

fun split_months :: "int list \<Rightarrow> int \<Rightarrow> int \<Rightarrow> int \<times> int" where
  "split_months [] m d = (m, d + 1)"
| "split_months (len # rest) m d = (if d < len then (m, d + 1) else split_months rest (m + 1) (d - len))"

definition local_day :: "Time \<Rightarrow> int" where
  "local_day t = (abs_sec t + zone_offset t) div 86400"

definition time_Date_of :: "Time \<Rightarrow> int \<times> int \<times> int" where
  "time_Date_of t = (let (y, yday) = year_yday (local_day t) in (y, split_months (month_lengths (leap y)) 1 yday))"

definition time_Year :: "Time \<Rightarrow> int" where
  "time_Year t = fst (time_Date_of t)"
definition time_Month :: "Time \<Rightarrow> int" where
  "time_Month t = fst (snd (time_Date_of t))"
definition time_Day :: "Time \<Rightarrow> int" where
  "time_Day t = snd (snd (time_Date_of t))"

text \<open>\<open>time.Date\<close> takes months and days out of range and carries them over.\<close>

definition day_number :: "int \<Rightarrow> int \<Rightarrow> int \<Rightarrow> int" where
  "day_number year month day =
     (let y = year + (month - 1) div 12; m = (month - 1) mod 12
      in days_before_year y + sum_list (take (nat m) (month_lengths (leap y))) + (day - 1))"

definition midnight_UTC :: "int \<Rightarrow> Time" where
  "midnight_UTC d = \<lparr>abs_sec = d * 86400, nsec = 0, zone_offset = 0\<rparr>"

definition time_Date :: "int \<Rightarrow> int \<Rightarrow> int \<Rightarrow> Time" where
  "time_Date year month day = midnight_UTC (day_number year month day)"

section \<open>The calendar and the day count agree\<close>

lemma days_before_cycles:
  assumes "0 \<le> b" "b < 4" "0 \<le> c" "c < 25" "0 \<le> e" "e < (4 :: int)"
  shows "days_before_year (400 * a + 100 * b + 4 * c + e + 1) = 146097 * a + 36524 * b + 1461 * c + 365 * e"
proof -
  let ?x = "400 * a + 100 * b + 4 * c + e"
  have "?x div 4 = 100 * a + 25 * b + c" by (rule int_div_pos_eq [where r = e]) (use assms in simp_all)
  moreover have "?x div 100 = 4 * a + b" by (rule int_div_pos_eq [where r = "4 * c + e"]) (use assms in simp_all)
  moreover have "?x div 400 = a" by (rule int_div_pos_eq [where r = "100 * b + 4 * c + e"]) (use assms in simp_all)
  ultimately show ?thesis by (simp add: days_before_year_def)
qed

lemma leap_cycles:
  assumes "0 \<le> b" "b < 4" "0 \<le> c" "c < 25" "0 \<le> e" "e < (4 :: int)"
  shows "leap (400 * a + 100 * b + 4 * c + e + 1) \<longleftrightarrow> e = 3 \<and> (c = 24 \<longrightarrow> b = 3)"
proof -
  let ?y = "400 * a + 100 * b + 4 * c + e + 1"
  have m4: "?y mod 4 = (if e = 3 then 0 else e + 1)"
  proof (cases "e = 3")
    case True
    then have "?y mod 4 = 0" by (intro int_mod_pos_eq [where q = "100 * a + 25 * b + c + 1"]) simp_all
    with True show ?thesis by (simp only: if_True simp_thms)
  next
    case False
    with assms have "?y mod 4 = e + 1" by (intro int_mod_pos_eq [where q = "100 * a + 25 * b + c"]) simp_all
    with False show ?thesis by (simp only: if_False)
  qed
  have m100: "?y mod 100 = 4 * c + e + 1" if "4 * c + e + 1 < 100"
    by (rule int_mod_pos_eq [where q = "4 * a + b"]) (use assms that in simp_all)
  have z100: "?y mod 100 = 0" if "c = 24" "e = 3"
    by (rule int_mod_pos_eq [where q = "4 * a + b + 1"]) (use that in simp_all)
  have m400: "?y mod 400 = 100 * b + 4 * c + e + 1" if "b < 3"
    by (rule int_mod_pos_eq [where q = a]) (use assms that in simp_all)
  have z400: "?y mod 400 = 0" if "b = 3" "c = 24" "e = 3"
    by (rule int_mod_pos_eq [where q = "a + 1"]) (use that in simp_all)
  show ?thesis
  proof (cases "e = 3")
    case False
    with m4 assms show ?thesis by (simp add: leap_def)
  next
    case e: True
    show ?thesis
    proof (cases "c = 24")
      case False
      with m4 m100 e assms show ?thesis by (simp add: leap_def)
    next
      case True
      with m4 z100 m400 z400 e assms show ?thesis by (cases "b = 3") (simp_all add: leap_def)
    qed
  qed
qed

lemma cut_div:
  fixes d k :: int
  assumes "0 < k" and "0 \<le> d" and "b = min 3 (d div k)" and "d \<le> 4 * k"
  shows "0 \<le> b" "b < 4" "0 \<le> d - k * b" "d - k * b < k \<or> d = 4 * k \<and> b = 3"
proof -
  have d: "d = k * (d div k) + d mod k" "0 \<le> d mod k" "d mod k < k" using assms(1) by simp_all
  have q: "0 \<le> d div k" using assms(1,2) by (simp add: pos_imp_zdiv_nonneg_iff)
  have le: "d div k \<le> 4" using zdiv_mono1 [OF assms(4,1)] assms(1) by simp
  show "0 \<le> b" "b < 4" using q assms(3) by simp_all
  show "0 \<le> d - k * b" "d - k * b < k \<or> d = 4 * k \<and> b = 3"
  proof -
    consider "d div k \<le> 3" | "d div k = 4" using le by linarith
    then have "0 \<le> d - k * b \<and> (d - k * b < k \<or> d = 4 * k \<and> b = 3)"
    proof cases
      case 1
      then have "b = d div k" using assms(3) by simp
      then have "d - k * b = d mod k" by (simp add: minus_mult_div_eq_mod)
      with d(2,3) show ?thesis by simp
    next
      case 2
      with d(1) have "d = 4 * k + d mod k" by simp
      with d(2) assms(4) have "d = 4 * k" by linarith
      moreover have "b = 3" using 2 assms(3) by simp
      ultimately show ?thesis using assms(1) by simp
    qed
    then show "0 \<le> d - k * b" "d - k * b < k \<or> d = 4 * k \<and> b = 3" by blast+
  qed
qed

lemma cut_cycles:
  fixes d :: int
  assumes "0 \<le> d" "d < 146097" and b: "b = min 3 (d div 36524)" and c: "c = (d - 36524 * b) div 1461"
    and e: "e = min 3 ((d - 36524 * b) mod 1461 div 365)" and r: "r = (d - 36524 * b) mod 1461 - 365 * e"
  shows "d = 36524 * b + 1461 * c + 365 * e + r" "0 \<le> b" "b < 4" "0 \<le> c" "c < 25" "0 \<le> e" "e < 4" "0 \<le> r"
    "r < 365 \<or> r = 365 \<and> e = 3 \<and> (c = 24 \<longrightarrow> b = 3)"
proof -
  define d1 m where d1_def: "d1 = d - 36524 * b" and m_def: "m = d1 mod 1461"
  have B: "0 \<le> b" "b < 4" "0 \<le> d1" "d1 < 36524 \<or> d = 146096 \<and> b = 3"
    using cut_div [of 36524 d b] assms(1,2) b by (simp_all add: d1_def)
  have d1: "d1 = 1461 * c + m" "0 \<le> m" "m < 1461" using c by (simp_all add: d1_def m_def)
  have em: "e = min 3 (m div 365)" and rm: "r = m - 365 * e" using e r by (simp_all only: d1_def m_def)
  have E: "0 \<le> e" "e < 4" "0 \<le> r" "r < 365 \<or> m = 1460 \<and> e = 3"
    using cut_div [of 365 m e, OF _ d1(2) em] d1(3) rm by simp_all
  show "d = 36524 * b + 1461 * c + 365 * e + r" using d1(1) rm d1_def by linarith
  show "0 \<le> b" "b < 4" "0 \<le> e" "e < 4" "0 \<le> r" by (rule B E)+
  have "d1 \<le> 36524" using B(4) d1_def by linarith
  with B(3) d1 show "0 \<le> c" "c < 25" by linarith+
  show "r < 365 \<or> r = 365 \<and> e = 3 \<and> (c = 24 \<longrightarrow> b = 3)"
    using E(4) B(4) d1(1) rm d1_def by linarith
qed

lemma year_yday_spec:
  assumes "year_yday d = (y, n)"
  shows "days_before_year y + n = d" and "0 \<le> n" and "n < sum_list (month_lengths (leap y))"
proof -
  define b c e r where
    cut: "b = min 3 (d mod 146097 div 36524)" "c = (d mod 146097 - 36524 * b) div 1461"
      "e = min 3 ((d mod 146097 - 36524 * b) mod 1461 div 365)" "r = (d mod 146097 - 36524 * b) mod 1461 - 365 * e"
  have "0 \<le> d mod 146097" "d mod 146097 < 146097" by simp_all
  note all = cut_cycles [OF this cut]
  note range = all(2-8) and last = all(9)
  have "year_yday d = (400 * (d div 146097) + 100 * b + 4 * c + e + 1, r)"
    by (simp only: year_yday_def Let_def cut)
  with assms have y: "y = 400 * (d div 146097) + 100 * b + 4 * c + e + 1" and n: "n = r" by simp_all
  show "days_before_year y + n = d"
    unfolding y n days_before_cycles [OF range(1-6)] using all(1) div_mult_mod_eq [of d 146097] by linarith
  show "0 \<le> n" using n range(7) by simp
  show "n < sum_list (month_lengths (leap y))"
    unfolding y leap_cycles [OF range(1-6)] n using last by (auto simp: month_lengths_def)
qed

lemma split_months_spec:
  assumes "split_months lens m d = (m', d')" and "0 \<le> d" and "d < sum_list lens"
  shows "\<exists>k < length lens. m' = m + int k \<and> sum_list (take k lens) + (d' - 1) = d \<and> 1 \<le> d' \<and> d' \<le> lens ! k"
  using assms
proof (induction lens arbitrary: m d)
  case Nil
  then show ?case by simp
next
  case (Cons len lens)
  show ?case
  proof (cases "d < len")
    case True
    with Cons.prems show ?thesis by (intro exI [of _ 0]) auto
  next
    case False
    with Cons.prems have "split_months lens (m + 1) (d - len) = (m', d')" "0 \<le> d - len" "d - len < sum_list lens" by auto
    from Cons.IH [OF this] obtain k where "k < length lens" "m' = m + 1 + int k" "sum_list (take k lens) + (d' - 1) = d - len"
      "1 \<le> d'" "d' \<le> lens ! k" by blast
    then show ?thesis by (intro exI [of _ "Suc k"]) auto
  qed
qed

lemma time_fields_spec:
  "day_number (time_Year t) (time_Month t) (time_Day t) = local_day t"
  "1 \<le> time_Month t" "time_Month t \<le> 12" "1 \<le> time_Day t" "time_Day t \<le> 31"
proof -
  obtain y n where yn: "year_yday (local_day t) = (y, n)" by fastforce
  obtain m d where md: "split_months (month_lengths (leap y)) 1 n = (m, d)" by fastforce
  note spec = year_yday_spec [OF yn]
  from split_months_spec [OF md spec(2,3)] obtain k where
    k: "k < length (month_lengths (leap y))" "m = 1 + int k" "sum_list (take k (month_lengths (leap y))) + (d - 1) = n"
      "1 \<le> d" "d \<le> month_lengths (leap y) ! k" by blast
  have fields: "time_Year t = y" "time_Month t = m" "time_Day t = d"
    by (simp_all add: time_Year_def time_Month_def time_Day_def time_Date_of_def yn md)
  from k(1) have k12: "k < 12" by (simp add: month_lengths_def)
  then show "day_number (time_Year t) (time_Month t) (time_Day t) = local_day t"
    unfolding fields day_number_def Let_def using k(2,3) spec(1) by simp
  show "1 \<le> time_Month t" "time_Month t \<le> 12" "1 \<le> time_Day t" using k k12 by (simp_all add: fields)
  have "\<forall>len \<in> set (month_lengths (leap y)). len \<le> 31" by (simp add: month_lengths_def)
  with k(1,5) show "time_Day t \<le> 31" unfolding fields using nth_mem by fastforce
qed

end
