(* ===== verification/User_Serde.thy ===== *)
theory User_Serde
  imports User_Aggregate Go_Calendar Serde
begin

text \<open>
  The protobuf serdes of the user aggregate and of its events: \<open>internal/user/serde.go\<close>. Package \<open>uuid\<close>
  and the timestamps \<open>'ts\<close> of \<open>timestamppb\<close> are parameters. A pointer of a protobuf message may be nil,
  and following a nil one is a panic, the outcome \<open>None\<close>; \<open>AsTime\<close> accepts a nil timestamp.
\<close>

section \<open>Dates\<close>

record date =
  Year :: "32 word"
  Month :: "32 word"
  Day :: "32 word"

definition timeToDate :: "Time \<Rightarrow> date" where
  "timeToDate t = \<lparr>Year = word_of_int (time_Year t), Month = word_of_int (time_Month t), Day = word_of_int (time_Day t)\<rparr>"

definition dateToTime :: "date option \<Rightarrow> Time option" where
  "dateToTime d = (case d of None \<Rightarrow> None | Some d \<Rightarrow> Some (time_Date (sint (Year d)) (sint (Month d)) (sint (Day d))))"

section \<open>Users\<close>

record pb_User =
  pb_user_Id :: string
  pb_user_FirstName :: string
  pb_user_LastName :: string
  pb_user_BirthDate :: "date option"
  pb_user_Email :: string

definition protoSerializer :: "(UUID \<Rightarrow> string) \<Rightarrow> (User, pb_User) Serializer" where
  "protoSerializer uuid_String user =
     Inr \<lparr>pb_user_Id = uuid_String (user_id user), pb_user_FirstName = user_firstName user,
          pb_user_LastName = user_lastName user, pb_user_BirthDate = Some (timeToDate (user_birthDate user)),
          pb_user_Email = user_email user\<rparr>"

definition protoDeserializer :: "(string \<Rightarrow> error + UUID) \<Rightarrow> pb_User \<Rightarrow> (error + User) option" where
  "protoDeserializer uuid_Parse src =
     (case uuid_Parse (pb_user_Id src) of
        Inl e \<Rightarrow> Some (Inl (Errorf ''user.protoDeserialize: failed to deserialize user id, %w'' [e]))
      | Inr i \<Rightarrow>
          (case dateToTime (pb_user_BirthDate src) of
             None \<Rightarrow> None
           | Some birthDate \<Rightarrow>
               Some (Inr (zero_User\<lparr>user_id := i, user_firstName := pb_user_FirstName src,
                 user_lastName := pb_user_LastName src, user_birthDate := birthDate, user_email := pb_user_Email src\<rparr>))))"

section \<open>Events\<close>

record pb_WasCreated =
  pb_FirstName :: string
  pb_LastName :: string
  pb_BirthDate :: "date option"
  pb_Email :: string

text \<open>The oneof \<open>kind\<close>: a wrapper struct with a pointer to the message, or nil.\<close>

datatype pb_kind =
    Event_WasCreated "pb_WasCreated option"
  | Event_EmailWasUpdated "string option"

record 'ts pb_Event =
  pb_event_Id :: string
  pb_RecordTime :: "'ts option"
  pb_Kind :: "pb_kind option"

fun protoEventSerializer :: "(UUID \<Rightarrow> string) \<Rightarrow> (Time \<Rightarrow> 'ts) \<Rightarrow> (user_msg, 'ts pb_Event) Serializer" where
  "protoEventSerializer uuid_String timestamp_New (ForeignMessage name) =
     Inl (Errorf ''user.protoEventSerializer: unexpected event type, %T'' [])"
| "protoEventSerializer uuid_String timestamp_New (UserEvent userEvent) =
     (case evt_Kind userEvent of
        Some (UserWasCreated firstName lastName birthDate email) \<Rightarrow>
          Inr \<lparr>pb_event_Id = uuid_String (evt_ID userEvent), pb_RecordTime = Some (timestamp_New (evt_RecordTime userEvent)),
               pb_Kind = Some (Event_WasCreated (Some \<lparr>pb_FirstName = firstName, pb_LastName = lastName,
                 pb_BirthDate = Some (timeToDate birthDate), pb_Email = email\<rparr>))\<rparr>
      | Some (UserEmailWasUpdated email) \<Rightarrow>
          Inr \<lparr>pb_event_Id = uuid_String (evt_ID userEvent), pb_RecordTime = Some (timestamp_New (evt_RecordTime userEvent)),
               pb_Kind = Some (Event_EmailWasUpdated (Some email))\<rparr>
      | None \<Rightarrow> Inl (Errorf ''user.protoEventSerializer: unexpected event kind type, %T'' []))"

definition protoEventDeserializer ::
  "(string \<Rightarrow> error + UUID) \<Rightarrow> ('ts option \<Rightarrow> Time) \<Rightarrow> 'ts pb_Event \<Rightarrow> (error + user_msg) option" where
  "protoEventDeserializer uuid_Parse AsTime evt =
     (case uuid_Parse (pb_event_Id evt) of
        Inl e \<Rightarrow> Some (Inl (Errorf ''user.protoEventDeserializer: failed to parse id, %w'' [e]))
      | Inr i \<Rightarrow>
          (case pb_Kind evt of
             Some (Event_WasCreated None) \<Rightarrow> None
           | Some (Event_WasCreated (Some t)) \<Rightarrow>
               (case dateToTime (pb_BirthDate t) of
                  None \<Rightarrow> None
                | Some birthDate \<Rightarrow>
                    Some (Inr (UserEvent \<lparr>evt_ID = i, evt_RecordTime = AsTime (pb_RecordTime evt),
                      evt_Kind = Some (UserWasCreated (pb_FirstName t) (pb_LastName t) birthDate (pb_Email t))\<rparr>)))
           | Some (Event_EmailWasUpdated None) \<Rightarrow> None
           | Some (Event_EmailWasUpdated (Some email)) \<Rightarrow>
               Some (Inr (UserEvent \<lparr>evt_ID = i, evt_RecordTime = AsTime (pb_RecordTime evt),
                 evt_Kind = Some (UserEmailWasUpdated email)\<rparr>))
           | None \<Rightarrow> Some (Inl (Errorf ''user.protoEventDeserializer: invalid event type, %T'' []))))"

section \<open>Round trips\<close>

text \<open>A birth date comes back as midnight UTC of its day, as long as its year fits the field.\<close>

definition birth_day :: "Time \<Rightarrow> Time" where
  "birth_day t = midnight_UTC (local_day t)"

definition year_fits :: "Time \<Rightarrow> bool" where
  "year_fits t \<longleftrightarrow> - (2 ^ 31) \<le> time_Year t \<and> time_Year t < 2 ^ 31"

lemma sint_small: "- (2 ^ 31) \<le> x \<Longrightarrow> x < 2 ^ 31 \<Longrightarrow> sint (word_of_int x :: 32 word) = x"
  by (simp add: sint_sbintrunc' signed_take_bit_int_eq_self)

lemma dateToTime_timeToDate:
  assumes "year_fits t"
  shows "dateToTime (Some (timeToDate t)) = Some (birth_day t)"
proof -
  have "sint (word_of_int (time_Year t) :: 32 word) = time_Year t" using assms by (intro sint_small) (simp_all add: year_fits_def)
  moreover have "sint (word_of_int (time_Month t) :: 32 word) = time_Month t"
    using time_fields_spec(2-3) [of t] by (intro sint_small) simp_all
  moreover have "sint (word_of_int (time_Day t) :: 32 word) = time_Day t"
    using time_fields_spec(4-5) [of t] by (intro sint_small) simp_all
  ultimately show ?thesis
    by (simp add: dateToTime_def timeToDate_def time_Date_def time_fields_spec(1) birth_day_def)
qed

fun stored_kind :: "user_kind \<Rightarrow> user_kind" where
  "stored_kind (UserWasCreated firstName lastName birthDate email) = UserWasCreated firstName lastName (birth_day birthDate) email"
| "stored_kind (UserEmailWasUpdated email) = UserEmailWasUpdated email"

fun kind_fits :: "user_kind \<Rightarrow> bool" where
  "kind_fits (UserWasCreated firstName lastName birthDate email) = year_fits birthDate"
| "kind_fits (UserEmailWasUpdated email) = True"

lemma user_round_trip:
  assumes "\<And>i. uuid_Parse (uuid_String i) = Inr i" and "year_fits (user_birthDate user)"
  shows "(case protoSerializer uuid_String user of Inl e \<Rightarrow> None | Inr src \<Rightarrow> protoDeserializer uuid_Parse src) =
      Some (Inr (user\<lparr>version := 0, recordedEvents := [], user_birthDate := birth_day (user_birthDate user)\<rparr>))"
  using assms(1) dateToTime_timeToDate [OF assms(2)]
  by (simp add: protoSerializer_def protoDeserializer_def zero_User_def)

lemma event_round_trip:
  assumes "\<And>i. uuid_Parse (uuid_String i) = Inr i" and "\<And>t. AsTime (Some (timestamp_New t)) = in_UTC t" and "kind_fits kind"
  shows "(case protoEventSerializer uuid_String timestamp_New (UserEvent \<lparr>evt_ID = i, evt_RecordTime = t, evt_Kind = Some kind\<rparr>) of
        Inl e \<Rightarrow> None | Inr evt \<Rightarrow> protoEventDeserializer uuid_Parse AsTime evt) =
      Some (Inr (UserEvent \<lparr>evt_ID = i, evt_RecordTime = in_UTC t, evt_Kind = Some (stored_kind kind)\<rparr>))"
  using assms dateToTime_timeToDate by (cases kind) (simp_all add: protoEventDeserializer_def)

text \<open>C21: What the user serdes write they read back: the user at version 0 without recorded events and
  the event, with the same data, an event's record time as the same instant in UTC and every birth date as midnight UTC of the
  day it was on its own calendar, for years of 32 bits.\<close>

theorem user_serdes_round_trip:
  assumes "\<And>i. uuid_Parse (uuid_String i) = Inr i"
    and "\<And>t. AsTime (Some (timestamp_New t)) = in_UTC t"
    and "year_fits (user_birthDate user)" and "kind_fits kind"
  shows "(case protoSerializer uuid_String user of Inl e \<Rightarrow> None | Inr src \<Rightarrow> protoDeserializer uuid_Parse src) =
      Some (Inr (user\<lparr>version := 0, recordedEvents := [], user_birthDate := birth_day (user_birthDate user)\<rparr>)) \<and>
    (case protoEventSerializer uuid_String timestamp_New (UserEvent \<lparr>evt_ID = i, evt_RecordTime = t, evt_Kind = Some kind\<rparr>) of
        Inl e \<Rightarrow> None | Inr evt \<Rightarrow> protoEventDeserializer uuid_Parse AsTime evt) =
      Some (Inr (UserEvent \<lparr>evt_ID = i, evt_RecordTime = in_UTC t, evt_Kind = Some (stored_kind kind)\<rparr>))"
  using assms(3,4) user_round_trip [OF assms(1,3)] event_round_trip [OF assms(1,2,4)] by simp

definition ann :: User where
  "ann = zero_User\<lparr>user_id := 2, user_firstName := ''ann'', user_birthDate := \<lparr>abs_sec = 63108892800, nsec = 7, zone_offset = 3600\<rparr>\<rparr>"

theorem user_serdes_round_trip_witness:
  "(case protoSerializer unary ann of Inl e \<Rightarrow> None | Inr src \<Rightarrow> protoDeserializer parse_unary src) =
      Some (Inr (ann\<lparr>version := 0, recordedEvents := [], user_birthDate := \<lparr>abs_sec = 63108892800, nsec = 0, zone_offset = 0\<rparr>\<rparr>)) \<and>
    (case protoEventSerializer unary Some (UserEvent \<lparr>evt_ID = 2, evt_RecordTime = zero_Time,
            evt_Kind = Some (UserEmailWasUpdated ''a@b'')\<rparr>) of
        Inl e \<Rightarrow> None | Inr evt \<Rightarrow> protoEventDeserializer parse_unary (\<lambda>ts. in_UTC (the (the ts))) evt) =
      Some (Inr (UserEvent \<lparr>evt_ID = 2, evt_RecordTime = zero_Time, evt_Kind = Some (UserEmailWasUpdated ''a@b'')\<rparr>))"
proof -
  have "year_fits (user_birthDate ann)" "birth_day (user_birthDate ann) = \<lparr>abs_sec = 63108892800, nsec = 0, zone_offset = 0\<rparr>"
    by (simp_all add: ann_def year_fits_def time_Year_def time_Date_of_def local_day_def year_yday_def birth_day_def midnight_UTC_def split_def)
  then show ?thesis
    using user_serdes_round_trip [OF parse_unary_unary, of "\<lambda>ts. in_UTC (the (the ts))" Some ann "UserEmailWasUpdated ''a@b''" 2 zero_Time]
    by (simp add: in_UTC_def zero_Time_def)
qed

section \<open>Failures\<close>

text \<open>
  The serializers fail only on messages of other types and events without a kind. The deserializers fail on identifiers
  that do not parse and events without a kind, and panic on a missing birth date or message.
\<close>

theorem user_serdes_failures:
  "\<exists>pb. protoSerializer uuid_String user = Inr pb"
  "(\<exists>e. protoEventSerializer uuid_String timestamp_New msg = Inl e) \<longleftrightarrow>
     (case msg of ForeignMessage name \<Rightarrow> True | UserEvent evt \<Rightarrow> evt_Kind evt = None)"
  "protoDeserializer uuid_Parse src = None \<longleftrightarrow> \<not> isl (uuid_Parse (pb_user_Id src)) \<and> pb_user_BirthDate src = None"
  "(\<exists>e. protoDeserializer uuid_Parse src = Some (Inl e)) \<longleftrightarrow> isl (uuid_Parse (pb_user_Id src))"
  "protoEventDeserializer uuid_Parse AsTime evt = None \<longleftrightarrow> \<not> isl (uuid_Parse (pb_event_Id evt)) \<and>
     (case pb_Kind evt of Some (Event_WasCreated None) \<Rightarrow> True | Some (Event_WasCreated (Some t)) \<Rightarrow> pb_BirthDate t = None
      | Some (Event_EmailWasUpdated m) \<Rightarrow> m = None | None \<Rightarrow> False)"
  by (cases msg; cases "uuid_Parse (pb_user_Id src)"; cases "uuid_Parse (pb_event_Id evt)";
      auto simp: protoSerializer_def protoDeserializer_def protoEventDeserializer_def dateToTime_def
        split: option.splits user_kind.splits pb_kind.splits)+

end
