(* ===== verification/Postgres_Suites.thy ===== *)
theory Postgres_Suites
  imports Postgres_Sourced User_Suites User_Serde
begin

text \<open>
  The repository's suites on PostgreSQL, as \<open>postgres/aggregate_repository_test.go\<close> and \<open>event_store_test.go\<close> run
  them: on migrated tables, with the user's protobuf serdes chained to ProtoJSON. PostgreSQL stores what its serdes
  know, so it keeps the contract of the suites and not \<open>repository_contract\<close>.
\<close>

section \<open>The aggregate repository\<close>

definition restored :: "(('m, 'z) BaseRoot_scheme, bytes) Fused \<Rightarrow> aggregate_row \<Rightarrow> ('m, 'z) BaseRoot_scheme" where
  "restored as row = setVersion (word_of_int (agg_row_version row)) (projr (Deserialize as (agg_state row)))"

definition pg_stored ::
  "('id, 'm, 'z) Type \<Rightarrow> (('m, 'z) BaseRoot_scheme, bytes) Fused \<Rightarrow> pool \<Rightarrow> 'id \<Rightarrow> ('m, 'z) BaseRoot_scheme option" where
  "pg_stored ty as p i = map_option (restored as) (aggregates_table (tables_now p) (String ty i))"

text \<open>Every stream with events has a state of the aggregate's type, at its version, that can be read.\<close>

definition states_ok :: "('id, 'm, 'z) Type \<Rightarrow> (('m, 'z) BaseRoot_scheme, bytes) Fused \<Rightarrow> tables \<Rightarrow> bool" where
  "states_ok ty as t \<longleftrightarrow> tables_ok t \<and> aligned t \<and>
     (\<forall>sid. aggregates_table t sid = None \<longrightarrow> rows_of t sid = []) \<and>
     (\<forall>sid row. aggregates_table t sid = Some row \<longrightarrow> agg_type row = Name ty \<and> \<not> isl (Deserialize as (agg_state row)))"

definition restores :: "(('m, 'z) BaseRoot_scheme, bytes) Fused \<Rightarrow> ('m, 'z) BaseRoot_scheme \<Rightarrow> bool" where
  "restores as root \<longleftrightarrow> (\<exists>state src. Serialize as (flushed root) = Inr state \<and> Deserialize as state = Inr src \<and>
     setVersion (version root) src = flushed root)"

lemma states_ok_version:
  assumes "states_ok ty as t" and "aggregates_table t sid = Some row"
  shows "agg_row_version row = int (length (rows_of t sid))" and "length (rows_of t sid) < 2 ^ 32"
  using assms by (auto simp: states_ok_def tables_ok_def aligned_def split: if_splits dest!: spec [of _ sid])

lemma pg_Get_missing:
  assumes "pg_stored ty as p i = None"
  shows "\<exists>p'. AggregateRepository_Get (pg_repo no_faults landed ty as ms) ctx i p = Some (Inl ErrRootNotFound, p') \<and>
    tables_now p' = tables_now p"
  using assms
  by (auto simp: pg_stored_def AggregateRepository_Get_def AggregateRepository_get_def engine_scan_aggregate on_pool_def
      select_aggregate_def ErrNoRows_def)

lemma pg_Get_found:
  assumes ok: "states_ok ty as (tables_now p)" and st: "pg_stored ty as p i = Some r"
  shows "\<exists>p'. AggregateRepository_Get (pg_repo no_faults landed ty as ms) ctx i p = Some (Inr r, p') \<and>
    tables_now p' = tables_now p"
proof -
  from st obtain row where row: "aggregates_table (tables_now p) (String ty i) = Some row" and r: "r = restored as row"
    by (auto simp: pg_stored_def)
  from states_ok_version [OF ok row] have v: "scan_uint32 (agg_row_version row) = Inr (word_of_int (agg_row_version row))"
    by (simp add: scan_uint32_def)
  obtain src where "Deserialize as (agg_state row) = Inr src" "agg_type row = Name ty"
    using ok row unfolding states_ok_def by (metis isl_def sum.exhaust_sel)
  with row v show ?thesis
    by (simp add: AggregateRepository_Get_def AggregateRepository_get_def RehydrateFromState_def engine_scan_aggregate on_pool_def
        select_aggregate_def r restored_def)
qed

lemma new_rows_streams: "new_rows env ser sid old new i evts = Some rs \<Longrightarrow> \<forall>r \<in> set rs. row_stream r = sid"
  by (induction evts arbitrary: i rs) (auto split: sum.splits)

lemma saved_states:
  assumes "saved env ty as ms root t = Some t'" and "Serialize as (flushed root) = Inr state"
  defines "sid \<equiv> String ty (AggregateID ty (flushed root))"
  obtains row where "aggregates_table t' = (aggregates_table t)(sid \<mapsto> row)" and "agg_row_version row = uint (version root)"
    and "agg_state row = state" and "agg_type row = (case aggregates_table t sid of None \<Rightarrow> Name ty | Some row \<Rightarrow> agg_type row)"
    and "\<And>sid'. sid' \<noteq> sid \<Longrightarrow> rows_of t' sid' = rows_of t sid'"
proof -
  from assms(1,2) obtain t1 where
    t1: "appended env (Serialize ms) sid (version root - version_of (recordedEvents root)) (recordedEvents root) t = Some t1"
    and t': "t' = t1\<lparr>aggregates_table := (aggregates_table t1)(sid \<mapsto>
               (case aggregates_table t1 sid of
                  None \<Rightarrow> \<lparr>agg_type = Name ty, agg_row_version = uint (version root), agg_state = state\<rparr>
                | Some row \<Rightarrow> row\<lparr>agg_row_version := uint (version root), agg_state := state\<rparr>))\<rparr>"
    by (auto simp: saved_def Let_def sid_def split: option.splits)
  from t1 obtain rs where rs: "new_rows env (Serialize ms) sid (version root - version_of (recordedEvents root))
      (version root - version_of (recordedEvents root) + version_of (recordedEvents root)) 0 (recordedEvents root) = Some rs"
    and t1': "events_table t1 = events_table t @ rs" "aggregates_table t1 = aggregates_table t"
    by (auto simp: appended_def)
  have "filter (\<lambda>r. row_stream r = sid') rs = []" if "sid' \<noteq> sid" for sid'
    using new_rows_streams [OF rs] that by (auto simp: filter_empty_conv)
  then have "rows_of t' sid' = rows_of t sid'" if "sid' \<noteq> sid" for sid'
    using that by (simp add: t' rows_of_def t1'(1))
  then show thesis
    by (intro that [of "the (aggregates_table t' sid)"]) (auto simp: t' t1'(2) split: option.split)
qed

lemma pg_Save_new:
  assumes ok: "states_ok ty as (tables_now p)" and new: "pg_stored ty as p (AggregateID ty (flushed root)) = None"
    and ne: "recordedEvents root \<noteq> []" and bound: "length (recordedEvents root) < 2 ^ 32"
    and v: "version root = version_of (recordedEvents root)" and restores: "restores as root"
    and ser: "\<forall>evt \<in> set (recordedEvents root). serializable_event env (Serialize ms) evt"
  obtains p' where "AggregateRepository_Save (pg_repo no_faults landed ty as ms) env ctx root p = (None, flushed root, p')"
    and "pg_stored ty as p' (AggregateID ty (flushed root)) = Some (flushed root)" and "states_ok ty as (tables_now p')"
    and "\<forall>j. String ty j \<noteq> String ty (AggregateID ty (flushed root)) \<longrightarrow> pg_stored ty as p' j = pg_stored ty as p j"
proof -
  let ?sid = "String ty (AggregateID ty (flushed root))"
  from restores obtain state src where st: "Serialize as (flushed root) = Inr state" "Deserialize as state = Inr src"
    "setVersion (version root) src = flushed root" by (auto simp: restores_def)
  have none: "aggregates_table (tables_now p) ?sid = None" using new by (simp add: pg_stored_def)
  then have rows: "rows_of (tables_now p) ?sid = []" using ok by (simp add: states_ok_def)
  have tok: "tables_ok (tables_now p)" and al: "aligned (tables_now p)" using ok by (simp_all add: states_ok_def)
  obtain e root' p' where save: "AggregateRepository_Save (pg_repo no_faults landed ty as ms) env ctx root p = (e, root', p')"
    by (metis prod_cases3)
  have "length (rows_of (tables_now p) ?sid) + length (recordedEvents root) < 2 ^ 32" using rows bound by simp
  from pg_AggregateRepository_Save_outcome_core [OF tok ne this ser st(1), where landed = landed and ctx = ctx] save rows v
  have "e = None \<and> root' = flushed root \<and> saved env ty as ms root (tables_now p) = Some (tables_now p') \<and> tables_ok (tables_now p')"
    by (cases e) auto
  then have r: "e = None" "root' = flushed root" and sv: "saved env ty as ms root (tables_now p) = Some (tables_now p')"
    and tok': "tables_ok (tables_now p')" by auto
  from saved_states [OF sv st(1)] obtain row where
    agg: "aggregates_table (tables_now p') = (aggregates_table (tables_now p))(?sid \<mapsto> row)"
    and row: "agg_row_version row = uint (version root)" "agg_state row = state" "agg_type row = Name ty"
    and others: "\<And>sid'. sid' \<noteq> ?sid \<Longrightarrow> rows_of (tables_now p') sid' = rows_of (tables_now p) sid'"
    using none by auto
  have "states_ok ty as (tables_now p')"
    using ok tok' aligned_saved [OF al sv] others st(2) row by (auto simp: states_ok_def agg)
  moreover have "pg_stored ty as p' (AggregateID ty (flushed root)) = Some (flushed root)"
    using st(2,3) row by (simp add: pg_stored_def agg restored_def)
  ultimately show thesis using that save r by (simp add: pg_stored_def agg)
qed

lemma pg_Save_stale:
  assumes ok: "states_ok ty as (tables_now p)" and st: "pg_stored ty as p (AggregateID ty (flushed root)) = Some r"
    and v: "version root - version_of (recordedEvents root) \<noteq> version r"
  shows "\<exists>e p'. AggregateRepository_Save (pg_repo no_faults landed ty as ms) env ctx root p = (Some e, flushed root, p') \<and>
    caused_by e (Conflict \<lparr>Expected = version root - version_of (recordedEvents root), Actual = version r\<rparr>) \<and>
    tables_now p' = tables_now p"
proof -
  let ?sid = "String ty (AggregateID ty (flushed root))"
  from st obtain row where row: "aggregates_table (tables_now p) ?sid = Some row" and r: "r = restored as row"
    by (auto simp: pg_stored_def)
  have vr: "version r = word_of_nat (length (rows_of (tables_now p) ?sid))"
    using states_ok_version [OF ok row] by (simp add: r restored_def go_defs)
  have "tables_ok (tables_now p)" using ok by (simp add: states_ok_def)
  from pg_AggregateRepository_Save_conflict [OF this, of root ty landed as ms env ctx] v vr show ?thesis by auto
qed

interpretation pg_users: user_suite
  "AggregateRepository_Get (pg_repo no_faults landed (User_Type us) as ms)"
  "AggregateRepository_Save (pg_repo no_faults landed (User_Type us) as ms) env" us
  "pg_stored (User_Type us) as" "\<lambda>p. states_ok (User_Type us) as (tables_now p)"
  "\<lambda>user. restores as user \<and> (\<forall>evt \<in> set (recordedEvents user). serializable_event env (Serialize ms) evt)"
  for landed :: "nat \<Rightarrow> bool" and us :: "UUID \<Rightarrow> string" and as :: "(User, bytes) Fused" and ms :: "(user_msg, bytes) Fused"
    and env :: "user_msg pg_env"
proof unfold_locales
  fix p i
  assume "states_ok (User_Type us) as (tables_now p)" "pg_stored (User_Type us) as p i = None"
  with pg_Get_missing [OF this(2), of landed ms Background]
  show "\<exists>e p'. AggregateRepository_Get (pg_repo no_faults landed (User_Type us) as ms) Background i p = Some (Inl e, p') \<and>
      caused_by e ErrRootNotFound \<and> pg_stored (User_Type us) as p' = pg_stored (User_Type us) as p \<and>
      states_ok (User_Type us) as (tables_now p')"
    by (auto simp: pg_stored_def fun_eq_iff simp: ErrRootNotFound_def)
next
  fix p i r
  assume "states_ok (User_Type us) as (tables_now p)" "pg_stored (User_Type us) as p i = Some r"
  with pg_Get_found [OF this, of landed ms Background]
  show "\<exists>p'. AggregateRepository_Get (pg_repo no_faults landed (User_Type us) as ms) Background i p = Some (Inr r, p') \<and>
      pg_stored (User_Type us) as p' = pg_stored (User_Type us) as p \<and> states_ok (User_Type us) as (tables_now p')"
    by (auto simp: pg_stored_def fun_eq_iff)
next
  fix p and user :: User
  assume h: "states_ok (User_Type us) as (tables_now p)" "pg_stored (User_Type us) as p (user_id user) = None"
    "restores as user \<and> (\<forall>evt \<in> set (recordedEvents user). serializable_event env (Serialize ms) evt)"
    "recordedEvents user \<noteq> []" "length (recordedEvents user) < 2 ^ 32"
    "recordThat User_Apply (recordedEvents user) zero_User = (user, None)"
  have "version user = version_of (recordedEvents user)"
    using h(6) by (metis user.recordThat_okD at_base_simps(1) add.left_neutral zero_User_simps(1))
  from pg_Save_new [of "User_Type us" as p user env ms landed Background, OF h(1) _ h(4,5) this] h(2,3)
  show "\<exists>p'. AggregateRepository_Save (pg_repo no_faults landed (User_Type us) as ms) env Background user p = (None, flushed user, p') \<and>
      pg_stored (User_Type us) as p' (user_id user) = Some (flushed user) \<and> states_ok (User_Type us) as (tables_now p') \<and>
      (\<forall>j. us j \<noteq> us (user_id user) \<longrightarrow> pg_stored (User_Type us) as p' j = pg_stored (User_Type us) as p j)"
    by (simp, metis)
next
  fix p and user r :: User
  assume h: "states_ok (User_Type us) as (tables_now p)" "pg_stored (User_Type us) as p (user_id user) = Some r"
    "version user - version_of (recordedEvents user) \<noteq> version r"
  from pg_Save_stale [of "User_Type us" as p user r landed ms env Background, OF h(1) _ h(3)] h(1,2)
  show "\<exists>e p'. AggregateRepository_Save (pg_repo no_faults landed (User_Type us) as ms) env Background user p = (Some e, flushed user, p') \<and>
      caused_by e (Conflict \<lparr>Expected = version user - version_of (recordedEvents user), Actual = version r\<rparr>) \<and>
      pg_stored (User_Type us) as p' = pg_stored (User_Type us) as p \<and> states_ok (User_Type us) as (tables_now p')"
    by (auto simp: pg_stored_def fun_eq_iff)
qed

section \<open>The event store\<close>

text \<open>An event-sourced repository over the store: a root is the fold of its log, and every log folds.\<close>

definition pg_folded :: "('m, bytes) Fused \<Rightarrow> 'm pg_env \<Rightarrow> ('id, 'm, 'z) Type \<Rightarrow> pool \<Rightarrow> 'id \<Rightarrow> ('m, 'z) BaseRoot_scheme option" where
  "pg_folded serde env t p i = (let log = pg_log serde env (tables_now p) (String t i)
     in if log = [] then None else Some (at_base (version_of log) [] (fst (replay (Apply t) (map Message log) (Factory t ())))))"

definition logs_fold :: "('m, bytes) Fused \<Rightarrow> 'm pg_env \<Rightarrow> ('id, 'm, 'z) Type \<Rightarrow> pool \<Rightarrow> bool" where
  "logs_fold serde env t p \<longleftrightarrow> pg_ok serde env (tables_now p) \<and>
     (\<forall>i. snd (replay (Apply t) (map Message (pg_log serde env (tables_now p) (String t i))) (Factory t ())) = None)"

definition knows :: "('m, bytes) Fused \<Rightarrow> 'm pg_env \<Rightarrow> ('m, 'z) BaseRoot_scheme \<Rightarrow> bool" where
  "knows serde env root \<longleftrightarrow> (\<forall>evt \<in> set (recordedEvents root). serializable_event env (Serialize serde) evt) \<and>
     (\<forall>evt \<in> set (as_recorded env (version_of (recordedEvents root)) 0 (recordedEvents root)). reads_back serde env evt)"

lemma pg_log_short: "pg_ok serde env t \<Longrightarrow> length (pg_log serde env t sid) < 2 ^ 32"
  by (simp add: pg_ok_def tables_ok_def)

lemma pg_folded_get:
  assumes t: "aggregate_type t" and ok: "logs_fold serde env t p"
  shows "\<exists>p'. EventSourcedRepository_Get (pg_es_repo landed serde env t) Background i p =
      Some (case pg_folded serde env t p i of None \<Rightarrow> Inl ErrRootNotFound | Some r \<Rightarrow> Inr r, p') \<and>
    pg_folded serde env t p' = pg_folded serde env t p \<and> logs_fold serde env t p'"
proof -
  let ?log = "pg_log serde env (tables_now p) (String t i)"
  have pok: "pg_ok serde env (tables_now p)" using ok by (simp add: logs_fold_def)
  from ok obtain q where q: "replay (Apply t) (map Message ?log) (Factory t ()) = (q, None)"
    unfolding logs_fold_def by (metis prod.collapse)
  from event_sourced_reader.get_folds [OF pg_sourced_reader [OF t, of landed serde env] pg_Store_simps(2) pok refl q]
  obtain p' where get: "EventSourcedRepository_Get (pg_es_repo landed serde env t) Background i p =
      Some (if version_of ?log = 0 then Inl ErrRootNotFound else Inr (at_base (version_of ?log) [] q), p')"
    and p': "pg_log serde env (tables_now p') = pg_log serde env (tables_now p)" "pg_ok serde env (tables_now p')" by blast
  have "version_of ?log = (0 :: Version) \<longleftrightarrow> ?log = []"
    by (subst len32_eq_0_iff [OF pg_log_short [OF pok]]) (rule length_0_conv)
  with get p' ok q show ?thesis
    by (auto simp: pg_folded_def logs_fold_def fun_eq_iff Let_def)
qed

lemma pg_folded_save_new:
  assumes t: "aggregate_type t" and ok: "logs_fold serde env t p" and new: "pg_folded serde env t p (AggregateID t root) = None"
    and knows: "knows serde env root" and ne: "recordedEvents root \<noteq> []" and short: "length (recordedEvents root) < 2 ^ 32"
    and rec: "RecordThat t (recordedEvents root) (Factory t ()) = (root, None)"
  obtains p' where "EventSourcedRepository_Save (pg_es_repo landed serde env t) Background root p = (None, flushed root, p')"
    and "pg_folded serde env t p' (AggregateID t root) = Some (flushed root)" and "logs_fold serde env t p'"
    and "\<forall>j. String t j \<noteq> String t (AggregateID t root) \<longrightarrow> pg_folded serde env t p' j = pg_folded serde env t p j"
proof -
  let ?i = "AggregateID t root" and ?evts = "recordedEvents root"
  have pok: "pg_ok serde env (tables_now p)" using ok by (simp add: logs_fold_def)
  have empty: "pg_log serde env (tables_now p) (String t ?i) = []" using new by (simp add: pg_folded_def Let_def split: if_splits)
  then have loaded: "loaded landed serde env t ?i (Factory t ()) p" by (simp add: loaded_def)
  have "storable serde env (tables_now p) (String t ?i) ?evts"
    using knows short unfolding storable_def knows_def empty by simp
  from pg_save_succeeds [OF t pok loaded rec ne refl this] obtain p' where
    save: "EventSourcedRepository_Save (pg_es_repo landed serde env t) Background root p = (None, flushed root, p')"
    and log: "pg_log serde env (tables_now p') (String t ?i) = as_recorded env (version root) 0 ?evts"
    and p': "pg_ok serde env (tables_now p')" and v: "version root = version_of (pg_log serde env (tables_now p') (String t ?i))"
    and others: "\<And>sid. sid \<noteq> String t ?i \<Longrightarrow> pg_log serde env (tables_now p') sid = pg_log serde env (tables_now p) sid"
    unfolding empty append_Nil by metis
  have len: "length (pg_log serde env (tables_now p') (String t ?i)) = length ?evts"
    unfolding log using arg_cong [OF as_recorded_messages, of length env "version root" 0 ?evts] by simp
  have at0: "Factory t () = at_base (version_of []) [] (Factory t ())"
    using aggregate_type.fresh_factory [OF t] by (simp add: at_base_refl)
  from aggregate_type.record_on_fold [OF t _ at0 rec] obtain q where
    q: "replay (Apply t) (map Message ?evts) (Factory t ()) = (q, None)" "root = at_base (version_of ?evts) ?evts q" by auto
  have msgs: "map Message (pg_log serde env (tables_now p') (String t ?i)) = map Message ?evts"
    by (simp only: log as_recorded_messages)
  have "pg_log serde env (tables_now p') (String t ?i) \<noteq> []" using len ne by (metis length_0_conv)
  moreover have "flushed root = at_base (version_of ?evts) [] q" 
    using arg_cong [OF q(2), of version] arg_cong [OF q(2), of "at_base (version_of ?evts) []"] by simp
  ultimately have "pg_folded serde env t p' ?i = Some (flushed root)"
    unfolding pg_folded_def Let_def msgs q(1) len by simp
  moreover have "logs_fold serde env t p'"
    unfolding logs_fold_def
  proof (intro conjI allI p')
    fix j
    show "snd (replay (Apply t) (map Message (pg_log serde env (tables_now p') (String t j))) (Factory t ())) = None"
      using ok others [of "String t j"] msgs q(1) by (cases "String t j = String t ?i") (auto simp: logs_fold_def)
  qed
  ultimately show thesis using that save others by (simp add: pg_folded_def)
qed

lemma pg_folded_save_stale:
  assumes t: "aggregate_type t" and ok: "logs_fold serde env t p" and st: "pg_folded serde env t p (AggregateID t root) = Some r"
    and ne: "recordedEvents root \<noteq> []" and v: "version root - version_of (recordedEvents root) \<noteq> version r"
  shows "\<exists>e p'. EventSourcedRepository_Save (pg_es_repo landed serde env t) Background root p = (Some e, flushed root, p') \<and>
    caused_by e (Conflict \<lparr>Expected = version root - version_of (recordedEvents root), Actual = version r\<rparr>) \<and>
    pg_folded serde env t p' = pg_folded serde env t p \<and> logs_fold serde env t p'"
proof -
  have vr: "version r = version_of (pg_log serde env (tables_now p) (String t (AggregateID t root)))"
    using st by (auto simp: pg_folded_def Let_def split: if_splits)
  have pok: "pg_ok serde env (tables_now p)" using ok by (simp add: logs_fold_def)
  from pg_save_conflicts [OF pok ne t v [unfolded vr], of landed] obtain e p' where
    "EventSourcedRepository_Save (pg_es_repo landed serde env t) Background root p = (Some e, flushed root, p')"
    "caused_by e (Conflict \<lparr>Expected = version root - version_of (recordedEvents root), Actual = version r\<rparr>)"
    "tables_now p' = tables_now p" unfolding vr by blast
  with ok show ?thesis by (auto simp: pg_folded_def logs_fold_def fun_eq_iff)
qed

interpretation pg_es_users: user_suite
  "EventSourcedRepository_Get (pg_es_repo landed ms env (User_Type us))"
  "EventSourcedRepository_Save (pg_es_repo landed ms env (User_Type us))" us
  "pg_folded ms env (User_Type us)" "logs_fold ms env (User_Type us)" "knows ms env"
  for landed :: "nat \<Rightarrow> bool" and us :: "UUID \<Rightarrow> string" and ms :: "(user_msg, bytes) Fused" and env :: "user_msg pg_env"
proof unfold_locales
  fix p i
  assume "logs_fold ms env (User_Type us) p" "pg_folded ms env (User_Type us) p i = None"
  with pg_folded_get [OF user_type.aggregate_type_axioms this(1), of landed i]
  show "\<exists>e p'. EventSourcedRepository_Get (pg_es_repo landed ms env (User_Type us)) Background i p = Some (Inl e, p') \<and>
      caused_by e ErrRootNotFound \<and> pg_folded ms env (User_Type us) p' = pg_folded ms env (User_Type us) p \<and>
      logs_fold ms env (User_Type us) p'"
    by (auto simp: ErrRootNotFound_def)
next
  fix p i r
  assume "logs_fold ms env (User_Type us) p" "pg_folded ms env (User_Type us) p i = Some r"
  with pg_folded_get [OF user_type.aggregate_type_axioms this(1), of landed i]
  show "\<exists>p'. EventSourcedRepository_Get (pg_es_repo landed ms env (User_Type us)) Background i p = Some (Inr r, p') \<and>
      pg_folded ms env (User_Type us) p' = pg_folded ms env (User_Type us) p \<and> logs_fold ms env (User_Type us) p'"
    by auto
next
  fix p and user :: User
  assume h: "logs_fold ms env (User_Type us) p" "pg_folded ms env (User_Type us) p (user_id user) = None" "knows ms env user"
    "recordedEvents user \<noteq> []" "length (recordedEvents user) < 2 ^ 32"
    "recordThat User_Apply (recordedEvents user) zero_User = (user, None)"
  from h(6) have "RecordThat (User_Type us) (recordedEvents user) (Factory (User_Type us) ()) = (user, None)"
    by (simp add: RecordThat_def)
  from pg_folded_save_new [OF user_type.aggregate_type_axioms h(1) _ h(3-5) this, of landed] h(2)
  show "\<exists>p'. EventSourcedRepository_Save (pg_es_repo landed ms env (User_Type us)) Background user p = (None, flushed user, p') \<and>
      pg_folded ms env (User_Type us) p' (user_id user) = Some (flushed user) \<and> logs_fold ms env (User_Type us) p' \<and>
      (\<forall>j. us j \<noteq> us (user_id user) \<longrightarrow> pg_folded ms env (User_Type us) p' j = pg_folded ms env (User_Type us) p j)"
    by (simp, metis)
next
  fix p and user r :: User
  assume h: "logs_fold ms env (User_Type us) p" "pg_folded ms env (User_Type us) p (user_id user) = Some r"
    "recordedEvents user \<noteq> []" "version user - version_of (recordedEvents user) \<noteq> version r"
  from pg_folded_save_stale [OF user_type.aggregate_type_axioms h(1) _ h(3,4), of landed] h(2)
  show "\<exists>e p'. EventSourcedRepository_Save (pg_es_repo landed ms env (User_Type us)) Background user p = (Some e, flushed user, p') \<and>
      caused_by e (Conflict \<lparr>Expected = version user - version_of (recordedEvents user), Actual = version r\<rparr>) \<and>
      pg_folded ms env (User_Type us) p' = pg_folded ms env (User_Type us) p \<and> logs_fold ms env (User_Type us) p'"
    by simp
qed

interpretation pg_appends: user_appender
  "pg_EventStore_Append (NewEventStore (engine no_faults landed) ms) env" "\<lambda>p sid. length (rows_of (tables_now p) sid)"
  "\<lambda>p. tables_ok (tables_now p)" "serializable_event env (Serialize ms)"
  for landed :: "nat \<Rightarrow> bool" and ms :: "(user_msg, bytes) Fused" and env :: "user_msg pg_env"
proof unfold_locales
  fix p :: pool and sid and evts :: "user_msg Envelope list"
  let ?n = "length (rows_of (tables_now p) sid)"
  assume h: "tables_ok (tables_now p)" "evts \<noteq> []" "?n + length evts < 2 ^ 32" "\<forall>evt \<in> set evts. serializable_event env (Serialize ms) evt"
  from pg_EventStore_Append_succeeds [OF h(1,4,2,3), of CheckAny landed Background] obtain p' where
    p': "pg_EventStore_Append (NewEventStore (engine no_faults landed) ms) env Background sid CheckAny evts p =
      ((word_of_nat (?n + length evts), None), p')" "tables_ok (tables_now p')"
    and ap: "appended env (Serialize ms) sid (word_of_nat ?n) evts (tables_now p) = Some (tables_now p')" by auto
  have "word_of_nat ?n + version_of evts = (word_of_nat (?n + length evts) :: Version)" by simp
  then have "event_streams (tables_now p') sid = Some (uint (word_of_nat (?n + length evts) :: Version))"
    using appended_streams [OF ap] by simp
  also have "\<dots> = Some (int (?n + length evts))" using h(3) by (simp only: uint_len32)
  finally have "length (rows_of (tables_now p') sid) = ?n + length evts"
    using p'(2) unfolding tables_ok_def by (metis of_nat_eq_iff option.distinct(1) option.inject)
  with p' show "\<exists>p'. pg_EventStore_Append (NewEventStore (engine no_faults landed) ms) env Background sid CheckAny evts p =
      ((word_of_nat (?n + length evts), None), p') \<and>
      length (rows_of (tables_now p') sid) = ?n + length evts \<and> tables_ok (tables_now p')" by blast
qed

section \<open>The user's serdes\<close>

text \<open>
  A serde that is fused from functions of the code; where the deserializer panics nothing is said of it.
\<close>

definition fuses :: "('src, 'dst) Fused \<Rightarrow> ('src, 'dst) Serializer \<Rightarrow> ('dst \<Rightarrow> (error + 'src) option) \<Rightarrow> bool" where
  "fuses serde serializer deserializer \<longleftrightarrow> Serialize serde = serializer \<and>
     (\<forall>data r. deserializer data = Some r \<longrightarrow> Deserialize serde data = r)"

definition suite_users :: "UUID \<Rightarrow> UUID \<Rightarrow> Time \<Rightarrow> string \<Rightarrow> User list" where
  "suite_users i1 i2 now stamp = [john i1 now, renamed_john i2 now stamp]"

definition suite_events :: "UUID \<Rightarrow> UUID \<Rightarrow> UUID \<Rightarrow> Time \<Rightarrow> Time \<Rightarrow> string \<Rightarrow> user_msg Envelope list" where
  "suite_events i1 i2 i3 now repository_now stamp =
     concat (map recordedEvents (suite_users i1 i2 repository_now stamp)) @ dani i3 now @ dani_later i3 now"

text \<open>\<open>encoding/json\<close> on the metadata the store records with the events of a user.\<close>

definition metadata_survives :: "'m pg_env \<Rightarrow> ('m, 'z) BaseRoot_scheme \<Rightarrow> bool" where
  "metadata_survives env root \<longleftrightarrow>
     (\<forall>evt \<in> set (as_recorded env (version_of (recordedEvents root)) 0 (recordedEvents root)).
        \<forall>m data. Metadata evt = Some m \<longrightarrow> json_Marshal env m = Inr data \<longrightarrow> json_Unmarshal env data = Inr (Some m))"

lemma chain_restores:
  assumes "fuses s ser deser" and "ser x = Inr pb" and "round_trips valid s'" and "valid pb"
  shows "\<exists>data. Serialize (Chained_as_Serde (Chain s s')) x = Inr data \<and>
    (\<forall>y. deser pb = Some (Inr y) \<longrightarrow> Deserialize (Chained_as_Serde (Chain s s')) data = Inr y)"
proof -
  obtain data where "Serialize s' pb = Inr data" "Deserialize s' data = Inr pb" using assms(3,4) by (elim round_tripsE)
  with assms(1,2) show ?thesis by (auto simp: fuses_def go_defs Chained_Serialize_def Chained_Deserialize_def)
qed

lemma epoch_birth_day: "year_fits epoch" "birth_day epoch = epoch"
  by (simp_all add: epoch_def year_fits_def time_Year_def time_Date_of_def local_day_def year_yday_def birth_day_def
      midnight_UTC_def split_def)

lemma user_restores:
  assumes uuids: "\<And>i. uuid_Parse (us i) = Inr i" and serde: "fuses user_serde (protoSerializer us) (protoDeserializer uuid_Parse)"
    and json: "round_trips (\<lambda>pb. protoSerializer us user = Inr pb) user_json" and birth: "user_birthDate user = epoch"
  shows "restores (Chained_as_Serde (Chain user_serde user_json)) user"
proof -
  obtain pb where pb: "protoSerializer us (flushed user) = Inr pb" by (simp add: protoSerializer_def)
  then have "protoSerializer us user = Inr pb" by (simp add: protoSerializer_def)
  from chain_restores [OF serde pb json this] obtain data where
    data: "Serialize (Chained_as_Serde (Chain user_serde user_json)) (flushed user) = Inr data"
      "\<forall>y. protoDeserializer uuid_Parse pb = Some (Inr y) \<longrightarrow> Deserialize (Chained_as_Serde (Chain user_serde user_json)) data = Inr y"
    by blast
  have "protoDeserializer uuid_Parse pb = Some (Inr (flushed user\<lparr>version := 0, recordedEvents := [], user_birthDate := epoch\<rparr>))"
    using user_round_trip [of uuid_Parse us "flushed user", OF uuids] pb epoch_birth_day by (simp add: birth)
  with data birth show ?thesis
    by (auto simp: restores_def go_defs at_base_def)
qed

text \<open>The events of the suites have a kind; those of users that are loaded again read back as they are.\<close>

lemma suite_messages:
  "evt \<in> set (suite_events i1 i2 i3 now repository_now stamp) \<Longrightarrow> \<exists>i t k. Message evt = UserEvent \<lparr>evt_ID = i, evt_RecordTime = t, evt_Kind = Some k\<rparr>"
  "user \<in> set (suite_users i1 i2 repository_now stamp) \<Longrightarrow> evt \<in> set (recordedEvents user) \<Longrightarrow>
     \<exists>i k. Message evt = UserEvent \<lparr>evt_ID = i, evt_RecordTime = repository_now, evt_Kind = Some k\<rparr> \<and> kind_fits k \<and> stored_kind k = k"
  by (auto simp: suite_events_def suite_users_def dani_def dani_later_def created_def updated_def go_defs epoch_birth_day)

definition keeps_events :: "(user_msg, bytes) Fused \<Rightarrow> user_msg Envelope list \<Rightarrow> bool" where
  "keeps_events ms evts \<longleftrightarrow> (\<forall>evt \<in> set evts. \<forall>i t k. Message evt = UserEvent \<lparr>evt_ID = i, evt_RecordTime = t, evt_Kind = Some k\<rparr> \<longrightarrow>
     (\<exists>data. Serialize ms (Message evt) = Inr data \<and>
       (kind_fits k \<and> stored_kind k = k \<and> in_UTC t = t \<longrightarrow> Deserialize ms data = Inr (Message evt))))"

lemma chain_keeps_events:
  assumes uuids: "\<And>i. uuid_Parse (us i) = Inr i" and times: "\<And>t. AsTime (Some (timestamp_New t)) = in_UTC t"
    and serde: "fuses event_serde (protoEventSerializer us timestamp_New) (protoEventDeserializer uuid_Parse AsTime)"
    and json: "round_trips (\<lambda>pb. \<exists>evt \<in> set evts. protoEventSerializer us timestamp_New (Message evt) = Inr pb) event_json"
  shows "keeps_events (Chained_as_Serde (Chain event_serde event_json)) evts"
  unfolding keeps_events_def
proof (intro ballI allI impI)
  let ?serde = "Chained_as_Serde (Chain event_serde event_json)"
  fix evt i t k
  assume evt: "evt \<in> set evts" "Message evt = UserEvent \<lparr>evt_ID = i, evt_RecordTime = t, evt_Kind = Some k\<rparr>"
  then obtain pb where pb: "protoEventSerializer us timestamp_New (Message evt) = Inr pb" by (cases k) auto
  with evt(1) have "\<exists>evt \<in> set evts. protoEventSerializer us timestamp_New (Message evt) = Inr pb" by blast
  from chain_restores [OF serde pb json this] obtain data where
    data: "Serialize ?serde (Message evt) = Inr data"
      "\<forall>y. protoEventDeserializer uuid_Parse AsTime pb = Some (Inr y) \<longrightarrow> Deserialize ?serde data = Inr y" by blast
  have "protoEventDeserializer uuid_Parse AsTime pb = Some (Inr (Message evt))" if "kind_fits k \<and> stored_kind k = k \<and> in_UTC t = t"
    using event_round_trip [of uuid_Parse us AsTime timestamp_New k i t, OF uuids times] that pb evt(2) by simp
  with data show "\<exists>data. Serialize ?serde (Message evt) = Inr data \<and>
      (kind_fits k \<and> stored_kind k = k \<and> in_UTC t = t \<longrightarrow> Deserialize ?serde data = Inr (Message evt))" by blast
qed

lemma keeps_events_serializable:
  assumes "keeps_events ms evts" and "evt \<in> set evts"
    and "Message evt = UserEvent \<lparr>evt_ID = i, evt_RecordTime = t, evt_Kind = Some k\<rparr>" and "\<forall>m. \<exists>data. json_Marshal env m = Inr data"
  shows "serializable_event env (Serialize ms) evt"
  using assms unfolding keeps_events_def serializable_event_def by blast

lemma keeps_events_knows:
  assumes ms: "keeps_events ms evts" and users: "user \<in> set (suite_users i1 i2 now stamp)" "set (recordedEvents user) \<subseteq> set evts"
    and env: "metadata_survives env user" "\<forall>m. \<exists>data. json_Marshal env m = Inr data" and now: "in_UTC now = now"
  shows "knows ms env user"
  unfolding knows_def
proof (intro conjI ballI)
  fix evt
  assume "evt \<in> set (recordedEvents user)"
  with suite_messages(2) [OF users(1) this] users(2) keeps_events_serializable [OF ms _ _ env(2)]
  show "serializable_event env (Serialize ms) evt" by blast
next
  fix evt
  assume evt: "evt \<in> set (as_recorded env (version_of (recordedEvents user)) 0 (recordedEvents user))"
  then have "Message evt \<in> Message ` set (recordedEvents user)"
    by (metis as_recorded_messages image_eqI list.set_map)
  then obtain evt' where evt': "evt' \<in> set (recordedEvents user)" "Message evt = Message evt'" by blast
  from suite_messages(2) [OF users(1) this(1)] obtain i k where
    m: "Message evt' = UserEvent \<lparr>evt_ID = i, evt_RecordTime = now, evt_Kind = Some k\<rparr>" "kind_fits k \<and> stored_kind k = k" by blast
  from evt'(1) users(2) have "evt' \<in> set evts" by blast
  with ms m now evt'(2)
  have "\<forall>data. Serialize ms (Message evt) = Inr data \<longrightarrow> Deserialize ms data = Inr (Message evt)"
    by (fastforce simp: keeps_events_def)
  moreover have "json_Unmarshal env data = Inr (Metadata evt)" if "serializeMetadata env (Metadata evt) = Inr (Some data)" for data
    using that evt env(1) by (auto simp: serializeMetadata_def metadata_survives_def split: option.splits sum.splits)
  ultimately show "reads_back ms env evt" by (simp add: reads_back_def)
qed

section \<open>The tests\<close>

definition test_AggregateRepository ::
  "('tx, 'db) pgx \<Rightarrow> (UUID \<Rightarrow> string) \<Rightarrow> (User, 'u) Fused \<Rightarrow> ('u, bytes) Fused \<Rightarrow> (user_msg, 'e) Fused \<Rightarrow> ('e, bytes) Fused \<Rightarrow>
   user_msg pg_env \<Rightarrow> UUID \<Rightarrow> UUID \<Rightarrow> Time \<Rightarrow> string \<Rightarrow> 'db \<Rightarrow> (bool \<times> 'db) option" where
  "test_AggregateRepository conn us user_serde user_json event_serde event_json env i1 i2 now stamp =
     (let repository = NewAggregateRepository conn (User_Type us) (Chained_as_Serde (Chain user_serde user_json))
            (Chained_as_Serde (Chain event_serde event_json))
            [WithAggregateTableName DefaultAggregateTableName, WithEventsTableName DefaultEventsTableName,
             WithStreamsTableName DefaultStreamsTableName]
      in AggregateRepositorySuite \<lparr>Get = AggregateRepository_Get repository, Save = AggregateRepository_Save repository env\<rparr> i1 i2 now stamp)"

definition test_EventStore ::
  "('tx, 'db) pgx \<Rightarrow> (UUID \<Rightarrow> string) \<Rightarrow> (user_msg, 'e) Fused \<Rightarrow> ('e, bytes) Fused \<Rightarrow> user_msg pg_env \<Rightarrow>
   UUID \<Rightarrow> UUID \<Rightarrow> UUID \<Rightarrow> Time \<Rightarrow> Time \<Rightarrow> string \<Rightarrow> 'db \<Rightarrow> (bool \<times> 'db) option" where
  "test_EventStore conn us event_serde event_json env i1 i2 i3 now repository_now stamp =
     (let es = NewEventStore conn (Chained_as_Serde (Chain event_serde event_json))
      in EventStoreSuite \<lparr>Append = pg_EventStore_Append es env, Stream = pg_EventStore_Stream es env\<rparr> us i1 i2 i3 now repository_now stamp)"

lemma aggregate_repository_suite:
  assumes "us i1 \<noteq> us i2" and "restores as (john i1 now)" and "restores as (renamed_john i2 now stamp)"
    and "\<forall>user \<in> set (suite_users i1 i2 now stamp). \<forall>evt \<in> set (recordedEvents user). serializable_event env (Serialize ms) evt"
  shows "\<exists>p. AggregateRepositorySuite \<lparr>Get = AggregateRepository_Get (pg_repo no_faults landed (User_Type us) as ms),
      Save = AggregateRepository_Save (pg_repo no_faults landed (User_Type us) as ms) env\<rparr> i1 i2 now stamp fresh_pool = Some (True, p)"
proof -
  have ok: "states_ok (User_Type us) as (tables_now fresh_pool)"
    using tables_ok_no_tables by (simp add: states_ok_def fresh_pool_def aligned_def no_tables_def rows_of_def)
  have none: "pg_stored (User_Type us) as fresh_pool i = None" for i
    by (simp add: pg_stored_def fresh_pool_def no_tables_def)
  from assms(4) have ser: "\<forall>evt \<in> set (recordedEvents (john i1 now)). serializable_event env (Serialize ms) evt"
    "\<forall>evt \<in> set (recordedEvents (renamed_john i2 now stamp)). serializable_event env (Serialize ms) evt"
    by (simp_all add: suite_users_def)
  from pg_users.suite_passes [OF ok none none assms(1) conjI [OF assms(2) ser(1)] conjI [OF assms(3) ser(2)], of landed]
  show thesis: ?thesis by blast
qed

lemma event_store_suite:
  assumes "distinct [us i1, us i2, us i3]" and "\<not> IsZero now" and "\<forall>evt \<in> set (dani i3 now @ dani_later i3 now). serializable_event env (Serialize ms) evt"
    and "knows ms env (john i1 repository_now)" and "knows ms env (renamed_john i2 repository_now stamp)"
  shows "\<exists>p. EventStoreSuite (pg_Store no_faults landed ms env) us i1 i2 i3 now repository_now stamp fresh_pool = Some (True, p)"
proof -
  let ?repo = "pg_es_repo landed ms env (User_Type us)"
  have empty: "pg_log ms env (tables_now fresh_pool) sid = []" for sid
    by (simp add: pg_log_def rows_of_def fresh_pool_def no_tables_def)
  have ok: "logs_fold ms env (User_Type us) fresh_pool"
    using tables_ok_no_tables by (simp add: logs_fold_def empty pg_ok_def) (simp add: fresh_pool_def no_tables_def)
  have none: "pg_folded ms env (User_Type us) fresh_pool i = None" for i by (simp add: pg_folded_def empty)
  have "us i1 \<noteq> us i2" using assms(1) by simp
  from pg_es_users.suite_passes [OF ok none none this assms(4,5), of landed] obtain p1 where
    suite: "AggregateRepositorySuite \<lparr>Get = EventSourcedRepository_Get ?repo, Save = EventSourcedRepository_Save ?repo\<rparr>
      i1 i2 repository_now stamp fresh_pool = Some (True, p1)" and p1: "logs_fold ms env (User_Type us) p1"
      "\<forall>j. us j \<noteq> us i1 \<and> us j \<noteq> us i2 \<longrightarrow> pg_folded ms env (User_Type us) p1 j = None"
    using none by metis
  from p1 assms(1) have "tables_ok (tables_now p1)" "pg_log ms env (tables_now p1) (us i3) = []"
    by (auto simp: logs_fold_def pg_ok_def pg_folded_def Let_def split: if_splits)
  then have "tables_ok (tables_now p1)" "length (rows_of (tables_now p1) (us i3)) = 0" by (simp_all add: pg_log_def)
  from pg_appends.append_any_passes [where us = us and i = i3 and st = p1, OF this assms(2,3), of landed] obtain p2 where
    "append_any_test (pg_Store no_faults landed ms env) us i3 now p1 = (True, p2)"
    by (auto simp: pg_Store_def Let_def)
  with suite show ?thesis by (simp add: EventStoreSuite_def EventSourcedRepository_Repository_def)
qed

text \<open>C36: The integration tests of the PostgreSQL package pass: on migrated tables, while the database does not fail, the suite
  for aggregate repositories passes on the aggregate repository, and the suite for event stores on the event store, with the
  user's protobuf serdes chained to ProtoJSON, whatever identifiers are drawn and whatever UTC time the clock shows; provided ProtoJSON reads the suites'
  messages back, JSON their metadata, and parsing the text of an identifier or the time of a timestamp gives it back.\<close>

theorem postgres_suites_pass:
  assumes "\<And>i. uuid_Parse (us i) = Inr i" and "distinct [i1, i2, i3]"
    and "\<And>t. AsTime (Some (timestamp_New t)) = in_UTC t" and "in_UTC repository_now = repository_now" and "\<not> IsZero now"
    and "fuses user_serde (protoSerializer us) (protoDeserializer uuid_Parse)"
    and "round_trips (\<lambda>pb. \<exists>user \<in> set (suite_users i1 i2 repository_now stamp). protoSerializer us user = Inr pb) user_json"
    and "fuses event_serde (protoEventSerializer us timestamp_New) (protoEventDeserializer uuid_Parse AsTime)"
    and "round_trips (\<lambda>pb. \<exists>evt \<in> set (suite_events i1 i2 i3 now repository_now stamp).
           protoEventSerializer us timestamp_New (Message evt) = Inr pb) event_json"
    and "\<forall>m. \<exists>data. json_Marshal env m = Inr data"
    and "\<forall>user \<in> set (suite_users i1 i2 repository_now stamp). metadata_survives env user"
  shows "(\<exists>p. test_AggregateRepository (engine no_faults landed) us user_serde user_json event_serde event_json env
            i1 i2 repository_now stamp fresh_pool = Some (True, p)) \<and>
     (\<exists>p. test_EventStore (engine no_faults landed) us event_serde event_json env i1 i2 i3 now repository_now stamp fresh_pool =
            Some (True, p))"
proof -
  let ?as = "Chained_as_Serde (Chain user_serde user_json)" and ?ms = "Chained_as_Serde (Chain event_serde event_json)"
  let ?users = "suite_users i1 i2 repository_now stamp" and ?evts = "suite_events i1 i2 i3 now repository_now stamp"
  have "inj us" by (rule inj_on_inverseI [of _ "\<lambda>s. projr (uuid_Parse s)"]) (simp add: assms(1))
  then have ids: "distinct [us i1, us i2, us i3]" using assms(2) by (simp add: inj_eq)
  have ms: "keeps_events ?ms ?evts" using assms(1,3,8,9) by (rule chain_keeps_events)
  have ser: "\<forall>evt \<in> set ?evts. serializable_event env (Serialize ?ms) evt"
    using suite_messages(1) keeps_events_serializable [OF ms _ _ assms(10)] by blast
  have sub: "set (recordedEvents user) \<subseteq> set ?evts" if "user \<in> set ?users" for user
    using that by (auto simp: suite_events_def)
  have knows: "knows ?ms env user" if "user \<in> set ?users" for user
    using keeps_events_knows [OF ms that sub [OF that] _ assms(10,4)] assms(11) that by blast
  have restores: "restores ?as user" if "user \<in> set ?users" "user_birthDate user = epoch" for user
    using user_restores [OF assms(1,6) _ that(2), of user_json] assms(7) that(1) by (auto simp: round_trips_def)
  have birth: "user_birthDate (john i1 repository_now) = epoch" "user_birthDate (renamed_john i2 repository_now stamp) = epoch"
    by (simp_all add: john_def renamed_john_def new_user_def with_email_def)
  have mem: "john i1 repository_now \<in> set ?users" "renamed_john i2 repository_now stamp \<in> set ?users" by (simp_all add: suite_users_def)
  have "us i1 \<noteq> us i2" using ids by simp
  moreover have "\<forall>user \<in> set ?users. \<forall>evt \<in> set (recordedEvents user). serializable_event env (Serialize ?ms) evt"
    using ser sub by blast
  ultimately have "\<exists>p. AggregateRepositorySuite \<lparr>Get = AggregateRepository_Get (pg_repo no_faults landed (User_Type us) ?as ?ms),
      Save = AggregateRepository_Save (pg_repo no_faults landed (User_Type us) ?as ?ms) env\<rparr> i1 i2 repository_now stamp fresh_pool = Some (True, p)"
    by (rule aggregate_repository_suite [OF _ restores [OF mem(1) birth(1)] restores [OF mem(2) birth(2)]])
  then have "\<exists>p. test_AggregateRepository (engine no_faults landed) us user_serde user_json event_serde event_json env
      i1 i2 repository_now stamp fresh_pool = Some (True, p)"
    by (auto simp: test_AggregateRepository_def Let_def NewAggregateRepository_def WithAggregateTableName_def WithEventsTableName_def
        WithStreamsTableName_def)
  moreover from ser have "\<forall>evt \<in> set (dani i3 now @ dani_later i3 now). serializable_event env (Serialize ?ms) evt"
    by (simp add: suite_events_def)
  from event_store_suite [OF ids assms(5) this knows [OF mem(1)] knows [OF mem(2)], of landed]
  have "\<exists>p. test_EventStore (engine no_faults landed) us event_serde event_json env i1 i2 i3 now repository_now stamp fresh_pool = Some (True, p)"
    by (simp add: test_EventStore_def pg_Store_def Let_def)
  ultimately show ?thesis ..
qed

section \<open>A sample\<close>

text \<open>An encoding of the members of a list by their position, and serdes and metadata on it.\<close>

definition code_of :: "'a list \<Rightarrow> 'a \<Rightarrow> error + bytes" where
  "code_of xs x = Inr (map (\<lambda>_. 0) (takeWhile (\<lambda>y. y \<noteq> x) xs))"

definition coded_by :: "'a list \<Rightarrow> bytes \<Rightarrow> 'a" where
  "coded_by xs data = xs ! length data"

lemma coded_by_code_of: "x \<in> set xs \<Longrightarrow> code_of xs x = Inr data \<Longrightarrow> coded_by xs data = x"
proof (induction xs arbitrary: data)
  case (Cons y xs)
  then show ?case by (cases "y = x") (auto simp: code_of_def coded_by_def)
qed simp

lemma in_set_concat_map: "x \<in> set xs \<Longrightarrow> y \<in> set (f x) \<Longrightarrow> y \<in> set (concat (map f xs))"
  by auto

definition listed_json :: "'a list \<Rightarrow> ('a, bytes) Fused" where
  "listed_json xs = NewProtoJSON (code_of xs) (\<lambda>data _. Inr (coded_by xs data)) (\<lambda>_. hd xs)"

lemma listed_json_round_trips: "(\<And>x. valid x \<Longrightarrow> x \<in> set xs) \<Longrightarrow> round_trips valid (listed_json xs)"
  unfolding listed_json_def by (rule round_trips_New(3)) (use coded_by_code_of in \<open>fastforce simp: code_of_def\<close>)

definition fused :: "('src, 'dst) Serializer \<Rightarrow> ('dst \<Rightarrow> (error + 'src) option) \<Rightarrow> ('src, 'dst) Fused" where
  "fused serializer deserializer =
     \<lparr>Serialize = serializer, Deserialize = (\<lambda>data. case deserializer data of None \<Rightarrow> Inl (Sentinel ''panic'') | Some r \<Rightarrow> r)\<rparr>"

lemma fuses_fused: "fuses (fused ser deser) ser deser"
  by (simp add: fuses_def fused_def)

definition noon_env :: "Metadata list \<Rightarrow> user_msg pg_env" where
  "noon_env ms = \<lparr>message_Name = (\<lambda>_. []), recorded_at = (\<lambda>_. ''noon''), json_Marshal = (\<lambda>m. code_of ms (Some m)),
     json_Unmarshal = (\<lambda>data. Inr (coded_by ms data))\<rparr>"

lemma as_recorded_noon: "as_recorded (noon_env ms) v i evts = as_recorded (noon_env []) v i evts"
  by (induction evts arbitrary: i) (simp_all add: enrichedMetadata_def noon_env_def)

abbreviation sample_users :: "User list" where
  "sample_users \<equiv> suite_users 1 2 epoch ''now''"

abbreviation sample_user_json :: "(pb_User, bytes) Fused" where
  "sample_user_json \<equiv> listed_json (map (\<lambda>user. projr (protoSerializer unary user)) sample_users)"

abbreviation sample_event_json :: "(Time pb_Event, bytes) Fused" where
  "sample_event_json \<equiv> listed_json
     (map (\<lambda>evt. projr (protoEventSerializer unary (\<lambda>t. t) (Message evt))) (suite_events 1 2 3 epoch epoch ''now''))"

definition sample_user_env :: "user_msg pg_env" where
  "sample_user_env = noon_env (concat (map (\<lambda>user.
     map Metadata (as_recorded (noon_env []) (version_of (recordedEvents user)) 0 (recordedEvents user))) sample_users))"

abbreviation sample_as_time :: "Time option \<Rightarrow> Time" where
  "sample_as_time ts \<equiv> in_UTC (the ts)"

theorem postgres_suites_pass_witness:
  "(\<exists>p. test_AggregateRepository (engine no_faults (\<lambda>_. True)) unary (fused (protoSerializer unary) (protoDeserializer parse_unary))
        sample_user_json (fused (protoEventSerializer unary (\<lambda>t. t)) (protoEventDeserializer parse_unary sample_as_time)) sample_event_json
        sample_user_env 1 2 epoch ''now'' fresh_pool = Some (True, p)) \<and>
   (\<exists>p. test_EventStore (engine no_faults (\<lambda>_. True)) unary
        (fused (protoEventSerializer unary (\<lambda>t. t)) (protoEventDeserializer parse_unary sample_as_time)) sample_event_json
        sample_user_env 1 2 3 epoch epoch ''now'' fresh_pool = Some (True, p))"
proof (rule postgres_suites_pass [OF parse_unary_unary _ _ _ not_zero_epoch fuses_fused _ fuses_fused])
  show "distinct [1, 2, 3 :: UUID]" by simp
  show "in_UTC epoch = epoch" by (simp add: in_UTC_def epoch_def)
  show "sample_as_time (Some t) = in_UTC t" for t by simp
  show "round_trips (\<lambda>pb. \<exists>user \<in> set sample_users. protoSerializer unary user = Inr pb) sample_user_json"
    by (rule listed_json_round_trips) force
  show "round_trips (\<lambda>pb. \<exists>evt \<in> set (suite_events 1 2 3 epoch epoch ''now'').
      protoEventSerializer unary (\<lambda>t. t) (Message evt) = Inr pb) sample_event_json"
    by (rule listed_json_round_trips) force
  show "\<forall>m. \<exists>data. json_Marshal sample_user_env m = Inr data"
    by (simp add: sample_user_env_def noon_env_def code_of_def)
  show "\<forall>user \<in> set sample_users. metadata_survives sample_user_env user"
  proof (intro ballI, unfold metadata_survives_def, intro ballI allI impI)
    let ?ms = "concat (map (\<lambda>user. map Metadata (as_recorded (noon_env []) (version_of (recordedEvents user)) 0 (recordedEvents user))) sample_users)"
    fix user evt m data
    assume user: "user \<in> set sample_users" and evt: "evt \<in> set (as_recorded sample_user_env (version_of (recordedEvents user)) 0 (recordedEvents user))"
      and m: "Metadata evt = Some m" "json_Marshal sample_user_env m = Inr data"
    from evt have "Metadata evt \<in> set (map Metadata (as_recorded (noon_env []) (version_of (recordedEvents user)) 0 (recordedEvents user)))"
      unfolding sample_user_env_def as_recorded_noon [of ?ms] list.set_map by (rule imageI)
    then have "Metadata evt \<in> set ?ms" by (rule in_set_concat_map [OF user])
    with m have "coded_by ?ms data = Some m" by (intro coded_by_code_of) (simp_all only: sample_user_env_def noon_env_def, simp)
    then show "json_Unmarshal sample_user_env data = Inr (Some m)" by (simp add: sample_user_env_def noon_env_def)
  qed
qed

end
