(* ===== verification/Postgres_Migration.thy ===== *)
theory Postgres_Migration
  imports Go_Errors
begin

text \<open>
  \<open>postgres/migration.go\<close>: running the embedded schema migrations. The library golang-migrate and its drivers are
  parameters: opening the embedded files, opening the database \<open>'db\<close> with a configuration, joining both to a
  migration, and applying what is pending.
\<close>

record migrate_Config =
  MigrationsTable :: string
  DatabaseName :: string
  SchemaName :: string
  StatementTimeout :: int
  MigrationsTableQuoted :: bool
  MultiStatementEnabled :: bool
  MultiStatementMaxSize :: int

record ('src, 'drv, 'mig, 'db) migrate_api =
  iofs_New :: "string \<Rightarrow> error + 'src"
  WithInstance :: "migrate_Config \<Rightarrow> 'db \<Rightarrow> (error + 'drv) \<times> 'db"
  NewWithInstance :: "string \<Rightarrow> 'src \<Rightarrow> string \<Rightarrow> 'drv \<Rightarrow> error + 'mig"
  Up :: "'mig \<Rightarrow> 'db \<Rightarrow> error option \<times> 'db"
  ErrNoChange :: error

definition RunMigrations :: "('src, 'drv, 'mig, 'db) migrate_api \<Rightarrow> 'db \<Rightarrow> error option \<times> 'db" where
  "RunMigrations api db =
     (let wrapErr = (\<lambda>e msg. Errorf ''postgres.RunMigrations: %s, %w'' [e]) in
      case iofs_New api ''migrations'' of
        Inl e \<Rightarrow> (Some (wrapErr e ''failed to create new iofs driver for reading migrations''), db)
      | Inr d \<Rightarrow>
          (case WithInstance api \<lparr>MigrationsTable = ''eventually_schema_migrations'', DatabaseName = '''', SchemaName = '''',
                  StatementTimeout = 0, MigrationsTableQuoted = False, MultiStatementEnabled = False, MultiStatementMaxSize = 0\<rparr> db of
             (Inl e, db) \<Rightarrow> (Some (wrapErr e ''failed to create new migrate db instance''), db)
           | (Inr driver, db) \<Rightarrow>
               (case NewWithInstance api ''iofs'' d ''pgx'' driver of
                  Inl e \<Rightarrow> (Some (wrapErr e ''failed to create new migrate source for running db migrations''), db)
                | Inr m \<Rightarrow>
                    (case Up api m db of
                       (Some e, db) \<Rightarrow>
                         if errors_Is e (ErrNoChange api) then (None, db) else (Some (wrapErr e ''failed to execute migrations''), db)
                     | (None, db) \<Rightarrow> (None, db)))))"

text \<open>
  A database is up to date when applying its migrations reports no change. Once a run succeeded through migrations that leave
  it up to date, running them again succeeds and changes nothing more than opening the database does.
\<close>

lemma RunMigrations_up_to_date:
  assumes "ErrNoChange api = Sentinel n" and "iofs_New api ''migrations'' = Inr d" and "WithInstance api \<lparr>MigrationsTable = ''eventually_schema_migrations'',
      DatabaseName = '''', SchemaName = '''', StatementTimeout = 0, MigrationsTableQuoted = False, MultiStatementEnabled = False,
      MultiStatementMaxSize = 0\<rparr> db = (Inr driver, db')"
    and "NewWithInstance api ''iofs'' d ''pgx'' driver = Inr m" and "Up api m db' = (Some (ErrNoChange api), db')"
  shows "RunMigrations api db = (None, db')"
  using assms by (simp add: RunMigrations_def Let_def)

lemma RunMigrations_error:
  "fst (RunMigrations api db) = Some e \<Longrightarrow> \<exists>cause. e = Errorf ''postgres.RunMigrations: %s, %w'' [cause]"
  by (auto simp: RunMigrations_def Let_def split: sum.splits prod.splits option.splits if_splits)

end
