(* ===== verification/Postgres_Container.thy ===== *)
theory Postgres_Container
  imports Event
begin

text \<open>
  The container the integration tests of the PostgreSQL package run on: \<open>postgres/internal/container.go\<close>. The library testcontainers
  and \<open>pgx.ParseConfig\<close> are parameters; \<open>'w\<close> is the state of the container engine.
\<close>

section \<open>What the code asks of testcontainers\<close>

text \<open>A wait strategy for a log line, the number of its occurrences and the seconds to wait; the options of \<open>postgres.Run\<close>.\<close>

datatype wait_strategy = ForLog string nat nat

datatype container_option =
    WithDatabase string
  | WithUsername string
  | WithPassword string
  | WithWaitStrategy wait_strategy

text \<open>\<open>Run\<close> may return a container along with an error, for the caller to clean up.\<close>

record ('c, 'cfg, 'w) testcontainers =
  postgres_Run :: "ctx \<Rightarrow> string \<Rightarrow> container_option list \<Rightarrow> 'w \<Rightarrow> ('c option \<times> error option) \<times> 'w"
  container_ConnectionString :: "'c option \<Rightarrow> ctx \<Rightarrow> 'w \<Rightarrow> (error + string) \<times> 'w"
  pgx_ParseConfig :: "string \<Rightarrow> error + 'cfg"

section \<open>Starting a container\<close>

record ('c, 'cfg) PostgresContainer =
  started_container :: "'c option"
  ConnectionDSN :: string
  PostgresConfig :: 'cfg

definition container_error :: "string \<Rightarrow> error \<Rightarrow> error" where
  "container_error msg e = Errorf (''internal.NewPostgresContainer: '' @ msg @ '', %w'') [e]"

definition container_options :: "container_option list" where
  "container_options = [WithDatabase ''main'', WithUsername ''postgres'', WithPassword ''notasecret'',
     WithWaitStrategy (ForLog ''database system is ready to accept connections'' 2 5)]"

definition NewPostgresContainer ::
  "('c, 'cfg, 'w) testcontainers \<Rightarrow> ctx \<Rightarrow> 'w \<Rightarrow> (error + ('c, 'cfg) PostgresContainer) \<times> 'w" where
  "NewPostgresContainer tc ctx w =
     (case postgres_Run tc ctx ''postgres:16-alpine'' container_options w of
        ((container, Some e), w) \<Rightarrow> (Inl (container_error ''failed to run new container'' e), w)
      | ((container, None), w) \<Rightarrow>
          (case container_ConnectionString tc container ctx w of
             (Inl e, w) \<Rightarrow> (Inl (container_error ''failed to get connection dsn'' e), w)
           | (Inr dsn, w) \<Rightarrow>
               (case pgx_ParseConfig tc dsn of
                  Inl e \<Rightarrow> (Inl (container_error ''failed to parse pgx config from dsn'' e), w)
                | Inr config \<Rightarrow> (Inr \<lparr>started_container = container, ConnectionDSN = dsn, PostgresConfig = config\<rparr>, w))))"

section \<open>What a caller gets\<close>

text \<open>
  A handle when all three calls succeed, on the container that was started and with the string it answers and its configuration; otherwise
  an error whose cause is that of the first call that failed.
\<close>

lemma NewPostgresContainer_ok:
  "fst (NewPostgresContainer tc ctx w) = Inr c \<longleftrightarrow>
     (\<exists>w1 w2. postgres_Run tc ctx ''postgres:16-alpine'' container_options w = ((started_container c, None), w1) \<and>
       container_ConnectionString tc (started_container c) ctx w1 = (Inr (ConnectionDSN c), w2) \<and>
       pgx_ParseConfig tc (ConnectionDSN c) = Inr (PostgresConfig c))"
  by (cases c) (auto simp: NewPostgresContainer_def split: prod.splits option.splits sum.splits)

lemma NewPostgresContainer_error:
  assumes "NewPostgresContainer tc ctx w = (Inl e, w')"
  obtains (run) container cause where "postgres_Run tc ctx ''postgres:16-alpine'' container_options w = ((container, Some cause), w')"
      and "\<And>t. errors_Is e t \<longleftrightarrow> errors_Is cause t"
  | (started) container w1 cause where "postgres_Run tc ctx ''postgres:16-alpine'' container_options w = ((container, None), w1)"
      and "snd (container_ConnectionString tc container ctx w1) = w'"
      and "fst (container_ConnectionString tc container ctx w1) = Inl cause \<or>
        (\<exists>dsn. fst (container_ConnectionString tc container ctx w1) = Inr dsn \<and> pgx_ParseConfig tc dsn = Inl cause)"
      and "\<And>t. errors_Is e t \<longleftrightarrow> errors_Is cause t"
  using assms
  by (auto simp: NewPostgresContainer_def container_error_def split: prod.splits option.splits sum.splits)

text \<open>
  When the container runs but its connection string or configuration cannot be had, the caller gets no handle to terminate it with, and the container
  stays running.
\<close>

lemma NewPostgresContainer_leaves_running:
  fixes running :: "'w \<Rightarrow> 'c set" and tc :: "('c, 'cfg, 'w) testcontainers"
  assumes run: "postgres_Run tc ctx ''postgres:16-alpine'' container_options w = ((Some c, None), w1)" and "c \<in> running w1"
    and "\<And>c ctx w. running (snd (container_ConnectionString tc c ctx w)) = running w"
    and new: "NewPostgresContainer tc ctx w = (Inl e, w')"
  shows "c \<in> running w'"
  using new
proof (cases rule: NewPostgresContainer_error)
  case (run container cause)
  with assms(1) show ?thesis by simp
next
  case (started container w2 cause)
  with assms(1-3) show ?thesis by (metis Pair_inject)
qed

end
