(* ===== verification/Telemetry.thy ===== *)
theory Telemetry
  imports Repository
begin

text \<open>
  Package \<open>opentelemetry\<close>: the configuration (\<open>config.go\<close>) and the wrappers that trace and measure an
  event store (\<open>event_store.go\<close>) and a repository (\<open>repository.go\<close>).

  The OpenTelemetry API is a parameter: its providers, meters, tracers, spans and histograms are
  method tables over the state \<open>'o\<close> of the telemetry backend. \<open>now i\<close> is the
  answer, in milliseconds, of the \<open>i\<close>-th reading of the clock that an operation makes.
\<close>

section \<open>The API the package calls\<close>

datatype attribute = StringAttr string string | IntAttr string int | BoolAttr string bool

record 'o span =
  RecordError :: "error \<Rightarrow> 'o \<Rightarrow> 'o"
  SetStatusError :: "error \<Rightarrow> 'o \<Rightarrow> 'o"
  SetAttributes :: "attribute list \<Rightarrow> 'o \<Rightarrow> 'o"
  EndSpan :: "'o \<Rightarrow> 'o"

type_synonym 'o tracer = "ctx \<Rightarrow> string \<Rightarrow> attribute list \<Rightarrow> 'o \<Rightarrow> ctx \<times> 'o span \<times> 'o"

type_synonym 'o histogram = "ctx \<Rightarrow> int \<Rightarrow> attribute list \<Rightarrow> 'o \<Rightarrow> 'o"

text \<open>\<open>meter.Int64Histogram(name, unit, description)\<close>.\<close>

type_synonym 'o meter = "string \<Rightarrow> string \<Rightarrow> string \<Rightarrow> error + 'o histogram"

record ('mp, 'tp, 'o) otel_api =
  GetMeterProvider :: 'mp
  GetTracerProvider :: 'tp
  Meter :: "'mp \<Rightarrow> string \<Rightarrow> 'o meter"
  Tracer :: "'tp \<Rightarrow> string \<Rightarrow> 'o tracer"

section \<open>Configuration\<close>

definition InstrumentationName :: string where
  "InstrumentationName = ''github.com/get-eventually/go-eventually/opentelemetry''"

definition MetricUnitMilliseconds :: string where
  "MetricUnitMilliseconds = ''ms''"

record ('mp, 'tp) config =
  MeterProvider :: 'mp
  TracerProvider :: 'tp

definition config_meter :: "('mp, 'tp, 'o) otel_api \<Rightarrow> ('mp, 'tp) config \<Rightarrow> 'o meter" where
  "config_meter api c = Meter api (MeterProvider c) InstrumentationName"

definition config_tracer :: "('mp, 'tp, 'o) otel_api \<Rightarrow> ('mp, 'tp) config \<Rightarrow> 'o tracer" where
  "config_tracer api c = Tracer api (TracerProvider c) InstrumentationName"

datatype ('mp, 'tp) otel_Option = meterProviderOption 'mp | tracerProviderOption 'tp

fun otel_apply :: "('mp, 'tp) otel_Option \<Rightarrow> ('mp, 'tp) config \<Rightarrow> ('mp, 'tp) config" where
  "otel_apply (meterProviderOption mp) c = c\<lparr>MeterProvider := mp\<rparr>"
| "otel_apply (tracerProviderOption tp) c = c\<lparr>TracerProvider := tp\<rparr>"

definition WithMeterProvider :: "'mp \<Rightarrow> ('mp, 'tp) otel_Option" where
  "WithMeterProvider provider = meterProviderOption provider"

definition WithTracerProvider :: "'tp \<Rightarrow> ('mp, 'tp) otel_Option" where
  "WithTracerProvider provider = tracerProviderOption provider"

primrec newConfig_loop :: "('mp, 'tp) otel_Option list \<Rightarrow> ('mp, 'tp) config \<Rightarrow> ('mp, 'tp) config" where
  "newConfig_loop [] c = c"
| "newConfig_loop (opt # opts) c = newConfig_loop opts (otel_apply opt c)"

definition newConfig :: "('mp, 'tp, 'o) otel_api \<Rightarrow> ('mp, 'tp) otel_Option list \<Rightarrow> ('mp, 'tp) config" where
  "newConfig api opts =
     newConfig_loop opts \<lparr>MeterProvider = GetMeterProvider api, TracerProvider = GetTracerProvider api\<rparr>"

section \<open>Names\<close>

text \<open>Keys of attributes, names of spans, names and descriptions of metrics.\<close>

definition EventStreamIDKey :: string where
  "EventStreamIDKey = ''event_stream.id''"

definition EventStreamVersionSelectorKey :: string where
  "EventStreamVersionSelectorKey = ''event_stream.select_from_version''"

definition EventStreamExpectedVersionKey :: string where
  "EventStreamExpectedVersionKey = ''event_stream.expected_version''"

definition EventStoreNumEventsKey :: string where
  "EventStoreNumEventsKey = ''event_store.num_events''"

definition EventStoreStreamSpanName :: string where
  "EventStoreStreamSpanName = ''event.Store.Stream''"

definition EventStoreAppendSpanName :: string where
  "EventStoreAppendSpanName = ''event.Store.Append''"

definition EventStoreStreamDurationMetricName :: string where
  "EventStoreStreamDurationMetricName = ''eventually.event_store.stream.duration.milliseconds''"

definition EventStoreStreamDurationMetricDescription :: string where
  "EventStoreStreamDurationMetricDescription = ''Duration in milliseconds of event.Store.Stream operations performed.''"

definition EventStoreAppendDurationMetricName :: string where
  "EventStoreAppendDurationMetricName = ''eventually.event_store.append.duration.milliseconds''"

definition EventStoreAppendDurationMetricDescription :: string where
  "EventStoreAppendDurationMetricDescription = ''Duration in milliseconds of event.Store.Append operations performed.''"

definition ErrorAttribute :: string where
  "ErrorAttribute = ''error''"

definition AggregateTypeAttribute :: string where
  "AggregateTypeAttribute = ''aggregate.type''"

definition AggregateVersionAttribute :: string where
  "AggregateVersionAttribute = ''aggregate.version''"

definition AggregateIDAttribute :: string where
  "AggregateIDAttribute = ''aggregate.id''"

definition RepositoryGetSpanName :: string where
  "RepositoryGetSpanName = ''aggregate.Repository.Get''"

definition RepositorySaveSpanName :: string where
  "RepositorySaveSpanName = ''aggregate.Repository.Save''"

definition RepositoryGetDurationMetricName :: string where
  "RepositoryGetDurationMetricName = ''eventually.repository.get.duration.milliseconds''"

definition RepositoryGetDurationMetricDescription :: string where
  "RepositoryGetDurationMetricDescription = ''Duration in milliseconds of aggregate.Repository.Get operations performed.''"

definition RepositorySaveDurationMetricName :: string where
  "RepositorySaveDurationMetricName = ''eventually.repository.save.duration.milliseconds''"

definition RepositorySaveDurationMetricDescription :: string where
  "RepositorySaveDurationMetricDescription = ''Duration in milliseconds of aggregate.Repository.Save operations performed.''"

section \<open>The instrumented event store\<close>

record ('m, 'st, 'o) InstrumentedEventStore =
  ies_eventStore :: "('m, 'st) Store"
  ies_tracer :: "'o tracer"
  streamDuration :: "'o histogram"
  appendDuration :: "'o histogram"

definition ies_registerMetrics :: "'o meter \<Rightarrow> error + 'o histogram \<times> 'o histogram" where
  "ies_registerMetrics meter =
     (case meter EventStoreStreamDurationMetricName MetricUnitMilliseconds
             EventStoreStreamDurationMetricDescription of
        Inl e \<Rightarrow> Inl (Errorf ''opentelemetry.InstrumentedEventStore: failed to register metric, %w'' [e])
      | Inr sd \<Rightarrow>
          (case meter EventStoreAppendDurationMetricName MetricUnitMilliseconds
                  EventStoreAppendDurationMetricDescription of
             Inl e \<Rightarrow> Inl (Errorf ''opentelemetry.InstrumentedEventStore: failed to register metric, %w'' [e])
           | Inr ad \<Rightarrow> Inr (sd, ad)))"

definition NewInstrumentedEventStore ::
  "('mp, 'tp, 'o) otel_api \<Rightarrow> ('m, 'st) Store \<Rightarrow> ('mp, 'tp) otel_Option list \<Rightarrow>
   error + ('m, 'st, 'o) InstrumentedEventStore" where
  "NewInstrumentedEventStore api store options =
     (let cfg = newConfig api options in
      case ies_registerMetrics (config_meter api cfg) of
        Inl e \<Rightarrow> Inl e
      | Inr (sd, ad) \<Rightarrow>
          Inr \<lparr>ies_eventStore = store, ies_tracer = config_tracer api cfg, streamDuration = sd, appendDuration = ad\<rparr>)"

text \<open>
  The deferred functions of the wrappers: record the duration with the error flag, then the error on
  the span, or what \<open>ok\<close> adds, and end the span.
\<close>

definition otel_finish ::
  "(nat \<Rightarrow> int) \<Rightarrow> ctx \<Rightarrow> 'o span \<Rightarrow> int \<Rightarrow> 'o histogram \<Rightarrow> attribute list \<Rightarrow> ('o \<Rightarrow> 'o) \<Rightarrow> error option \<Rightarrow> 'o \<Rightarrow> 'o" where
  "otel_finish now ctx span start histogram attributes ok e w =
     (let w = histogram ctx (now 1 - start) (attributes @ [BoolAttr ErrorAttribute (e \<noteq> None)]) w;
          w = (case e of Some e \<Rightarrow> SetStatusError span e (RecordError span e w) | None \<Rightarrow> ok w)
      in EndSpan span w)"

text \<open>
  Ranging over the inner stream inside the producer: each value is yielded on; leaving early returns
  nil with the deferred function run on a nil error. An inner producer that goes on after a false
  answer makes the outer loop panic as it would make the inner one.
\<close>

primrec instrumented_producer ::
  "(error option \<Rightarrow> 'st \<Rightarrow> 'w) \<Rightarrow> ('a, 'st) producer \<Rightarrow> ('a, 'w) producer" where
  "instrumented_producer finish (Return e st) = Return e (finish e st)"
| "instrumented_producer finish (Yield a k) =
     Yield a (\<lambda>go.
       if go then instrumented_producer finish (k True)
       else (case k False of
               Return e st \<Rightarrow> Return None (finish None st)
             | Yield b k' \<Rightarrow> map_producer (\<lambda>x. x) (finish None) (Yield b k')))"

definition InstrumentedEventStore_Stream ::
  "('m, 'st, 'o) InstrumentedEventStore \<Rightarrow> (nat \<Rightarrow> int) \<Rightarrow> ('m, 'st \<times> 'o) Streamer" where
  "InstrumentedEventStore_Stream ies now ctx sid selector =
     (let attributes = [StringAttr EventStreamIDKey sid,
                        IntAttr EventStreamVersionSelectorKey (uint (From selector))]
      in NewStream (\<lambda>(st, w).
           let (ctx, span, w) = ies_tracer ies ctx EventStoreStreamSpanName attributes w;
               start = now 0;
               (seq, inner) = Iter (Stream (ies_eventStore ies) ctx sid selector);
               finish = (\<lambda>producerErr st.
                 (st, otel_finish now ctx span start (streamDuration ies) [] (\<lambda>w. w) producerErr w))
           in case seq of
                EmptySeq \<Rightarrow> Return (Err inner) (finish (Err inner) st)
              | ProducerSeq \<Rightarrow> instrumented_producer finish (produce inner st)))"

primrec expected_attribute :: "Check \<Rightarrow> int" where
  "expected_attribute CheckAny = - 1"
| "expected_attribute (CheckExact v) = uint v"

definition InstrumentedEventStore_Append ::
  "('m, 'st, 'o) InstrumentedEventStore \<Rightarrow> (nat \<Rightarrow> int) \<Rightarrow> ('m, 'st \<times> 'o) Appender" where
  "InstrumentedEventStore_Append ies now ctx sid expected evts =
     (\<lambda>(st, w).
        let attributes = [StringAttr EventStreamIDKey sid,
                          IntAttr EventStreamExpectedVersionKey (expected_attribute expected),
                          IntAttr EventStoreNumEventsKey (int (length evts))];
            (ctx, span, w) = ies_tracer ies ctx EventStoreAppendSpanName attributes w;
            start = now 0;
            ((newVersion, e), st) = Append (ies_eventStore ies) ctx sid expected evts st;
            w = otel_finish now ctx span start (appendDuration ies) [] (\<lambda>w. w) e w
        in ((newVersion, e), (st, w)))"

section \<open>The instrumented repository\<close>

record ('id, 'm, 'z, 'st, 'o) InstrumentedRepository =
  ir_aggregateType :: "('id, 'm, 'z) Type"
  ir_repository :: "('id, ('m, 'z) BaseRoot_scheme, 'st) Repository"
  ir_tracer :: "'o tracer"
  getDuration :: "'o histogram"
  saveDuration :: "'o histogram"

definition ir_registerMetrics :: "'o meter \<Rightarrow> error + 'o histogram \<times> 'o histogram" where
  "ir_registerMetrics meter =
     (case meter RepositoryGetDurationMetricName MetricUnitMilliseconds
             RepositoryGetDurationMetricDescription of
        Inl e \<Rightarrow> Inl (Errorf ''opentelemetry.InstrumentedRepository: failed to register metric, %w'' [e])
      | Inr gd \<Rightarrow>
          (case meter RepositorySaveDurationMetricName MetricUnitMilliseconds
                  RepositorySaveDurationMetricDescription of
             Inl e \<Rightarrow> Inl (Errorf ''opentelemetry.InstrumentedRepository: failed to register metric, %w'' [e])
           | Inr sd \<Rightarrow> Inr (gd, sd)))"

definition NewInstrumentedRepository ::
  "('mp, 'tp, 'o) otel_api \<Rightarrow> ('id, 'm, 'z) Type \<Rightarrow> ('id, ('m, 'z) BaseRoot_scheme, 'st) Repository \<Rightarrow>
   ('mp, 'tp) otel_Option list \<Rightarrow> error + ('id, 'm, 'z, 'st, 'o) InstrumentedRepository" where
  "NewInstrumentedRepository api t repository options =
     (let cfg = newConfig api options in
      case ir_registerMetrics (config_meter api cfg) of
        Inl e \<Rightarrow> Inl e
      | Inr (gd, sd) \<Rightarrow>
          Inr \<lparr>ir_aggregateType = t, ir_repository = repository, ir_tracer = config_tracer api cfg,
               getDuration = gd, saveDuration = sd\<rparr>)"

definition InstrumentedRepository_Get ::
  "('id, 'm, 'z, 'st, 'o) InstrumentedRepository \<Rightarrow> (nat \<Rightarrow> int) \<Rightarrow>
   ('id, ('m, 'z) BaseRoot_scheme, 'st \<times> 'o) Getter" where
  "InstrumentedRepository_Get ir now ctx i =
     (\<lambda>(st, w).
        let attributes = [StringAttr AggregateTypeAttribute (Name (ir_aggregateType ir))];
            (ctx, span, w) = ir_tracer ir ctx RepositoryGetSpanName
              (attributes @ [StringAttr AggregateIDAttribute (String (ir_aggregateType ir) i)]) w;
            start = now 0
        in case Get (ir_repository ir) ctx i st of
             None \<Rightarrow> None
           | Some (Inl e, st) \<Rightarrow>
               Some (Inl e, (st, otel_finish now ctx span start (getDuration ir) attributes (\<lambda>w. w) (Some e) w))
           | Some (Inr root, st) \<Rightarrow>
               Some (Inr root, (st, otel_finish now ctx span start (getDuration ir) attributes
                 (SetAttributes span [IntAttr AggregateVersionAttribute (uint (version root))]) None w)))"

definition InstrumentedRepository_Save ::
  "('id, 'm, 'z, 'st, 'o) InstrumentedRepository \<Rightarrow> (nat \<Rightarrow> int) \<Rightarrow> (('m, 'z) BaseRoot_scheme, 'st \<times> 'o) Saver" where
  "InstrumentedRepository_Save ir now ctx root =
     (\<lambda>(st, w).
        let attributes = [StringAttr AggregateTypeAttribute (Name (ir_aggregateType ir))];
            (ctx, span, w) = ir_tracer ir ctx RepositorySaveSpanName
              (attributes @ [StringAttr AggregateIDAttribute (String (ir_aggregateType ir) (AggregateID (ir_aggregateType ir) root)),
                             IntAttr AggregateVersionAttribute (uint (version root))]) w;
            start = now 0;
            (e, root, st) = Save (ir_repository ir) ctx root st;
            w = otel_finish now ctx span start (saveDuration ir) attributes (\<lambda>w. w) e w
        in (e, root, (st, w)))"

section \<open>Wrapping changes no outcome\<close>

text \<open>A tracer derives its context from the given one, so it is cancelled when that one is.\<close>

definition keeps_context :: "'o tracer \<Rightarrow> bool" where
  "keeps_context tracer \<longleftrightarrow> (\<forall>ctx name attributes w. fst (tracer ctx name attributes w) = ctx)"

lemma keeps_contextD: "keeps_context tracer \<Longrightarrow> tracer ctx name attributes w = (ctx', span, w') \<Longrightarrow> ctx' = ctx"
  unfolding keeps_context_def by (metis fst_conv)

lemma run_map_producer_stopped:
  "run_producer (instrumented_producer finish p) body s =
     map_option (\<lambda>(exit, e, st, s'). let e' = if exit = None then e else None in (exit, e', finish e' st, s'))
       (run_producer p body s)"
proof (induction p arbitrary: s)
  case (Return e st)
  then show ?case by simp
next
  case (Yield a k)
  obtain r s' where b: "body a s = (r, s')" by fastforce
  show ?case
  proof (cases r)
    case None
    with b Yield.IH [OF rangeI, of True s'] show ?thesis by simp
  next
    case (Some r')
    with b show ?thesis by (cases "k False") auto
  qed
qed

lemma instrumented_feed: "instrumented_producer finish (feed xs None st) = feed xs None (finish None st)"
  by (induction xs) (auto simp: fun_eq_iff)

lemma InstrumentedEventStore_Append_eq:
  assumes "ies_tracer ies ctx EventStoreAppendSpanName [StringAttr EventStreamIDKey sid,
      IntAttr EventStreamExpectedVersionKey (expected_attribute expected),
      IntAttr EventStoreNumEventsKey (int (length evts))] w = (ctx', span, w1)"
    and "Append (ies_eventStore ies) ctx' sid expected evts st = (r, st')"
  shows "InstrumentedEventStore_Append ies now ctx sid expected evts (st, w) =
     (r, (st', otel_finish now ctx' span (now 0) (appendDuration ies) [] (\<lambda>w. w) (snd r) w1))"
  using assms by (cases r) (simp add: InstrumentedEventStore_Append_def Let_def)

lemma InstrumentedEventStore_Append_fst:
  assumes "keeps_context (ies_tracer ies)" and "Append (ies_eventStore ies) ctx sid expected evts st = (r, st')"
  shows "\<exists>w'. InstrumentedEventStore_Append ies now ctx sid expected evts (st, w) = (r, (st', w'))"
proof -
  obtain ctx' span w1 where t: "ies_tracer ies ctx EventStoreAppendSpanName [StringAttr EventStreamIDKey sid,
      IntAttr EventStreamExpectedVersionKey (expected_attribute expected),
      IntAttr EventStoreNumEventsKey (int (length evts))] w = (ctx', span, w1)"
    by (metis prod_cases3)
  with keeps_contextD [OF assms(1) t] InstrumentedEventStore_Append_eq [OF t] assms(2) show ?thesis by blast
qed

lemma InstrumentedEventStore_Stream_fresh [simp]:
  "\<not> iterated (InstrumentedEventStore_Stream ies now ctx sid selector)"
  by (simp add: InstrumentedEventStore_Stream_def Let_def)

lemma InstrumentedEventStore_Stream_traced:
  fixes ies :: "('m, 'st, 'o) InstrumentedEventStore"
  assumes t: "ies_tracer ies ctx EventStoreStreamSpanName [StringAttr EventStreamIDKey sid,
      IntAttr EventStreamVersionSelectorKey (uint (From selector))] w = (ctx', span, w1)"
  shows "for_range body (InstrumentedEventStore_Stream ies now ctx sid selector) (st, w) s =
     map_option (\<lambda>(exit, inner, st', s').
         let e = if exit = None then Err inner else None
         in (exit, (InstrumentedEventStore_Stream ies now ctx sid selector)\<lparr>iterated := True, err := e\<rparr>,
             (st', otel_finish now ctx' span (now 0) (streamDuration ies) [] (\<lambda>w. w) e w1), s'))
       (for_range body (Stream (ies_eventStore ies) ctx' sid selector) st s)"
proof -
  let ?inner = "Stream (ies_eventStore ies) ctx' sid selector"
  define finish where "finish = (\<lambda>e (st :: 'st). (st, otel_finish now ctx' span (now 0) (streamDuration ies) [] (\<lambda>w. w) e w1))"
  have "produce (InstrumentedEventStore_Stream ies now ctx sid selector) (st, w) =
      (if iterated ?inner then Return (Some ErrAlreadyIterated) (finish (Some ErrAlreadyIterated) st)
       else instrumented_producer finish (produce ?inner st))"
    using t by (simp add: InstrumentedEventStore_Stream_def Let_def Iter_def finish_def Err_def)
  then show ?thesis
    by (auto simp: for_range_def Iter_def range_over_def run_map_producer_stopped Err_def Let_def finish_def split: option.splits)
qed

lemma InstrumentedEventStore_Stream_range:
  fixes ies :: "('m, 'st, 'o) InstrumentedEventStore"
  assumes "keeps_context (ies_tracer ies)"
  shows "\<exists>finish. for_range body (InstrumentedEventStore_Stream ies now ctx sid selector) (st, w) s =
     map_option (\<lambda>(exit, inner, st', s').
         let e = if exit = None then Err inner else None
         in (exit, (InstrumentedEventStore_Stream ies now ctx sid selector)\<lparr>iterated := True, err := e\<rparr>, finish e st', s'))
       (for_range body (Stream (ies_eventStore ies) ctx sid selector) st s) \<and> (\<forall>e st. fst (finish e st) = st)"
proof -
  obtain ctx' span w1 where t: "ies_tracer ies ctx EventStoreStreamSpanName [StringAttr EventStreamIDKey sid,
      IntAttr EventStreamVersionSelectorKey (uint (From selector))] w = (ctx', span, w1)"
    by (metis prod_cases3)
  from InstrumentedEventStore_Stream_traced [OF t] keeps_contextD [OF assms t] show ?thesis
    by (intro exI [of _ "\<lambda>e st. (st, otel_finish now ctx span (now 0) (streamDuration ies) [] (\<lambda>w. w) e w1)"]) simp
qed

text \<open>The contracts survive the wrapping.\<close>

context event_store
begin

lemma instrumented_event_store:
  fixes ies :: "('m, 'st, 'o) InstrumentedEventStore"
  assumes tracer: "keeps_context (ies_tracer ies)" and store: "ies_eventStore ies = \<lparr>Append = append, Stream = stream\<rparr>"
  shows "event_store (InstrumentedEventStore_Append ies now) (InstrumentedEventStore_Stream ies now)
     (\<lambda>(st, w). log st) (\<lambda>(st, w). invar st)"
proof
  fix stw :: "'st \<times> 'o" and expected sid ctx evs
  obtain st w where stw: "stw = (st, w)" by fastforce
  note wrapped = InstrumentedEventStore_Append_fst [OF tracer, of ctx sid expected evs st, where w = w and now = now, unfolded store, simplified]
  assume "case stw of (st, w) \<Rightarrow> invar st"
    and "check_passes expected (version_of ((case stw of (st, w) \<Rightarrow> log st) sid))"
  with append_ok [of st expected sid ctx evs] wrapped
  show "\<exists>st'. InstrumentedEventStore_Append ies now ctx sid expected evs stw =
      ((version_of ((case stw of (st, w) \<Rightarrow> log st) sid @ evs), None), st') \<and>
      (case st' of (st, w) \<Rightarrow> log st) = (case stw of (st, w) \<Rightarrow> log st)(sid := (case stw of (st, w) \<Rightarrow> log st) sid @ evs) \<and>
      (case st' of (st, w) \<Rightarrow> invar st)"
    by (fastforce simp: stw)
next
  fix stw :: "'st \<times> 'o" and v sid ctx evs
  obtain st w where stw: "stw = (st, w)" by fastforce
  note wrapped = InstrumentedEventStore_Append_fst [OF tracer, of ctx sid "CheckExact v" evs st, where w = w and now = now, unfolded store, simplified]
  assume "case stw of (st, w) \<Rightarrow> invar st" and "v \<noteq> version_of ((case stw of (st, w) \<Rightarrow> log st) sid)"
  with append_conflict [of st v sid ctx evs] wrapped
  show "\<exists>e st'. InstrumentedEventStore_Append ies now ctx sid (CheckExact v) evs stw = ((0, Some e), st') \<and>
      caused_by e (Conflict \<lparr>Expected = v, Actual = version_of ((case stw of (st, w) \<Rightarrow> log st) sid)\<rparr>) \<and>
      (case st' of (st, w) \<Rightarrow> log st) = (case stw of (st, w) \<Rightarrow> log st) \<and> (case st' of (st, w) \<Rightarrow> invar st)"
    by (fastforce simp: stw)
next
  fix ctx sid selector
  show "\<not> iterated (InstrumentedEventStore_Stream ies now ctx sid selector)" by simp
next
  fix stw :: "'st \<times> 'o" and sid selector
  obtain st w where stw: "stw = (st, w)" by fastforce
  assume "case stw of (st, w) \<Rightarrow> invar st"
  with stream_feed [of st sid selector] obtain st' where
    f: "produce (stream Background sid selector) st = feed (filter (selects selector) (persisted_from sid 0 (log st sid))) None st'"
    and st': "log st' = log st" "invar st'" by (auto simp: stw)
  obtain ctx' span w1 where t: "ies_tracer ies Background EventStoreStreamSpanName [StringAttr EventStreamIDKey sid,
      IntAttr EventStreamVersionSelectorKey (uint (From selector))] w = (ctx', span, w1)"
    by (metis prod_cases3)
  moreover from keeps_contextD [OF tracer t] have "ctx' = Background" .
  ultimately have "\<exists>w'. produce (InstrumentedEventStore_Stream ies now Background sid selector) (st, w) =
      feed (filter (selects selector) (persisted_from sid 0 (log st sid))) None (st', w')"
    using f stream_fresh by (auto simp: InstrumentedEventStore_Stream_def Let_def Iter_def store instrumented_feed)
  with st' show "\<exists>st'. produce (InstrumentedEventStore_Stream ies now Background sid selector) stw =
      feed (filter (selects selector) (persisted_from sid 0 ((case stw of (st, w) \<Rightarrow> log st) sid))) None st' \<and>
      (case st' of (st, w) \<Rightarrow> log st) = (case stw of (st, w) \<Rightarrow> log st) \<and> (case st' of (st, w) \<Rightarrow> invar st)"
    by (fastforce simp: stw)
qed

end

lemma InstrumentedRepository_Get_fst:
  assumes "keeps_context (ir_tracer ir)"
  shows "map_option (\<lambda>(r, st', w'). (r, st')) (InstrumentedRepository_Get ir now ctx i (st, w)) = Get (ir_repository ir) ctx i st"
proof -
  obtain ctx' span w1 where t: "ir_tracer ir ctx RepositoryGetSpanName ([StringAttr AggregateTypeAttribute (Name (ir_aggregateType ir))] @
      [StringAttr AggregateIDAttribute (String (ir_aggregateType ir) i)]) w = (ctx', span, w1)"
    by (metis prod_cases3)
  with keeps_contextD [OF assms t] show ?thesis
    by (auto simp: InstrumentedRepository_Get_def Let_def split: option.splits sum.splits)
qed

lemma InstrumentedRepository_Save_fst:
  assumes "keeps_context (ir_tracer ir)" and "Save (ir_repository ir) ctx root st = (e, root', st')"
  shows "\<exists>w'. InstrumentedRepository_Save ir now ctx root (st, w) = (e, root', (st', w'))"
proof -
  obtain ctx' span w1 where t: "ir_tracer ir ctx RepositorySaveSpanName ([StringAttr AggregateTypeAttribute (Name (ir_aggregateType ir))] @
      [StringAttr AggregateIDAttribute (String (ir_aggregateType ir) (AggregateID (ir_aggregateType ir) root)),
       IntAttr AggregateVersionAttribute (uint (version root))]) w = (ctx', span, w1)"
    by (metis prod_cases3)
  with keeps_contextD [OF assms(1) t] assms(2) show ?thesis
    by (simp add: InstrumentedRepository_Save_def Let_def)
qed

context repository_contract
begin

lemma instrumented_get:
  assumes "keeps_context (ir_tracer ir)" "ir_repository ir = \<lparr>Get = get, Save = save\<rparr>" "get ctx i st = Some (r, st')"
  shows "\<exists>w'. InstrumentedRepository_Get ir now ctx i (st, w) = Some (r, (st', w'))"
  using InstrumentedRepository_Get_fst [OF assms(1), of now ctx i st w] assms(2,3)
  by (cases "InstrumentedRepository_Get ir now ctx i (st, w)") auto

lemma instrumented_repository:
  fixes ir :: "('id, 'm, 'z, 'st, 'o) InstrumentedRepository"
  assumes tracer: "keeps_context (ir_tracer ir)" and repo: "ir_repository ir = \<lparr>Get = get, Save = save\<rparr>"
  shows "repository_contract (InstrumentedRepository_Get ir now) (InstrumentedRepository_Save ir now) t
     (\<lambda>(st, w). stored st) (\<lambda>(st, w). invar st)"
proof
  show "version (Factory t ()) = 0" "recordedEvents (Factory t ()) = []" by (rule factory_zero)+
next
  fix stw :: "'st \<times> 'o" and i r
  assume "case stw of (st, w) \<Rightarrow> invar st" "(case stw of (st, w) \<Rightarrow> stored st) i = Some r"
  then show "recordedEvents r = [] \<and> version r \<noteq> 0" by (auto dest: stored_flushed)
next
  fix stw :: "'st \<times> 'o" and i
  obtain st w where stw: "stw = (st, w)" by fastforce
  assume "case stw of (st, w) \<Rightarrow> invar st" "(case stw of (st, w) \<Rightarrow> stored st) i = None"
  with get_missing [of st i] instrumented_get [OF tracer repo, of Background i st]
  show "\<exists>e st'. InstrumentedRepository_Get ir now Background i stw = Some (Inl e, st') \<and> caused_by e ErrRootNotFound \<and>
      (case st' of (st, w) \<Rightarrow> stored st) = (case stw of (st, w) \<Rightarrow> stored st) \<and> (case st' of (st, w) \<Rightarrow> invar st)"
    by (fastforce simp: stw)
next
  fix stw :: "'st \<times> 'o" and i r
  obtain st w where stw: "stw = (st, w)" by fastforce
  assume "case stw of (st, w) \<Rightarrow> invar st" "(case stw of (st, w) \<Rightarrow> stored st) i = Some r"
  with get_found [of st i r] instrumented_get [OF tracer repo, of Background i st]
  show "\<exists>st'. InstrumentedRepository_Get ir now Background i stw = Some (Inr r, st') \<and>
      (case st' of (st, w) \<Rightarrow> stored st) = (case stw of (st, w) \<Rightarrow> stored st) \<and> (case st' of (st, w) \<Rightarrow> invar st)"
    by (fastforce simp: stw)
next
  fix stw :: "'st \<times> 'o" and evts i r
  obtain st w where stw: "stw = (st, w)" by fastforce
  assume "case stw of (st, w) \<Rightarrow> invar st" "evts \<noteq> []"
    "recordThat (Apply t) evts (base_root t ((case stw of (st, w) \<Rightarrow> stored st) i)) = (r, None)" "AggregateID t r = i"
    "unat (version (base_root t ((case stw of (st, w) \<Rightarrow> stored st) i))) + length evts < 2 ^ 32"
  then obtain st' where s: "save Background r st = (None, flushed r, st')" and st': "stored st' i = Some (flushed r)" "invar st'"
    "\<forall>j. String t j \<noteq> String t i \<longrightarrow> stored st' j = stored st j"
    using save_ok [of st evts i r] by (auto simp: stw)
  from InstrumentedRepository_Save_fst [OF tracer, of Background r st] s repo obtain w' where
    "InstrumentedRepository_Save ir now Background r (st, w) = (None, flushed r, (st', w'))" by fastforce
  with st' show "\<exists>st'. InstrumentedRepository_Save ir now Background r stw = (None, flushed r, st') \<and>
      (case st' of (st, w) \<Rightarrow> stored st) i = Some (flushed r) \<and> (case st' of (st, w) \<Rightarrow> invar st) \<and>
      (\<forall>j. String t j \<noteq> String t i \<longrightarrow> (case st' of (st, w) \<Rightarrow> stored st) j = (case stw of (st, w) \<Rightarrow> stored st) j)"
    by (fastforce simp: stw)
next
  fix stw :: "'st \<times> 'o" and r
  obtain st w where stw: "stw = (st, w)" by fastforce
  assume "case stw of (st, w) \<Rightarrow> invar st" "recordedEvents r \<noteq> []"
    "version r - version_of (recordedEvents r) \<noteq> version (base_root t ((case stw of (st, w) \<Rightarrow> stored st) (AggregateID t r)))"
  then obtain e st' where s: "save Background r st = (Some e, flushed r, st')" and st':
    "caused_by e (Conflict \<lparr>Expected = version r - version_of (recordedEvents r),
       Actual = version (base_root t (stored st (AggregateID t r)))\<rparr>)" "stored st' = stored st" "invar st'"
    using save_conflict [of st r] by (auto simp: stw)
  from InstrumentedRepository_Save_fst [OF tracer, of Background r st] s repo obtain w' where
    "InstrumentedRepository_Save ir now Background r (st, w) = (Some e, flushed r, (st', w'))" by fastforce
  with st' show "\<exists>e st'. InstrumentedRepository_Save ir now Background r stw = (Some e, flushed r, st') \<and>
      caused_by e (Conflict \<lparr>Expected = version r - version_of (recordedEvents r),
        Actual = version (base_root t ((case stw of (st, w) \<Rightarrow> stored st) (AggregateID t r)))\<rparr>) \<and>
      (case st' of (st, w) \<Rightarrow> stored st) = (case stw of (st, w) \<Rightarrow> stored st) \<and> (case st' of (st, w) \<Rightarrow> invar st)"
    by (fastforce simp: stw)
qed

end

end
