(* ===== verification/Telemetry_Recorded.thy ===== *)
theory Telemetry_Recorded
  imports Telemetry User_Suites
begin

text \<open>
  The wrappers of package \<open>opentelemetry\<close> on a backend that records every call, their
  interpretations, and what they guarantee: no outcome changes, every operation leaves one ended
  span and one measurement, and registration failures are reported.
\<close>

section \<open>A recording backend\<close>

text \<open>
  The backend has numbered providers, the global ones being number 0. What is recorded names the provider and the
  instrumentation library it was asked for, and for a measurement the histogram as it was registered: its name, unit and description.
\<close>

datatype telemetry =
    SpanStarted nat string string "attribute list"
  | Measured nat string string string string int "attribute list"
  | ErrorRecorded error
  | StatusSet error
  | AttributesSet "attribute list"
  | SpanEnded

definition recording_span :: "telemetry list span" where
  "recording_span =
     \<lparr>RecordError = (\<lambda>e w. w @ [ErrorRecorded e]), SetStatusError = (\<lambda>e w. w @ [StatusSet e]),
      SetAttributes = (\<lambda>attributes w. w @ [AttributesSet attributes]), EndSpan = (\<lambda>w. w @ [SpanEnded])\<rparr>"

definition recording_histogram :: "nat \<Rightarrow> string \<Rightarrow> string \<Rightarrow> string \<Rightarrow> string \<Rightarrow> telemetry list histogram" where
  "recording_histogram provider library name unit description ctx ms attributes w =
     w @ [Measured provider library name unit description ms attributes]"

definition recording_tracer :: "nat \<Rightarrow> string \<Rightarrow> telemetry list tracer" where
  "recording_tracer provider library ctx name attributes w = (ctx, recording_span, w @ [SpanStarted provider library name attributes])"

definition recording_api :: "(nat, nat, telemetry list) otel_api" where
  "recording_api =
     \<lparr>GetMeterProvider = 0, GetTracerProvider = 0,
      Meter = (\<lambda>provider library name unit description. Inr (recording_histogram provider library name unit description)),
      Tracer = recording_tracer\<rparr>"

text \<open>The providers a list of options selects: the last one given, or the global one.\<close>

definition chosen_meter :: "(nat, nat) otel_Option list \<Rightarrow> nat" where
  "chosen_meter options = last (0 # [provider. meterProviderOption provider \<leftarrow> options])"

definition chosen_tracer :: "(nat, nat) otel_Option list \<Rightarrow> nat" where
  "chosen_tracer options = last (0 # [provider. tracerProviderOption provider \<leftarrow> options])"

lemma newConfig_loop_chosen:
  "newConfig_loop options c =
     \<lparr>MeterProvider = last (MeterProvider c # [provider. meterProviderOption provider \<leftarrow> options]),
      TracerProvider = last (TracerProvider c # [provider. tracerProviderOption provider \<leftarrow> options])\<rparr>"
proof (induction options arbitrary: c)
  case (Cons option options)
  then show ?case by (cases option) auto
qed simp

lemma newConfig_recording:
  "newConfig recording_api options = \<lparr>MeterProvider = chosen_meter options, TracerProvider = chosen_tracer options\<rparr>"
  by (simp add: newConfig_def newConfig_loop_chosen recording_api_def chosen_meter_def chosen_tracer_def)

definition recorded_store ::
  "(nat, nat) otel_Option list \<Rightarrow> ('m, 'st) Store \<Rightarrow> ('m, 'st, telemetry list) InstrumentedEventStore" where
  "recorded_store options store =
     (let histogram = recording_histogram (chosen_meter options) InstrumentationName in
      \<lparr>ies_eventStore = store, ies_tracer = recording_tracer (chosen_tracer options) InstrumentationName,
       streamDuration = histogram EventStoreStreamDurationMetricName MetricUnitMilliseconds EventStoreStreamDurationMetricDescription,
       appendDuration = histogram EventStoreAppendDurationMetricName MetricUnitMilliseconds EventStoreAppendDurationMetricDescription\<rparr>)"

definition recorded_repository ::
  "(nat, nat) otel_Option list \<Rightarrow> ('id, 'm, 'z) Type \<Rightarrow> ('id, ('m, 'z) BaseRoot_scheme, 'st) Repository \<Rightarrow>
   ('id, 'm, 'z, 'st, telemetry list) InstrumentedRepository" where
  "recorded_repository options t repository =
     (let histogram = recording_histogram (chosen_meter options) InstrumentationName in
      \<lparr>ir_aggregateType = t, ir_repository = repository, ir_tracer = recording_tracer (chosen_tracer options) InstrumentationName,
       getDuration = histogram RepositoryGetDurationMetricName MetricUnitMilliseconds RepositoryGetDurationMetricDescription,
       saveDuration = histogram RepositorySaveDurationMetricName MetricUnitMilliseconds RepositorySaveDurationMetricDescription\<rparr>)"

lemma NewInstrumentedEventStore_recording:
  "NewInstrumentedEventStore recording_api store options = Inr (recorded_store options store)"
  unfolding NewInstrumentedEventStore_def newConfig_recording
  by (simp add: ies_registerMetrics_def config_meter_def config_tracer_def recording_api_def recorded_store_def Let_def)

lemma NewInstrumentedRepository_recording:
  "NewInstrumentedRepository recording_api t repository options = Inr (recorded_repository options t repository)"
  unfolding NewInstrumentedRepository_def newConfig_recording
  by (simp add: ir_registerMetrics_def config_meter_def config_tracer_def recording_api_def recorded_repository_def Let_def)

lemma keeps_context_recording [simp]: "keeps_context (recording_tracer provider library)"
  by (simp add: recording_tracer_def keeps_context_def)

lemma keeps_context_recording_config [simp]: "keeps_context (config_tracer recording_api (newConfig recording_api options))"
  by (simp add: config_tracer_def newConfig_recording) (simp add: recording_api_def)

lemma recorded_store_simps [simp]:
  "ies_eventStore (recorded_store options store) = store" "keeps_context (ies_tracer (recorded_store options store))"
  "ir_repository (recorded_repository options t repository) = repository"
  "keeps_context (ir_tracer (recorded_repository options t repository))"
  by (simp_all add: recorded_store_def recorded_repository_def Let_def)

section \<open>The wrappers keep the contracts\<close>

interpretation instrumented: event_store
  "InstrumentedEventStore_Append (recorded_store [] InMemoryStore_Store) now"
  "InstrumentedEventStore_Stream (recorded_store [] InMemoryStore_Store) now"
  "\<lambda>(st, w). mem_log st" "\<lambda>(st, w). True" for now :: "nat \<Rightarrow> int"
  by (rule mem.instrumented_event_store) (simp_all add: go_defs)

interpretation instrumented_users: user_event_store
  "InstrumentedEventStore_Append (recorded_store [] InMemoryStore_Store) now"
  "InstrumentedEventStore_Stream (recorded_store [] InMemoryStore_Store) now"
  "\<lambda>(st, w). mem_log st" "\<lambda>(st, w). True" for now :: "nat \<Rightarrow> int"
  by unfold_locales

definition instrumented_Store ::
  "('m, 'st, 'o) InstrumentedEventStore \<Rightarrow> (nat \<Rightarrow> int) \<Rightarrow> ('m, 'st \<times> 'o) Store" where
  "instrumented_Store ies now =
     \<lparr>Append = InstrumentedEventStore_Append ies now, Stream = InstrumentedEventStore_Stream ies now\<rparr>"

section \<open>Properties\<close>

text \<open>C39: Around any event store, with any options and any telemetry backend whose tracer derives
  contexts that are cancelled with the given one, an instrumented append returns what the store's append
  returns and leaves the store in the same state; a loop over an instrumented stream goes through the
  same values with the same effects, panics when the store's would, and \<open>Err\<close> is the store's error, or
  nil when the loop was left early.\<close>

theorem InstrumentedEventStore_transparent:
  fixes store :: "('m, 'st) Store"
  assumes "NewInstrumentedEventStore api store options = Inr ies" and "keeps_context (config_tracer api (newConfig api options))"
  shows "(\<exists>w'. InstrumentedEventStore_Append ies now ctx sid expected evts (st, w) =
            (fst (Append store ctx sid expected evts st), (snd (Append store ctx sid expected evts st), w'))) \<and>
     (case for_range body (Stream store ctx sid selector) st s of
        None \<Rightarrow> for_range body (InstrumentedEventStore_Stream ies now ctx sid selector) (st, w) s = None
      | Some (exit, strm0, st', s') \<Rightarrow>
          \<exists>strm w'. for_range body (InstrumentedEventStore_Stream ies now ctx sid selector) (st, w) s =
              Some (exit, strm, (st', w'), s') \<and>
            Err strm = (if exit = None then Err strm0 else None))"
proof -
  have ies: "ies_eventStore ies = store" "keeps_context (ies_tracer ies)"
    using assms by (auto simp: NewInstrumentedEventStore_def Let_def split: sum.splits)
  obtain finish where range: "for_range body (InstrumentedEventStore_Stream ies now ctx sid selector) (st, w) s =
     map_option (\<lambda>(exit, strm0, st', s').
         let e = if exit = None then Err strm0 else None
         in (exit, (InstrumentedEventStore_Stream ies now ctx sid selector)\<lparr>iterated := True, err := e\<rparr>, finish e st', s'))
       (for_range body (Stream store ctx sid selector) st s)" and finish: "\<forall>e st. fst (finish e st) = st"
    using InstrumentedEventStore_Stream_range [OF ies(2), of body now ctx sid selector st w s] ies(1) by auto
  show ?thesis
  proof (cases "for_range body (Stream store ctx sid selector) st s")
    case None
    with range show ?thesis
      using InstrumentedEventStore_Append_fst [OF ies(2), of ctx sid expected evts st] ies(1) by simp
  next
    case (Some out)
    obtain exit strm0 st' s' where out: "out = (exit, strm0, st', s')" by (cases out)
    moreover obtain w' where "finish (if exit = None then Err strm0 else None) st' = (st', w')"
      using finish by (metis prod.collapse)
    ultimately show ?thesis
      using InstrumentedEventStore_Append_fst [OF ies(2), of ctx sid expected evts st] ies(1) range Some
      by (auto simp: Let_def Err_def)
  qed
qed

theorem InstrumentedEventStore_transparent_witness:
  "\<exists>w'. InstrumentedEventStore_Append (recorded_store [] InMemoryStore_Store) (\<lambda>_. 0) Background ''a'' CheckAny [ToEnvelope (1 :: nat)]
     (NewInMemoryStore, []) =
     ((1, None), (snd (InMemoryStore_Append Background ''a'' CheckAny [ToEnvelope 1] NewInMemoryStore), w'))"
proof -
  have "keeps_context (config_tracer recording_api (newConfig recording_api []))" by simp
  note InstrumentedEventStore_transparent [OF NewInstrumentedEventStore_recording [of InMemoryStore_Store "[]"] this,
      where ctx = Background and sid = "''a''" and expected = CheckAny and evts = "[ToEnvelope (1 :: nat)]" and st = NewInMemoryStore
      and w = "[]" and now = "\<lambda>_. 0"]
  moreover have "Append InMemoryStore_Store = InMemoryStore_Append" by (simp add: InMemoryStore_Store_def)
  moreover have "fst (InMemoryStore_Append Background ''a'' CheckAny [ToEnvelope (1 :: nat)] NewInMemoryStore) = (1, None)"
    by (simp add: InMemoryStore_Append_ok NewInMemoryStore_def)
  ultimately show ?thesis by (metis (no_types, lifting))
qed

text \<open>Around any repository, an instrumented \<open>Get\<close> or \<open>Save\<close> returns what the repository returns, leaves
  it and the root in the same state, and panics when it does.\<close>

theorem InstrumentedRepository_transparent:
  assumes "NewInstrumentedRepository api t repository options = Inr ir"
    and "keeps_context (config_tracer api (newConfig api options))"
  shows "map_option (\<lambda>(r, st', w'). (r, st')) (InstrumentedRepository_Get ir now ctx i (st, w)) = Get repository ctx i st \<and>
     (case InstrumentedRepository_Save ir now ctx root (st, w) of
        (e, root', (st', w')) \<Rightarrow> (e, root', st') = Save repository ctx root st)"
proof -
  have ir: "ir_repository ir = repository" "keeps_context (ir_tracer ir)"
    using assms by (auto simp: NewInstrumentedRepository_def Let_def split: sum.splits)
  obtain e root' st' where s: "Save repository ctx root st = (e, root', st')" by (metis prod_cases3)
  with InstrumentedRepository_Save_fst [OF ir(2), of ctx root st e root' st' now w] ir(1)
    InstrumentedRepository_Get_fst [OF ir(2), of now ctx i st w]
  show ?thesis by auto
qed

theorem InstrumentedRepository_transparent_witness:
  "map_option (\<lambda>(r, st', w'). (r, st')) (InstrumentedRepository_Get
      (recorded_repository [] (TodoList_Type unary) (todoListRepository unary)) (\<lambda>_. 0) Background 1 (groceries_store, [])) =
   Get (todoListRepository unary) Background 1 groceries_store"
proof -
  have "keeps_context (config_tracer recording_api (newConfig recording_api []))" by simp
  from InstrumentedRepository_transparent [OF NewInstrumentedRepository_recording [of "TodoList_Type unary" "todoListRepository unary" "[]"] this]
  show ?thesis by simp
qed

text \<open>What one traced and measured operation leaves on the recording backend.\<close>

definition operation_trace ::
  "(nat, nat) otel_Option list \<Rightarrow> string \<Rightarrow> attribute list \<Rightarrow> string \<Rightarrow> string \<Rightarrow> int \<Rightarrow> attribute list \<Rightarrow>
   error option \<Rightarrow> attribute list list \<Rightarrow> telemetry list" where
  "operation_trace options span span_attributes metric description ms attributes e extra =
     [SpanStarted (chosen_tracer options) ''github.com/get-eventually/go-eventually/opentelemetry'' span span_attributes,
      Measured (chosen_meter options) ''github.com/get-eventually/go-eventually/opentelemetry'' metric ''ms'' description ms
        (attributes @ [BoolAttr ''error'' (e \<noteq> None)])] @
     (case e of Some x \<Rightarrow> [ErrorRecorded x, StatusSet x] | None \<Rightarrow> map AttributesSet extra) @ [SpanEnded]"

lemmas recorded_defs = operation_trace_def recorded_store_def recorded_repository_def otel_finish_def recording_span_def
  recording_histogram_def recording_tracer_def InstrumentationName_def MetricUnitMilliseconds_def ErrorAttribute_def

lemmas event_store_names = EventStreamIDKey_def EventStreamVersionSelectorKey_def EventStreamExpectedVersionKey_def
  EventStoreNumEventsKey_def EventStoreStreamSpanName_def EventStoreAppendSpanName_def
  EventStoreStreamDurationMetricName_def EventStoreStreamDurationMetricDescription_def
  EventStoreAppendDurationMetricName_def EventStoreAppendDurationMetricDescription_def

lemmas repository_names = AggregateTypeAttribute_def AggregateVersionAttribute_def AggregateIDAttribute_def
  RepositoryGetSpanName_def RepositorySaveSpanName_def
  RepositoryGetDurationMetricName_def RepositoryGetDurationMetricDescription_def
  RepositorySaveDurationMetricName_def RepositorySaveDurationMetricDescription_def

text \<open>One lemma per instrumented operation; names and attributes are spelled out as the backend receives them.\<close>

lemma Append_recorded:
  "InstrumentedEventStore_Append (recorded_store options store) now ctx sid expected evts (st, w) =
     (case Append store ctx sid expected evts st of
        ((v, e), st') \<Rightarrow>
          ((v, e), (st', w @ operation_trace options ''event.Store.Append''
             [StringAttr ''event_stream.id'' sid,
              IntAttr ''event_stream.expected_version'' (case expected of CheckAny \<Rightarrow> - 1 | CheckExact n \<Rightarrow> uint n),
              IntAttr ''event_store.num_events'' (int (length evts))]
             ''eventually.event_store.append.duration.milliseconds''
             ''Duration in milliseconds of event.Store.Append operations performed.'' (now 1 - now 0) [] e [])))"
  by (cases expected) (auto simp: InstrumentedEventStore_Append_def recorded_defs event_store_names Let_def split: option.splits prod.splits)

lemma Stream_recorded:
  "for_range body (InstrumentedEventStore_Stream (recorded_store options store) now ctx sid selector) (st, w) s =
     (case for_range body (Stream store ctx sid selector) st s of
        None \<Rightarrow> None
      | Some (exit, strm0, st', s') \<Rightarrow>
          (let e = if exit = None then Err strm0 else None in
           Some (exit, (InstrumentedEventStore_Stream (recorded_store options store) now ctx sid selector)\<lparr>iterated := True, err := e\<rparr>,
             (st', w @ operation_trace options ''event.Store.Stream''
               [StringAttr ''event_stream.id'' sid, IntAttr ''event_stream.select_from_version'' (uint (From selector))]
               ''eventually.event_store.stream.duration.milliseconds''
               ''Duration in milliseconds of event.Store.Stream operations performed.'' (now 1 - now 0) [] e []), s')))"
proof -
  let ?attributes = "[StringAttr EventStreamIDKey sid, IntAttr EventStreamVersionSelectorKey (uint (From selector))]"
  have "ies_tracer (recorded_store options store) ctx EventStoreStreamSpanName ?attributes w =
      (ctx, recording_span, w @ [SpanStarted (chosen_tracer options) InstrumentationName EventStoreStreamSpanName ?attributes])"
    by (simp add: recorded_store_def recording_tracer_def Let_def)
  from InstrumentedEventStore_Stream_traced [OF this, of body now st s] show ?thesis
    by (cases "for_range body (Stream store ctx sid selector) st s")
      (auto simp: Let_def recorded_defs event_store_names split: option.splits)
qed

lemma Get_recorded:
  "InstrumentedRepository_Get (recorded_repository options t repository) now ctx i (st, w) =
     (case Get repository ctx i st of
        None \<Rightarrow> None
      | Some (r, st') \<Rightarrow>
          Some (r, (st', w @ operation_trace options ''aggregate.Repository.Get''
            [StringAttr ''aggregate.type'' (Name t), StringAttr ''aggregate.id'' (String t i)]
            ''eventually.repository.get.duration.milliseconds''
            ''Duration in milliseconds of aggregate.Repository.Get operations performed.'' (now 1 - now 0)
            [StringAttr ''aggregate.type'' (Name t)]
            (case r of Inl e \<Rightarrow> Some e | Inr _ \<Rightarrow> None)
            (case r of Inl _ \<Rightarrow> [] | Inr root \<Rightarrow> [[IntAttr ''aggregate.version'' (uint (version root))]]))))"
  by (auto simp: InstrumentedRepository_Get_def recorded_defs repository_names Let_def split: option.splits sum.splits prod.splits)

lemma Save_recorded:
  "InstrumentedRepository_Save (recorded_repository options t repository) now ctx root (st, w) =
     (case Save repository ctx root st of
        (e, root', st') \<Rightarrow>
          (e, root', (st', w @ operation_trace options ''aggregate.Repository.Save''
            [StringAttr ''aggregate.type'' (Name t), StringAttr ''aggregate.id'' (String t (AggregateID t root)),
             IntAttr ''aggregate.version'' (uint (version root))]
            ''eventually.repository.save.duration.milliseconds''
            ''Duration in milliseconds of aggregate.Repository.Save operations performed.'' (now 1 - now 0)
            [StringAttr ''aggregate.type'' (Name t)] e [])))"
  by (auto simp: InstrumentedRepository_Save_def recorded_defs repository_names Let_def split: option.splits prod.splits)

text \<open>C40: An event store and a repository instrumented with any options on the recording backend leave, for every append, every loop over a
  stream that does not panic, every load that does not panic and every save, exactly these records in this order: the start of a span with the
  operation's name and attributes, from the tracer provider given last or the global one; one measurement on the operation's own histogram, in
  milliseconds, of the time between the two readings of the clock, with the error flag; the error and the
  status exactly when the operation failed, which a loop that its consumer left early did not; the version of the root when a load succeeded;
  and the end of the span. The expected version of an append is reported as -1 when any is accepted.\<close>

theorem Instrumented_telemetry:
  "\<exists>ies ir. NewInstrumentedEventStore recording_api store options = Inr ies \<and>
     NewInstrumentedRepository recording_api t repository options = Inr ir \<and>
     InstrumentedEventStore_Append ies now ctx sid expected evts (st, w) =
       (case Append store ctx sid expected evts st of
          ((v, e), st') \<Rightarrow>
            ((v, e), (st', w @ operation_trace options ''event.Store.Append''
               [StringAttr ''event_stream.id'' sid,
                IntAttr ''event_stream.expected_version'' (case expected of CheckAny \<Rightarrow> - 1 | CheckExact n \<Rightarrow> uint n),
                IntAttr ''event_store.num_events'' (int (length evts))]
               ''eventually.event_store.append.duration.milliseconds''
               ''Duration in milliseconds of event.Store.Append operations performed.'' (now 1 - now 0) [] e []))) \<and>
     for_range body (InstrumentedEventStore_Stream ies now ctx sid selector) (st, w) s =
       (case for_range body (Stream store ctx sid selector) st s of
          None \<Rightarrow> None
        | Some (exit, strm0, st', s') \<Rightarrow>
            (let e = if exit = None then Err strm0 else None in
             Some (exit, (InstrumentedEventStore_Stream ies now ctx sid selector)\<lparr>iterated := True, err := e\<rparr>,
               (st', w @ operation_trace options ''event.Store.Stream''
                 [StringAttr ''event_stream.id'' sid, IntAttr ''event_stream.select_from_version'' (uint (From selector))]
                 ''eventually.event_store.stream.duration.milliseconds''
                 ''Duration in milliseconds of event.Store.Stream operations performed.'' (now 1 - now 0) [] e []), s'))) \<and>
     InstrumentedRepository_Get ir now ctx i (rst, w) =
       (case Get repository ctx i rst of
          None \<Rightarrow> None
        | Some (r, rst') \<Rightarrow>
            Some (r, (rst', w @ operation_trace options ''aggregate.Repository.Get''
              [StringAttr ''aggregate.type'' (Name t), StringAttr ''aggregate.id'' (String t i)]
              ''eventually.repository.get.duration.milliseconds''
              ''Duration in milliseconds of aggregate.Repository.Get operations performed.'' (now 1 - now 0)
              [StringAttr ''aggregate.type'' (Name t)]
              (case r of Inl e \<Rightarrow> Some e | Inr _ \<Rightarrow> None)
              (case r of Inl _ \<Rightarrow> [] | Inr root \<Rightarrow> [[IntAttr ''aggregate.version'' (uint (version root))]])))) \<and>
     InstrumentedRepository_Save ir now ctx root (rst, w) =
       (case Save repository ctx root rst of
          (e, root', rst') \<Rightarrow>
            (e, root', (rst', w @ operation_trace options ''aggregate.Repository.Save''
              [StringAttr ''aggregate.type'' (Name t), StringAttr ''aggregate.id'' (String t (AggregateID t root)),
               IntAttr ''aggregate.version'' (uint (version root))]
              ''eventually.repository.save.duration.milliseconds''
              ''Duration in milliseconds of aggregate.Repository.Save operations performed.'' (now 1 - now 0)
              [StringAttr ''aggregate.type'' (Name t)] e [])))"
  by (intro exI conjI)
    (rule NewInstrumentedEventStore_recording NewInstrumentedRepository_recording Append_recorded Stream_recorded Get_recorded Save_recorded)+

text \<open>The executable suites of the repository for event stores and, through it, for aggregate repositories
  pass on the instrumented in-memory store.\<close>

theorem EventStoreSuite_passes_instrumented:
  assumes "distinct [us i1, us i2, us i3]" and "\<not> IsZero t"
  shows "\<exists>out. EventStoreSuite (instrumented_Store (recorded_store [] InMemoryStore_Store) now) us i1 i2 i3 t repository_now stamp
     (NewInMemoryStore, []) = Some (True, out)"
  using instrumented_users.event_store_suite_passes [of "(NewInMemoryStore, [])" us i1 i2 i3 t now repository_now stamp] assms
  by (simp add: instrumented_Store_def NewInMemoryStore_def)

theorem EventStoreSuite_passes_instrumented_witness:
  "\<exists>out. EventStoreSuite (instrumented_Store (recorded_store [] InMemoryStore_Store) (\<lambda>_. 0)) unary 1 2 3 epoch epoch ''now''
     (NewInMemoryStore, []) = Some (True, out)"
proof -
  have "distinct [unary 1, unary 2, unary 3]" using inj_unary by (simp add: inj_eq)
  from EventStoreSuite_passes_instrumented [OF this not_zero_epoch] show ?thesis by blast
qed

end
