(* ===== verification/Concurrent_Store.thy ===== *)
theory Concurrent_Store
  imports InMemory_Store Go_Sync
begin

text \<open>
  The in-memory event store under concurrent goroutines: the steps of \<open>Append\<close> and \<open>Stream\<close> of
  \<open>event/store_inmemory.go\<close> one by one, with \<open>sync.RWMutex\<close> between them, interleaved in any order.
\<close>

section \<open>Calls in progress\<close>

text \<open>
  A frame is a call with its program point and local variables. \<open>b\<close> is the length of the history when
  it was called and \<open>p\<close> its position in the history once it took effect; these two, the history and
  the list of returned calls only serve the statements below. A stream remembers the events it
  has \<open>seen\<close> its consumer take; while it yields, the consumer runs in the same goroutine and may call the
  store again, so a goroutine is a stack of frames.
\<close>

datatype 'm frame =
    AppendCalled nat StreamID Check "'m Envelope list"
  | AppendWaiting nat StreamID Check "'m Envelope list"
  | AppendLocked nat StreamID Check "'m Envelope list"
  | AppendChecked nat StreamID Check "'m Envelope list"
  | AppendWritten nat nat StreamID Check "'m Envelope list"
  | AppendDone nat nat StreamID Check "'m Envelope list" "Version \<times> error option"
  | StreamCalled nat StreamID Selector
  | StreamLocked nat StreamID Selector
  | StreamAt nat nat StreamID Selector "'m Envelope list" nat "'m Persisted list"
  | StreamYielding nat nat StreamID Selector "'m Envelope list" nat "'m Persisted list"
  | StreamDone nat nat StreamID Selector bool "'m Persisted list" "error option"

datatype 'm entry =
    Appended tid StreamID Check "'m Envelope list" "Version \<times> error option"
  | Opened tid StreamID Selector "'m Envelope list"

datatype 'm request =
    AppendRequest StreamID Check "'m Envelope list"
  | StreamRequest StreamID Selector

datatype 'm outcome =
    AppendReturned "Version \<times> error option"
  | StreamReturned bool "'m Persisted list" "error option"

record 'm returned =
  ret_tid :: tid
  ret_request :: "'m request"
  ret_called :: nat
  ret_effect :: nat
  ret_returned :: nat
  ret_outcome :: "'m outcome"

record 'm sys =
  mutex :: RWMutex
  store :: "'m InMemoryStore"
  stacks :: "tid \<Rightarrow> 'm frame list"
  history :: "'m entry list"
  finished :: "'m returned list"

definition start_sys :: "'m sys" where
  "start_sys = \<lparr>mutex = free_mutex, store = NewInMemoryStore, stacks = (\<lambda>_. []), history = [], finished = []\<rparr>"

abbreviation set_stack :: "tid \<Rightarrow> 'm frame list \<Rightarrow> 'm sys \<Rightarrow> 'm sys" where
  "set_stack t fs s \<equiv> s\<lparr>stacks := (stacks s)(t := fs)\<rparr>"

fun yielding :: "'m frame \<Rightarrow> bool" where
  "yielding (StreamYielding b p sid sel evs i seen) = True"
| "yielding _ = False"

text \<open>A goroutine can call the store when it runs nothing of the store, or the body of a loop over a stream.\<close>

fun can_call :: "'m frame list \<Rightarrow> bool" where
  "can_call [] = True"
| "can_call (f # fs) = yielding f"

inductive call_step :: "tid \<Rightarrow> 'm sys \<Rightarrow> 'm sys \<Rightarrow> bool" for t :: tid where
  call_append: "can_call (stacks s t) \<Longrightarrow>
     call_step t s (set_stack t (AppendCalled (length (history s)) sid c evs # stacks s t) s)"
| call_stream: "can_call (stacks s t) \<Longrightarrow>
     call_step t s (set_stack t (StreamCalled (length (history s)) sid sel # stacks s t) s)"

section \<open>The steps of the operations\<close>

text \<open>
  \<open>cancel\<close>: \<open>ctx.Err()\<close> can report an error at any check. \<open>resume\<close> and \<open>leave\<close> are the consumer's answers to \<open>yield\<close>.
\<close>

inductive run_step :: "tid \<Rightarrow> 'm sys \<Rightarrow> 'm sys \<Rightarrow> bool" for t :: tid where
  lock_announce: "stacks s t = AppendCalled b sid c evs # fs \<Longrightarrow> holder (mutex s) = None \<Longrightarrow>
     run_step t s (set_stack t (AppendWaiting b sid c evs # fs) (s\<lparr>mutex := announce t (mutex s)\<rparr>))"
| lock_acquire: "stacks s t = AppendWaiting b sid c evs # fs \<Longrightarrow> readers (mutex s) = [] \<Longrightarrow>
     run_step t s (set_stack t (AppendLocked b sid c evs # fs) (s\<lparr>mutex := acquire (mutex s)\<rparr>))"
| check_ok: "stacks s t = AppendLocked b sid c evs # fs \<Longrightarrow> check_passes c (version_of (mem_log (store s) sid)) \<Longrightarrow>
     run_step t s (set_stack t (AppendChecked b sid c evs # fs) s)"
| check_fail: "stacks s t = AppendLocked b sid (CheckExact v) evs # fs \<Longrightarrow> v \<noteq> version_of (mem_log (store s) sid) \<Longrightarrow>
     r = (0, Some (Errorf ''event.InMemoryStore: failed to append events, %w''
            [Conflict \<lparr>Expected = v, Actual = version_of (mem_log (store s) sid)\<rparr>])) \<Longrightarrow>
     run_step t s (set_stack t (AppendDone b (length (history s)) sid (CheckExact v) evs r # fs)
       (s\<lparr>history := history s @ [Appended t sid (CheckExact v) evs r]\<rparr>))"
| write_log: "stacks s t = AppendChecked b sid c evs # fs \<Longrightarrow> log = mem_log (store s) sid @ evs \<Longrightarrow>
     run_step t s (set_stack t (AppendWritten b (length (history s)) sid c evs # fs)
       (s\<lparr>store := (store s)\<lparr>events := (events (store s))(sid \<mapsto> log)\<rparr>,
          history := history s @ [Appended t sid c evs (version_of log, None)]\<rparr>))"
| measure_log: "stacks s t = AppendWritten b p sid c evs # fs \<Longrightarrow>
     run_step t s (set_stack t (AppendDone b p sid c evs (version_of (mem_log (store s) sid), None) # fs) s)"
| unlock: "stacks s t = AppendDone b p sid c evs r # fs \<Longrightarrow>
     run_step t s (set_stack t fs (s\<lparr>mutex := Unlock (mutex s),
       finished := finished s @ [\<lparr>ret_tid = t, ret_request = AppendRequest sid c evs, ret_called = b, ret_effect = p, ret_returned = length (history s),
                                  ret_outcome = AppendReturned r\<rparr>]\<rparr>))"
| rlock: "stacks s t = StreamCalled b sid sel # fs \<Longrightarrow> holder (mutex s) = None \<Longrightarrow>
     run_step t s (set_stack t (StreamLocked b sid sel # fs) (s\<lparr>mutex := RLock t (mutex s)\<rparr>))"
| lookup: "stacks s t = StreamLocked b sid sel # fs \<Longrightarrow> evs = mem_log (store s) sid \<Longrightarrow>
     run_step t s (set_stack t (StreamAt b (length (history s)) sid sel evs 0 [] # fs)
       (s\<lparr>history := history s @ [Opened t sid sel evs]\<rparr>))"
| cancel: "stacks s t = StreamAt b p sid sel evs i seen # fs \<Longrightarrow> i < length evs \<Longrightarrow>
     run_step t s (set_stack t (StreamDone b p sid sel False seen (Some (Errorf ''event.InMemoryStore: context error, %w'' [cause])) # fs) s)"
| skip: "stacks s t = StreamAt b p sid sel evs i seen # fs \<Longrightarrow> i < length evs \<Longrightarrow>
     word_of_nat i + 1 < From sel \<Longrightarrow>
     run_step t s (set_stack t (StreamAt b p sid sel evs (Suc i) seen # fs) s)"
| yield_event: "stacks s t = StreamAt b p sid sel evs i seen # fs \<Longrightarrow> i < length evs \<Longrightarrow>
     \<not> word_of_nat i + 1 < From sel \<Longrightarrow>
     run_step t s (set_stack t (StreamYielding b p sid sel evs i
       (seen @ [\<lparr>StreamID = sid, Version = word_of_nat i + 1, Envelope = evs ! i\<rparr>]) # fs) s)"
| resume: "stacks s t = StreamYielding b p sid sel evs i seen # fs \<Longrightarrow>
     run_step t s (set_stack t (StreamAt b p sid sel evs (Suc i) seen # fs) s)"
| leave: "stacks s t = StreamYielding b p sid sel evs i seen # fs \<Longrightarrow>
     run_step t s (set_stack t (StreamDone b p sid sel True seen None # fs) s)"
| exhaust_log: "stacks s t = StreamAt b p sid sel evs i seen # fs \<Longrightarrow> i = length evs \<Longrightarrow>
     run_step t s (set_stack t (StreamDone b p sid sel False seen None # fs) s)"
| runlock: "stacks s t = StreamDone b p sid sel left seen e # fs \<Longrightarrow>
     run_step t s (set_stack t fs (s\<lparr>mutex := RUnlock t (mutex s),
       finished := finished s @ [\<lparr>ret_tid = t, ret_request = StreamRequest sid sel, ret_called = b, ret_effect = p, ret_returned = length (history s),
                                  ret_outcome = StreamReturned left seen e\<rparr>]\<rparr>))"

inductive step :: "'m sys \<Rightarrow> 'm sys \<Rightarrow> bool" where
  call: "call_step t s s' \<Longrightarrow> step s s'"
| run: "run_step t s s' \<Longrightarrow> step s s'"

inductive reachable :: "'m sys \<Rightarrow> bool" where
  start: "reachable start_sys"
| next_state: "reachable s \<Longrightarrow> step s s' \<Longrightarrow> reachable s'"

section \<open>Schedules\<close>

text \<open>
  The same steps as a function, for runs on concrete inputs: at each turn the schedule names a goroutine
  and what it decides, where the program leaves it a choice.
\<close>

datatype 'm choice =
    CallAppend StreamID Check "'m Envelope list"
  | CallStream StreamID Selector
  | Go
  | Leave
  | Cancel error

fun turn :: "tid \<Rightarrow> 'm choice \<Rightarrow> 'm sys \<Rightarrow> 'm sys option" where
  "turn t (CallAppend sid c evs) s =
     (if can_call (stacks s t) then Some (set_stack t (AppendCalled (length (history s)) sid c evs # stacks s t) s) else None)"
| "turn t (CallStream sid sel) s =
     (if can_call (stacks s t) then Some (set_stack t (StreamCalled (length (history s)) sid sel # stacks s t) s) else None)"
| "turn t ch s = (case stacks s t of [] \<Rightarrow> None | f # fs \<Rightarrow>
     (case f of
        AppendCalled b sid c evs \<Rightarrow>
          (if ch = Go \<and> holder (mutex s) = None
           then Some (set_stack t (AppendWaiting b sid c evs # fs) (s\<lparr>mutex := announce t (mutex s)\<rparr>)) else None)
      | AppendWaiting b sid c evs \<Rightarrow>
          (if ch = Go \<and> readers (mutex s) = []
           then Some (set_stack t (AppendLocked b sid c evs # fs) (s\<lparr>mutex := acquire (mutex s)\<rparr>)) else None)
      | AppendLocked b sid c evs \<Rightarrow>
          (if ch = Go \<and> check_passes c (version_of (mem_log (store s) sid))
           then Some (set_stack t (AppendChecked b sid c evs # fs) s)
           else (case c of
                   CheckAny \<Rightarrow> None
                 | CheckExact v \<Rightarrow>
                     (if ch = Go \<and> v \<noteq> version_of (mem_log (store s) sid)
                      then let r = (0, Some (Errorf ''event.InMemoryStore: failed to append events, %w''
                             [Conflict \<lparr>Expected = v, Actual = version_of (mem_log (store s) sid)\<rparr>])) in
                        Some (set_stack t (AppendDone b (length (history s)) sid c evs r # fs)
                          (s\<lparr>history := history s @ [Appended t sid c evs r]\<rparr>)) else None)))
      | AppendChecked b sid c evs \<Rightarrow>
          (if ch = Go then let log = mem_log (store s) sid @ evs in
             Some (set_stack t (AppendWritten b (length (history s)) sid c evs # fs)
               (s\<lparr>store := (store s)\<lparr>events := (events (store s))(sid \<mapsto> log)\<rparr>,
                  history := history s @ [Appended t sid c evs (version_of log, None)]\<rparr>)) else None)
      | AppendWritten b p sid c evs \<Rightarrow>
          (if ch = Go then Some (set_stack t (AppendDone b p sid c evs (version_of (mem_log (store s) sid), None) # fs) s) else None)
      | AppendDone b p sid c evs r \<Rightarrow>
          (if ch = Go then Some (set_stack t fs (s\<lparr>mutex := Unlock (mutex s),
             finished := finished s @ [\<lparr>ret_tid = t, ret_request = AppendRequest sid c evs, ret_called = b, ret_effect = p,
               ret_returned = length (history s), ret_outcome = AppendReturned r\<rparr>]\<rparr>)) else None)
      | StreamCalled b sid sel \<Rightarrow>
          (if ch = Go \<and> holder (mutex s) = None
           then Some (set_stack t (StreamLocked b sid sel # fs) (s\<lparr>mutex := RLock t (mutex s)\<rparr>)) else None)
      | StreamLocked b sid sel \<Rightarrow>
          (if ch = Go then let evs = mem_log (store s) sid in
             Some (set_stack t (StreamAt b (length (history s)) sid sel evs 0 [] # fs)
               (s\<lparr>history := history s @ [Opened t sid sel evs]\<rparr>)) else None)
      | StreamAt b p sid sel evs i seen \<Rightarrow>
          (if i < length evs then
             (case ch of
                Cancel cause \<Rightarrow> Some (set_stack t (StreamDone b p sid sel False seen
                  (Some (Errorf ''event.InMemoryStore: context error, %w'' [cause])) # fs) s)
              | Go \<Rightarrow> if word_of_nat i + 1 < From sel then Some (set_stack t (StreamAt b p sid sel evs (Suc i) seen # fs) s)
                  else Some (set_stack t (StreamYielding b p sid sel evs i
                    (seen @ [\<lparr>StreamID = sid, Version = word_of_nat i + 1, Envelope = evs ! i\<rparr>]) # fs) s)
              | _ \<Rightarrow> None)
           else if i = length evs \<and> ch = Go then Some (set_stack t (StreamDone b p sid sel False seen None # fs) s) else None)
      | StreamYielding b p sid sel evs i seen \<Rightarrow>
          (case ch of Go \<Rightarrow> Some (set_stack t (StreamAt b p sid sel evs (Suc i) seen # fs) s)
           | Leave \<Rightarrow> Some (set_stack t (StreamDone b p sid sel True seen None # fs) s)
           | _ \<Rightarrow> None)
      | StreamDone b p sid sel left seen e \<Rightarrow>
          (if ch = Go then Some (set_stack t fs (s\<lparr>mutex := RUnlock t (mutex s),
             finished := finished s @ [\<lparr>ret_tid = t, ret_request = StreamRequest sid sel, ret_called = b, ret_effect = p,
               ret_returned = length (history s), ret_outcome = StreamReturned left seen e\<rparr>]\<rparr>)) else None)))"

fun turns :: "(tid \<times> 'm choice) list \<Rightarrow> 'm sys \<Rightarrow> 'm sys option" where
  "turns [] s = Some s"
| "turns ((t, ch) # sched) s = (case turn t ch s of None \<Rightarrow> None | Some s' \<Rightarrow> turns sched s')"

section \<open>The sequential specification\<close>

text \<open>
  A history is legal when the operations, one after the other, give the recorded results on the
  sequential model of the store.
\<close>

fun replay_history :: "'m entry list \<Rightarrow> 'm InMemoryStore \<Rightarrow> 'm InMemoryStore option" where
  "replay_history [] es = Some es"
| "replay_history (Appended t sid c evs r # h) es =
     (let (r', es') = InMemoryStore_Append Background sid c evs es in if r' = r then replay_history h es' else None)"
| "replay_history (Opened t sid sel evs # h) es = (if evs = mem_log es sid then replay_history h es else None)"

text \<open>
  What an entry of the history says of the outcome of a request of a goroutine. A stream has shown its consumer the
  selected events of a prefix of the log it opened, the whole log when it ended on its own, without the
  consumer having \<open>left\<close> the loop and without an error.
\<close>

definition stream_shows :: "StreamID \<Rightarrow> Selector \<Rightarrow> 'm Envelope list \<Rightarrow> bool \<Rightarrow> 'm Persisted list \<Rightarrow> error option \<Rightarrow> bool" where
  "stream_shows sid sel evs left seen e \<longleftrightarrow>
     (\<exists>n \<le> length evs. seen = filter (selects sel) (persisted_from sid 0 (take n evs)) \<and>
        (e = None \<and> \<not> left \<longrightarrow> n = length evs)) \<and>
     (e = None \<or> (\<not> left \<and> (\<exists>cause. e = Some (Errorf ''event.InMemoryStore: context error, %w'' [cause]))))"

fun explains :: "'m entry \<Rightarrow> tid \<Rightarrow> 'm request \<Rightarrow> 'm outcome \<Rightarrow> bool" where
  "explains (Appended t sid c evs r) t' q out \<longleftrightarrow> t' = t \<and> q = AppendRequest sid c evs \<and> out = AppendReturned r"
| "explains (Opened t sid sel evs) t' q out \<longleftrightarrow> t' = t \<and> q = StreamRequest sid sel \<and>
     (case out of AppendReturned r \<Rightarrow> False | StreamReturned left seen e \<Rightarrow> stream_shows sid sel evs left seen e)"

lemma replay_history_append:
  "replay_history (h @ [x]) es = (case replay_history h es of None \<Rightarrow> None | Some es' \<Rightarrow> replay_history [x] es')"
proof (induction h arbitrary: es)
  case Nil
  then show ?case by simp
next
  case (Cons y h)
  then show ?case by (cases y) (auto split: prod.splits)
qed

lemma turn_run:
  assumes "turn t ch s = Some s'" and "stacks s t = f # fs" and "ch \<in> {Go, Leave} \<union> range Cancel"
  shows "run_step t s s'"
  using assms
  by (cases f; auto split: if_splits choice.splits Check.splits simp: Let_def intro: run_step.intros [simplified] run_step.write_log [OF _ refl, simplified] run_step.lookup [OF _ refl] run_step.check_fail [OF _ _ refl, simplified])

lemma turn_step:
  assumes "turn t ch s = Some s'"
  shows "step s s'"
proof (cases "ch \<in> {Go, Leave} \<union> range Cancel")
  case True
  with assms obtain f fs where "stacks s t = f # fs" by (cases "stacks s t") auto
  with assms True show ?thesis by (blast intro: turn_run step.run)
next
  case False
  with assms show ?thesis by (cases ch) (auto split: if_splits intro: step.call call_step.intros)
qed

lemma turns_steps: "turns sched s = Some s' \<Longrightarrow> step\<^sup>*\<^sup>* s s'"
proof (induction sched arbitrary: s)
  case Nil
  then show ?case by simp
next
  case (Cons a sched)
  then show ?case by (cases a) (auto split: option.splits dest!: turn_step intro: converse_rtranclp_into_rtranclp)
qed

lemma reachable_steps: "step\<^sup>*\<^sup>* s s' \<Longrightarrow> reachable s \<Longrightarrow> reachable s'"
  by (induction rule: rtranclp_induct) (auto intro: reachable.next_state)

lemma reachable_turns: "turns sched start_sys = Some s \<Longrightarrow> reachable s"
  by (blast intro: reachable_steps turns_steps reachable.start)

end
