(* ===== verification/Concurrent_Invariants.thy ===== *)
theory Concurrent_Invariants
  imports Concurrent_Store "HOL-Library.Multiset"
begin

text \<open>
  The invariants of the concurrent in-memory store, each kept by every step: only the top frame of a
  goroutine is not a loop over a stream; the mutex is held by the frames that are inside it; the history
  explains the store, the frames and the returned calls; and no two calls share an effect.
\<close>

section \<open>Locks\<close>

fun writing :: "'m frame \<Rightarrow> bool" where
  "writing (AppendWaiting b sid c evs) = True"
| "writing (AppendLocked b sid c evs) = True"
| "writing (AppendChecked b sid c evs) = True"
| "writing (AppendWritten b p sid c evs) = True"
| "writing (AppendDone b p sid c evs r) = True"
| "writing _ = False"

fun owning :: "'m frame \<Rightarrow> bool" where
  "owning (AppendWaiting b sid c evs) = False"
| "owning f = writing f"

fun reading :: "'m frame \<Rightarrow> bool" where
  "reading (StreamLocked b sid sel) = True"
| "reading (StreamAt b p sid sel evs i seen) = True"
| "reading (StreamYielding b p sid sel evs i seen) = True"
| "reading (StreamDone b p sid sel left seen e) = True"
| "reading _ = False"

definition shape_inv :: "'m sys \<Rightarrow> bool" where
  "shape_inv s \<longleftrightarrow> (\<forall>t. list_all yielding (tl (stacks s t)))"

definition lock_inv :: "'m sys \<Rightarrow> bool" where
  "lock_inv s \<longleftrightarrow>
     (\<forall>t. holder (mutex s) = Some t \<longleftrightarrow> list_ex writing (stacks s t)) \<and>
     (\<forall>t. active (mutex s) \<and> holder (mutex s) = Some t \<longleftrightarrow> list_ex owning (stacks s t)) \<and>
     (holder (mutex s) = None \<longrightarrow> \<not> active (mutex s)) \<and>
     (\<forall>t. count_list (readers (mutex s)) t = length (filter reading (stacks s t))) \<and>
     (active (mutex s) \<longrightarrow> readers (mutex s) = [])"

lemma yielding_simps [simp]:
  "yielding f \<Longrightarrow> reading f" "yielding f \<Longrightarrow> \<not> writing f" "yielding f \<Longrightarrow> \<not> owning f" "owning f \<Longrightarrow> writing f"
  by (cases f; simp)+

lemma yielding_ex: "list_all yielding fs \<Longrightarrow> \<not> list_ex writing fs \<and> \<not> list_ex owning fs"
  by (induction fs) auto

lemma shape_top:
  assumes "shape_inv s" and "stacks s t = f # fs"
  shows "list_all yielding fs" "\<not> list_ex writing fs" "\<not> list_ex owning fs"
proof -
  show "list_all yielding fs" using assms by (metis list.sel(3) shape_inv_def)
  then show "\<not> list_ex writing fs" "\<not> list_ex owning fs" using yielding_ex by blast+
qed

lemma owning_head:
  assumes "shape_inv s" and "f \<in> set (stacks s t)" and "owning f"
  shows "stacks s t = f # List.tl (stacks s t)"
  using assms by (cases "stacks s t") (auto simp: shape_inv_def list_all_iff dest!: spec [of _ t])

lemma list_all_tl: "list_all P xs \<Longrightarrow> list_all P (tl xs)"
  by (cases xs) auto

lemma call_step_shape:
  assumes "call_step t s s'" and "shape_inv s"
  shows "shape_inv s'"
proof -
  have "list_all yielding (stacks s t)" if "can_call (stacks s t)"
    using that assms(2) by (cases "stacks s t") (auto simp: shape_inv_def dest: spec [of _ t])
  with assms show ?thesis by (cases rule: call_step.cases) (auto simp: shape_inv_def)
qed

lemma run_step_shape: "run_step t s s' \<Longrightarrow> shape_inv s \<Longrightarrow> shape_inv s'"
proof (induction rule: run_step.induct)
qed (auto simp: shape_inv_def list_all_tl dest!: spec [of _ t] split: if_splits)

lemma call_step_lock: "call_step t s s' \<Longrightarrow> lock_inv s \<Longrightarrow> lock_inv s'"
  by (induction rule: call_step.induct) (auto simp: lock_inv_def split: if_splits)

lemma lock_exclusive:
  assumes "lock_inv s" and "stacks s t = f # fs" and "writing f"
  shows "holder (mutex s) = Some t" and "t' \<noteq> t \<Longrightarrow> \<not> list_ex writing (stacks s t')"
    and "t' \<noteq> t \<Longrightarrow> \<not> list_ex owning (stacks s t')"
proof -
  show h: "holder (mutex s) = Some t" using assms by (auto simp: lock_inv_def)
  assume "t' \<noteq> t"
  with h assms(1) show "\<not> list_ex writing (stacks s t')" "\<not> list_ex owning (stacks s t')"
    unfolding lock_inv_def by (metis option.inject)+
qed

lemma lock_inv_top:
  assumes "lock_inv s" and "stacks s t = f # fs" and "mutex s' = mutex s" and "stacks s' = (stacks s)(t := f' # fs)"
    and "writing f' = writing f" and "owning f' = owning f" and "reading f' = reading f"
  shows "lock_inv s'"
proof -
  have same: "list_ex writing (stacks s' u) = list_ex writing (stacks s u)" "list_ex owning (stacks s' u) = list_ex owning (stacks s u)"
    "length (filter reading (stacks s' u)) = length (filter reading (stacks s u))" for u
    using assms(2,4-7) by auto
  show ?thesis using assms(1) unfolding lock_inv_def assms(3) same .
qed

lemma run_step_lock: "run_step t s s' \<Longrightarrow> shape_inv s \<Longrightarrow> lock_inv s \<Longrightarrow> lock_inv s'"
proof (induction rule: run_step.induct)
  case (lock_announce s b sid c evs fs)
  then show ?case using shape_top [OF lock_announce.prems(1) lock_announce.hyps(1)]
    by (auto simp: lock_inv_def mutex_defs)
next
  case (lock_acquire s b sid c evs fs)
  from lock_exclusive [OF lock_acquire.prems(2) lock_acquire.hyps(1)] shape_top [OF lock_acquire.prems(1) lock_acquire.hyps(1)]
    lock_acquire spec [of "\<lambda>t. count_list (readers (mutex s)) t = length (filter reading (stacks s t))" t]
  show ?case by (auto simp: lock_inv_def mutex_defs)
next
  case (unlock s b p sid c evs r fs)
  from lock_exclusive [OF unlock.prems(2) unlock.hyps(1)] shape_top [OF unlock.prems(1) unlock.hyps(1)] unlock
  show ?case by (auto simp: lock_inv_def mutex_defs)
next
  case (rlock s b sid sel fs)
  then show ?case using shape_top [OF rlock.prems(1) rlock.hyps(1)] by (auto simp: lock_inv_def mutex_defs)
next
  case (runlock s b p sid sel left seen e fs)
  then show ?case using shape_top [OF runlock.prems(1) runlock.hyps(1)] by (auto simp: lock_inv_def mutex_defs)
qed (auto elim!: lock_inv_top)

section \<open>The history\<close>

fun frame_ok :: "'m entry list \<Rightarrow> 'm InMemoryStore \<Rightarrow> tid \<Rightarrow> 'm frame \<Rightarrow> bool" where
  "frame_ok h st t (AppendChecked b sid c evs) \<longleftrightarrow> b \<le> length h \<and> check_passes c (version_of (mem_log st sid))"
| "frame_ok h st t (AppendWritten b p sid c evs) \<longleftrightarrow> b \<le> p \<and> p < length h \<and>
     h ! p = Appended t sid c evs (version_of (mem_log st sid), None)"
| "frame_ok h st t (AppendDone b p sid c evs r) \<longleftrightarrow> b \<le> p \<and> p < length h \<and> h ! p = Appended t sid c evs r"
| "frame_ok h st t (StreamAt b p sid sel evs i seen) \<longleftrightarrow> b \<le> p \<and> p < length h \<and> h ! p = Opened t sid sel evs \<and>
     i \<le> length evs \<and> seen = filter (selects sel) (persisted_from sid 0 (take i evs))"
| "frame_ok h st t (StreamYielding b p sid sel evs i seen) \<longleftrightarrow> b \<le> p \<and> p < length h \<and> h ! p = Opened t sid sel evs \<and>
     i < length evs \<and> seen = filter (selects sel) (persisted_from sid 0 (take (Suc i) evs))"
| "frame_ok h st t (StreamDone b p sid sel left seen e) \<longleftrightarrow> b \<le> p \<and> p < length h \<and>
     explains (h ! p) t (StreamRequest sid sel) (StreamReturned left seen e)"
| "frame_ok h st t (AppendCalled b sid c evs) \<longleftrightarrow> b \<le> length h"
| "frame_ok h st t (AppendWaiting b sid c evs) \<longleftrightarrow> b \<le> length h"
| "frame_ok h st t (AppendLocked b sid c evs) \<longleftrightarrow> b \<le> length h"
| "frame_ok h st t (StreamCalled b sid sel) \<longleftrightarrow> b \<le> length h"
| "frame_ok h st t (StreamLocked b sid sel) \<longleftrightarrow> b \<le> length h"

definition returned_ok :: "'m entry list \<Rightarrow> 'm returned \<Rightarrow> bool" where
  "returned_ok h r \<longleftrightarrow> ret_called r \<le> ret_effect r \<and> ret_effect r < ret_returned r \<and> ret_returned r \<le> length h \<and>
     explains (h ! ret_effect r) (ret_tid r) (ret_request r) (ret_outcome r)"

definition history_inv :: "'m sys \<Rightarrow> bool" where
  "history_inv s \<longleftrightarrow> replay_history (history s) NewInMemoryStore = Some (store s) \<and>
     (\<forall>t. list_all (frame_ok (history s) (store s) t) (stacks s t)) \<and>
     list_all (returned_ok (history s)) (finished s)"

lemma frame_ok_extend:
  "frame_ok h st t f \<Longrightarrow> frame_ok (h @ [x]) st t f"
  by (cases f) (auto simp: nth_append)

lemma frame_ok_store:
  "frame_ok h st t f \<Longrightarrow> \<not> owning f \<Longrightarrow> frame_ok h st' t f"
  by (cases f) auto

lemma returned_ok_extend: "returned_ok h r \<Longrightarrow> returned_ok (h @ [x]) r"
  by (auto simp: returned_ok_def nth_append)

lemma list_all_frames_extend:
  "list_all (frame_ok h st t) fs \<Longrightarrow> list_all (frame_ok (h @ [x]) st t) fs"
  by (auto simp: list_all_iff frame_ok_extend)

lemma list_all_frames_store:
  "list_all (frame_ok h st t) fs \<Longrightarrow> \<not> list_ex owning fs \<Longrightarrow> list_all (frame_ok h st' t) fs"
  by (auto simp: list_all_iff list_ex_iff frame_ok_store)

lemma list_all_returned_extend: "list_all (returned_ok h) rs \<Longrightarrow> list_all (returned_ok (h @ [x])) rs"
  by (auto simp: list_all_iff returned_ok_extend)

lemma call_step_history: "call_step t s s' \<Longrightarrow> history_inv s \<Longrightarrow> history_inv s'"
  by (cases rule: call_step.cases) (auto simp: history_inv_def)

lemma selected_snoc:
  assumes "i < length evs"
  shows "filter (selects sel) (persisted_from sid 0 (take (Suc i) evs)) =
     (if word_of_nat i + 1 < From sel then filter (selects sel) (persisted_from sid 0 (take i evs))
      else filter (selects sel) (persisted_from sid 0 (take i evs)) @
             [\<lparr>StreamID = sid, Version = word_of_nat i + 1, Envelope = evs ! i\<rparr>])"
  using assms by (simp add: take_Suc_conv_app_nth persisted_from_append selects_def linorder_not_less)

lemma history_frame:
  assumes "history_inv s" and "stacks s t = f # fs"
  shows "frame_ok (history s) (store s) t f" and "list_all (frame_ok (history s) (store s) t) fs"
  using assms by (auto simp: history_inv_def dest: spec [of _ t])

lemma history_inv_top:
  assumes "history_inv s" and "stacks s t = f # fs" and "frame_ok (history s) (store s) t f'"
  shows "history_inv (set_stack t (f' # fs) s)"
  using history_frame [OF assms(1,2)] assms by (auto simp: history_inv_def)

lemma stream_showsI:
  "n \<le> length evs \<Longrightarrow> (e = None \<and> \<not> left \<longrightarrow> n = length evs) \<Longrightarrow>
   e = None \<or> (\<not> left \<and> (\<exists>cause. e = Some (Errorf ''event.InMemoryStore: context error, %w'' [cause]))) \<Longrightarrow>
   stream_shows sid sel evs left (filter (selects sel) (persisted_from sid 0 (take n evs))) e"
  by (auto simp: stream_shows_def)

lemma run_step_history: "run_step t s s' \<Longrightarrow> shape_inv s \<Longrightarrow> lock_inv s \<Longrightarrow> history_inv s \<Longrightarrow> history_inv s'"
proof (induction rule: run_step.induct)
  case (check_fail s b sid v evs fs r)
  from spec [OF history_inv_def [THEN iffD1, OF check_fail.prems(3), THEN conjunct2, THEN conjunct1], of t] check_fail show ?case
    by (auto simp: history_inv_def replay_history_append InMemoryStore_Append_conflict list_all_frames_extend list_all_returned_extend)
next
  case (write_log s b sid c evs fs log)
  note excl = lock_exclusive [OF write_log.prems(2) write_log.hyps(1)] and top = shape_top [OF write_log.prems(1) write_log.hyps(1)]
  let ?st = "(store s)\<lparr>events := (events (store s))(sid \<mapsto> log)\<rparr>" and ?x = "Appended t sid c evs (version_of log, None)"
  from write_log.prems(3) have frames: "list_all (frame_ok (history s) (store s) u) (stacks s u)" for u
    by (simp add: history_inv_def)
  from frames [of t] write_log.hyps(1) have "b \<le> length (history s)" "check_passes c (version_of (mem_log (store s) sid))"
    "list_all (frame_ok (history s) (store s) t) fs" by auto
  moreover from this(3) top(3) have "list_all (frame_ok (history s @ [?x]) ?st t) fs"
    by (blast intro: list_all_frames_store list_all_frames_extend)
  moreover have "list_all (frame_ok (history s @ [?x]) ?st u) (stacks s u)" if "u \<noteq> t" for u
    using frames [of u] excl(3) [OF _ that] by (auto intro!: list_all_frames_extend elim: list_all_frames_store)
  ultimately show ?case
    using write_log.hyps(2) write_log.prems(3)
    by (auto simp: history_inv_def replay_history_append InMemoryStore_Append_ok list_all_returned_extend)
next
  case (unlock s b p sid c evs r fs)
  from spec [OF history_inv_def [THEN iffD1, OF unlock.prems(3), THEN conjunct2, THEN conjunct1], of t] unlock show ?case
    by (auto simp: history_inv_def returned_ok_def)
next
  case (lookup s b sid sel fs evs)
  from spec [OF history_inv_def [THEN iffD1, OF lookup.prems(3), THEN conjunct2, THEN conjunct1], of t] lookup show ?case
    by (auto simp: history_inv_def replay_history_append list_all_frames_extend list_all_returned_extend)
next
  case (runlock s b p sid sel left seen e fs)
  from spec [OF history_inv_def [THEN iffD1, OF runlock.prems(3), THEN conjunct2, THEN conjunct1], of t] runlock show ?case
    by (auto simp: history_inv_def returned_ok_def)
next
  case (measure_log s b p sid c evs fs)
  from history_frame [OF measure_log.prems(3) measure_log.hyps(1)]
  show ?case by (intro history_inv_top [OF measure_log.prems(3) measure_log.hyps(1)]) auto
next
  case (cancel s b p sid sel evs i seen fs cause)
  from history_frame [OF cancel.prems(3) cancel.hyps(1)]
  show ?case by (intro history_inv_top [OF cancel.prems(3) cancel.hyps(1)]) (auto intro: stream_showsI)
next
  case (leave s b p sid sel evs i seen fs)
  have "stream_shows sid sel evs True seen None"
    using stream_showsI [of "Suc i" evs None True sid sel] history_frame(1) [OF leave.prems(3) leave.hyps(1)] by simp
  with history_frame [OF leave.prems(3) leave.hyps(1)]
  show ?case by (intro history_inv_top [OF leave.prems(3) leave.hyps(1)]) simp
next
  case (exhaust_log s b p sid sel evs i seen fs)
  have "stream_shows sid sel evs False seen None"
    using stream_showsI [of "length evs" evs None False sid sel] history_frame(1) [OF exhaust_log.prems(3) exhaust_log.hyps(1)]
      exhaust_log.hyps(2) by simp
  with history_frame [OF exhaust_log.prems(3) exhaust_log.hyps(1)]
  show ?case by (intro history_inv_top [OF exhaust_log.prems(3) exhaust_log.hyps(1)]) simp
qed (auto simp: history_inv_def selected_snoc dest: spec [of _ t])

section \<open>Every effect belongs to one call\<close>

fun effect_of :: "'m frame \<Rightarrow> nat list" where
  "effect_of (AppendWritten b p sid c evs) = [p]"
| "effect_of (AppendDone b p sid c evs r) = [p]"
| "effect_of (StreamAt b p sid sel evs i seen) = [p]"
| "effect_of (StreamYielding b p sid sel evs i seen) = [p]"
| "effect_of (StreamDone b p sid sel left seen e) = [p]"
| "effect_of _ = []"

definition effects :: "'m sys \<Rightarrow> tid \<Rightarrow> nat list" where
  "effects s t = map ret_effect (filter (\<lambda>r. ret_tid r = t) (finished s)) @ concat (map effect_of (stacks s t))"

definition effects_inv :: "'m sys \<Rightarrow> bool" where
  "effects_inv s \<longleftrightarrow> (\<forall>t. distinct (effects s t) \<and> (\<forall>p \<in> set (effects s t). p < length (history s)))"

text \<open>A step of \<open>t\<close> keeps the effects, or adds the end of the history to them.\<close>

lemma effects_inv_same:
  assumes "effects_inv s" and "history s' = history s" and "\<And>u. mset (effects s' u) = mset (effects s u)"
  shows "effects_inv s'"
proof -
  have "distinct (effects s' u) \<longleftrightarrow> distinct (effects s u)" "set (effects s' u) = set (effects s u)" for u
    using assms(3) by (rule mset_eq_imp_distinct_iff, rule mset_eq_setD)
  with assms(1,2) show ?thesis by (simp add: effects_inv_def)
qed

lemma effects_inv_grow:
  assumes "effects_inv s" and "history s' = history s @ [x]"
    and "mset (effects s' t) = add_mset (length (history s)) (mset (effects s t))"
    and "\<And>u. u \<noteq> t \<Longrightarrow> effects s' u = effects s u"
  shows "effects_inv s'"
proof -
  have old: "distinct (effects s u)" "\<forall>p \<in> set (effects s u). p < length (history s)" for u
    using assms(1) by (auto simp: effects_inv_def)
  have "mset (effects s' t) = mset (length (history s) # effects s t)" using assms(3) by simp
  note this [THEN mset_eq_imp_distinct_iff] this [THEN mset_eq_setD]
  then have "distinct (effects s' t) \<and> (\<forall>p \<in> set (effects s' t). p < length (history s'))"
    using old [of t] assms(2) by (auto simp: less_Suc_eq)
  moreover have "distinct (effects s' u) \<and> (\<forall>p \<in> set (effects s' u). p < length (history s'))" if "u \<noteq> t" for u
    using assms(2) assms(4) [OF that] old [of u] by (auto simp: less_Suc_eq)
  ultimately show ?thesis unfolding effects_inv_def by metis
qed

lemma effects_set_stack:
  assumes "stacks s' = (stacks s)(t := fs')" and "finished s' = finished s @ rs" and "\<forall>r \<in> set rs. ret_tid r = t"
  shows "u \<noteq> t \<Longrightarrow> effects s' u = effects s u"
    and "mset (concat (map effect_of fs')) + mset (map ret_effect rs) = mset (concat (map effect_of (stacks s t))) + ps \<Longrightarrow>
      mset (effects s' t) = mset (effects s t) + ps"
proof -
  have "filter (\<lambda>r. ret_tid r = u) rs = (if u = t then rs else [])" for u
    using assms(3) by (auto simp: filter_empty_conv filter_id_conv)
  then show "u \<noteq> t \<Longrightarrow> effects s' u = effects s u"
    "mset (concat (map effect_of fs')) + mset (map ret_effect rs) = mset (concat (map effect_of (stacks s t))) + ps \<Longrightarrow>
      mset (effects s' t) = mset (effects s t) + ps"
    using assms(1,2) by (simp_all add: effects_def add.commute)
qed

lemma effects_stay:
  assumes "effects_inv s" and "history s' = history s" and "stacks s' = (stacks s)(t := fs')"
    and "finished s' = finished s @ rs" and "\<forall>r \<in> set rs. ret_tid r = t"
    and "mset (concat (map effect_of fs')) + mset (map ret_effect rs) = mset (concat (map effect_of (stacks s t)))"
  shows "effects_inv s'"
proof (rule effects_inv_same [OF assms(1,2)])
  fix u
  show "mset (effects s' u) = mset (effects s u)"
    using effects_set_stack(1) [OF assms(3-5), of u] effects_set_stack(2) [OF assms(3-5), of "{#}"] assms(6) by (cases "u = t") auto
qed

lemma call_step_effects: "call_step t s s' \<Longrightarrow> effects_inv s \<Longrightarrow> effects_inv s'"
  by (erule call_step.cases) (auto elim!: effects_stay [where t = t and rs = "[]"])

lemma run_step_effects: "run_step t s s' \<Longrightarrow> effects_inv s \<Longrightarrow> effects_inv s'"
proof (induction rule: run_step.induct)
  case (check_fail s b sid v evs fs r)
  let ?s' = "set_stack t (AppendDone b (length (history s)) sid (CheckExact v) evs r # fs) (s\<lparr>history := history s @ [Appended t sid (CheckExact v) evs r]\<rparr>)"
  have eff: "stacks ?s' = (stacks s)(t := AppendDone b (length (history s)) sid (CheckExact v) evs r # fs)" "finished ?s' = finished s @ []" by simp_all
  from check_fail show ?case
    using effects_set_stack(1) [OF eff] effects_set_stack(2) [OF eff, of "{#length (history s)#}"]
    by (intro effects_inv_grow [OF check_fail.prems, of ?s' _ t]) auto
next
  case (write_log s b sid c evs fs log)
  let ?s' = "set_stack t (AppendWritten b (length (history s)) sid c evs # fs)
       (s\<lparr>store := (store s)\<lparr>events := (events (store s))(sid \<mapsto> log)\<rparr>,
          history := history s @ [Appended t sid c evs (version_of log, None)]\<rparr>)"
  have eff: "stacks ?s' = (stacks s)(t := AppendWritten b (length (history s)) sid c evs # fs)" "finished ?s' = finished s @ []" by simp_all
  from write_log show ?case
    using effects_set_stack(1) [OF eff] effects_set_stack(2) [OF eff, of "{#length (history s)#}"]
    by (intro effects_inv_grow [OF write_log.prems, of ?s' _ t]) auto
next
  case (lookup s b sid sel fs evs)
  let ?s' = "set_stack t (StreamAt b (length (history s)) sid sel evs 0 [] # fs) (s\<lparr>history := history s @ [Opened t sid sel evs]\<rparr>)"
  have eff: "stacks ?s' = (stacks s)(t := StreamAt b (length (history s)) sid sel evs 0 [] # fs)" "finished ?s' = finished s @ []" by simp_all
  from lookup show ?case
    using effects_set_stack(1) [OF eff] effects_set_stack(2) [OF eff, of "{#length (history s)#}"]
    by (intro effects_inv_grow [OF lookup.prems, of ?s' _ t]) auto
next
  case (unlock s b p sid c evs r fs)
  then show ?case by (auto elim!: effects_stay [where t = t])
next
  case (runlock s b p sid sel left seen e fs)
  then show ?case by (auto elim!: effects_stay [where t = t])
qed (auto elim!: effects_stay [where t = t and rs = "[]"])

section \<open>Reachable states\<close>

definition sys_inv :: "'m sys \<Rightarrow> bool" where
  "sys_inv s \<longleftrightarrow> shape_inv s \<and> lock_inv s \<and> history_inv s \<and> effects_inv s"

lemma step_sys_inv: "step s s' \<Longrightarrow> sys_inv s \<Longrightarrow> sys_inv s'"
  by (auto simp: sys_inv_def elim!: step.cases
      intro: call_step_shape call_step_lock call_step_history call_step_effects
        run_step_shape run_step_lock run_step_history run_step_effects)

lemma reachable_sys_inv: "reachable s \<Longrightarrow> sys_inv s"
proof (induction rule: reachable.induct)
  case start
  then show ?case
    by (simp add: sys_inv_def shape_inv_def lock_inv_def history_inv_def effects_inv_def effects_def start_sys_def free_mutex_def)
next
  case (next_state s s')
  then show ?case by (rule_tac step_sys_inv)
qed

lemmas reachable_invs = reachable_sys_inv [unfolded sys_inv_def, THEN conjunct1]
  reachable_sys_inv [unfolded sys_inv_def, THEN conjunct2, THEN conjunct1]
  reachable_sys_inv [unfolded sys_inv_def, THEN conjunct2, THEN conjunct2, THEN conjunct1]
  reachable_sys_inv [unfolded sys_inv_def, THEN conjunct2, THEN conjunct2, THEN conjunct2]

section \<open>Blocking\<close>

lemma reading_count: "lock_inv s \<Longrightarrow> readers (mutex s) = [] \<Longrightarrow> f \<in> set (stacks s t) \<Longrightarrow> \<not> reading f"
  by (auto simp: lock_inv_def filter_empty_conv)

lemma distinct_by_groups:
  "(\<And>t. distinct (map f (filter (\<lambda>x. g x = t) xs))) \<Longrightarrow> (\<And>x y. x \<in> set xs \<Longrightarrow> y \<in> set xs \<Longrightarrow> f x = f y \<Longrightarrow> g x = g y) \<Longrightarrow>
   distinct (map f xs)"
proof (induction xs)
  case Nil
  then show ?case by simp
next
  case (Cons x xs)
  have "distinct (map f (filter (\<lambda>y. g y = t) xs))" for t using Cons.prems(1) [of t] by (cases "g x = t") auto
  then have "distinct (map f xs)" by (rule Cons.IH) (rule Cons.prems(2), simp_all)
  moreover have "f x \<notin> f ` set xs"
  proof
    assume "f x \<in> f ` set xs"
    then obtain y where "y \<in> set xs" "f x = f y" by auto
    with Cons.prems(1) [of "g x"] Cons.prems(2) [of x y] show False by auto
  qed
  ultimately show ?case by simp
qed

fun waiting :: "'m frame \<Rightarrow> bool" where
  "waiting (AppendCalled b sid c evs) = True"
| "waiting (AppendWaiting b sid c evs) = True"
| "waiting (StreamCalled b sid sel) = True"
| "waiting _ = False"

lemma run_step_enabled:
  assumes "stacks s t = f # fs" and "\<not> waiting f" and "history_inv s"
  shows "\<exists>s'. run_step t s s'"
proof (cases f)
  case (AppendLocked b sid c evs)
  show ?thesis
  proof (cases "check_passes c (version_of (mem_log (store s) sid))")
    case True
    with AppendLocked assms(1) run_step.check_ok show ?thesis by blast
  next
    case False
    then obtain v where "c = CheckExact v" "v \<noteq> version_of (mem_log (store s) sid)" by (cases c) auto
    with AppendLocked assms(1) run_step.check_fail [OF _ _ refl] show ?thesis by blast
  qed
next
  case (StreamAt b p sid sel evs i seen)
  with assms(1) have top: "stacks s t = StreamAt b p sid sel evs i seen # fs" by simp
  with history_frame(1) [OF assms(3,1)] StreamAt have "i \<le> length evs" by simp
  then consider "i < length evs" "word_of_nat i + 1 < From sel" | "i < length evs" "\<not> word_of_nat i + 1 < From sel" | "i = length evs"
    by linarith
  then show ?thesis
  proof cases
    case 1
    from run_step.skip [OF top this] show ?thesis by (rule exI)
  next
    case 2
    from run_step.yield_event [OF top this] show ?thesis by (rule exI)
  next
    case 3
    from run_step.exhaust_log [OF top this] show ?thesis by (rule exI)
  qed
next
  case (AppendChecked b sid c evs)
  with assms(1) run_step.write_log [OF _ refl] show ?thesis by blast
next
  case (AppendWritten b p sid c evs)
  with assms(1) run_step.measure_log show ?thesis by blast
next
  case (AppendDone b p sid c evs r)
  with assms(1) run_step.unlock show ?thesis by blast
next
  case (StreamLocked b sid sel)
  with assms(1) run_step.lookup [OF _ refl] show ?thesis by blast
next
  case (StreamYielding b p sid sel evs i seen)
  with assms(1) run_step.leave show ?thesis by blast
next
  case (StreamDone b p sid sel left seen e)
  with assms(1) run_step.runlock show ?thesis by blast
qed (use assms(2) in simp_all)

lemma reading_not_waiting: "reading f \<Longrightarrow> \<not> waiting f"
  by (cases f) auto

lemma owning_not_waiting: "owning f \<Longrightarrow> \<not> waiting f"
  by (cases f) auto

text \<open>Without nested calls some goroutine can always go on.\<close>

lemma progress:
  assumes inv: "sys_inv s" and flat: "\<And>u. length (stacks s u) \<le> 1" and busy: "stacks s t \<noteq> []"
  shows "\<exists>u s'. run_step u s s'"
proof (rule ccontr)
  assume stuck: "\<not> ?thesis"
  from inv have lock: "lock_inv s" and hist: "history_inv s" by (auto simp: sys_inv_def)
  have top: "stacks s u = [f] \<and> waiting f" if "f \<in> set (stacks s u)" for u f
  proof -
    from that flat [of u] have "stacks s u = [f]" by (cases "stacks s u") auto
    with run_step_enabled [OF _ _ hist] stuck show ?thesis by blast
  qed
  then have no_readers: "readers (mutex s) = []"
  proof (rule_tac ccontr)
    assume "readers (mutex s) \<noteq> []"
    then obtain v where "v \<in> set (readers (mutex s))" by (cases "readers (mutex s)") auto
    then have "count_list (readers (mutex s)) v \<noteq> 0" by (simp add: count_list_0_iff)
    then have "filter reading (stacks s v) \<noteq> []" using lock by (auto simp: lock_inv_def)
    then show False using top reading_not_waiting by (auto simp: filter_empty_conv)
  qed
  show False
  proof (cases "holder (mutex s)")
    case None
    from busy obtain f where "f \<in> set (stacks s t)" by (cases "stacks s t") auto
    from top [OF this] have f: "stacks s t = [f]" "waiting f" by auto
    then show False
    proof (cases f)
      case (AppendCalled b sid c evs)
      with f None run_step.lock_announce stuck show False by blast
    next
      case (AppendWaiting b sid c evs)
      with f no_readers run_step.lock_acquire stuck show False by blast
    next
      case (StreamCalled b sid sel)
      with f None run_step.rlock stuck show False by blast
    qed (use f in simp_all)
  next
    case (Some u)
    with lock have "list_ex writing (stacks s u)" by (auto simp: lock_inv_def)
    then obtain f where f: "f \<in> set (stacks s u)" "writing f" by (auto simp: list_ex_iff)
    with top [OF f(1)] obtain b sid c evs where "stacks s u = [AppendWaiting b sid c evs]"
      by (cases f) auto
    with no_readers run_step.lock_acquire stuck show False by blast
  qed
qed

lemma call_step_other: "call_step u s s' \<Longrightarrow> v \<noteq> u \<Longrightarrow> stacks s' v = stacks s v"
  by (induction rule: call_step.induct) auto

lemma run_step_other: "run_step u s s' \<Longrightarrow> v \<noteq> u \<Longrightarrow> stacks s' v = stacks s v"
  by (induction rule: run_step.induct) auto

end
