(* ===== verification/Concurrent_Correct.thy ===== *)
theory Concurrent_Correct
  imports Concurrent_Invariants
begin

text \<open>
  What the concurrent in-memory store promises: mutual exclusion, linearizability against the sequential
  model, termination of its calls; and the deadlock of a goroutine that appends inside a loop over a stream.
\<close>

section \<open>Mutual exclusion and linearizability\<close>

text \<open>The write lock excludes: while a goroutine runs the body of \<open>Append\<close>, in any reachable state, no
  other call of the store, reading or writing, is between its lock and its unlock.\<close>

lemma InMemoryStore_mutual_exclusion:
  assumes "reachable s" and "f \<in> set (stacks s t)" and "owning f"
  shows "{(u, g). g \<in> set (stacks s u) \<and> (owning g \<or> reading g)} = {(t, f)}"
proof -
  note lock = reachable_invs(2) [OF assms(1)] and shape = reachable_invs(1) [OF assms(1)]
  have "list_ex owning (stacks s t)" using assms(2,3) by (auto simp: list_ex_iff)
  with lock have held: "active (mutex s)" "holder (mutex s) = Some t" "readers (mutex s) = []" by (auto simp: lock_inv_def)
  have "u = t \<and> g = f" if g: "g \<in> set (stacks s u)" "owning g \<or> reading g" for u g
  proof -
    from reading_count [OF lock held(3) g(1)] g(2) have "owning g" by blast
    with g(1) have "list_ex owning (stacks s u)" by (auto simp: list_ex_iff)
    with lock held have "u = t" by (auto simp: lock_inv_def)
    with owning_head [OF shape assms(2,3)] owning_head [OF shape g(1) \<open>owning g\<close>] show ?thesis by (metis list.inject)
  qed
  moreover have "(t, f) \<in> {(u, g). g \<in> set (stacks s u) \<and> (owning g \<or> reading g)}" using assms(2,3) by simp
  ultimately show ?thesis by blast
qed

lemmas run_simps = start_sys_def free_mutex_def NewInMemoryStore_def mutex_defs Let_def

lemma finished_effects:
  assumes "sys_inv s"
  shows "distinct (map ret_effect (finished s))"
proof (rule distinct_by_groups [where g = ret_tid])
  fix t
  show "distinct (map ret_effect (filter (\<lambda>r. ret_tid r = t) (finished s)))"
    using assms by (auto simp: sys_inv_def effects_inv_def effects_def)
next
  fix r q
  assume "r \<in> set (finished s)" "q \<in> set (finished s)" "ret_effect r = ret_effect q"
  moreover from this assms have "returned_ok (history s) r" "returned_ok (history s) q"
    by (auto simp: sys_inv_def history_inv_def list_all_iff)
  ultimately show "ret_tid r = ret_tid q" by (cases "history s ! ret_effect q") (auto simp: returned_ok_def)
qed

text \<open>C5: The store is linearizable. In every reachable state its history, one entry for each \<open>Append\<close> that
  compared or wrote and each \<open>Stream\<close> that looked its log up, is a legal run of the sequential store and leads to
  the store at hand; every call that returned took effect at one entry of its own between its call and its
  return, an entry of its goroutine and its arguments that explains what it returned. A stream so shows the log of
  one moment, however the appends interleave.\<close>

theorem InMemoryStore_linearizable:
  assumes "reachable s"
  shows "replay_history (history s) NewInMemoryStore = Some (store s) \<and>
    (\<forall>r \<in> set (finished s). ret_called r \<le> ret_effect r \<and> ret_effect r < ret_returned r \<and> ret_returned r \<le> length (history s) \<and>
       explains (history s ! ret_effect r) (ret_tid r) (ret_request r) (ret_outcome r)) \<and>
    distinct (map ret_effect (finished s))"
  using reachable_invs(3) [OF assms] finished_effects [OF reachable_sys_inv [OF assms]]
  by (auto simp: history_inv_def returned_ok_def list_all_iff)

definition linear_run :: "(tid \<times> nat choice) list" where
  "linear_run = [(0, CallAppend ''a'' (CheckExact 0) [ToEnvelope 1]), (1, CallStream ''a'' SelectFromBeginning),
     (0, Go), (0, Go), (0, Go), (0, Go), (0, Go), (0, Go), (1, Go), (1, Go), (1, Go), (1, Leave), (1, Go)]"

lemma linear_run_effects: "map ret_effect (finished (the (turns linear_run start_sys))) = [0, 1]"
  by (simp add: linear_run_def run_simps SelectFromBeginning_def)

theorem InMemoryStore_linearizable_witness:
  "replay_history (history (the (turns linear_run start_sys))) NewInMemoryStore = Some (store (the (turns linear_run start_sys))) \<and>
   map ret_effect (finished (the (turns linear_run start_sys))) = [0, 1]"
proof -
  have "turns linear_run start_sys = Some (the (turns linear_run start_sys))"
    by (simp add: linear_run_def run_simps SelectFromBeginning_def)
  from InMemoryStore_linearizable [OF reachable_turns [OF this]] linear_run_effects show ?thesis by blast
qed

section \<open>A single winner under concurrency\<close>

text \<open>The appends of a history with their results, the events they carry, and those that succeed with the expected version \<open>v\<close>.\<close>

fun appends_of :: "'m entry list \<Rightarrow> ((StreamID \<times> Check \<times> 'm Envelope list) \<times> Version \<times> error option) list" where
  "appends_of [] = []"
| "appends_of (Appended t sid c evs r # h) = ((sid, c, evs), r) # appends_of h"
| "appends_of (Opened t sid sel evs # h) = appends_of h"

definition events_in :: "'m entry list \<Rightarrow> nat" where
  "events_in h = sum_list (map (\<lambda>(sid, c, evs). length evs) (map fst (appends_of h)))"

fun entry_wins :: "StreamID \<Rightarrow> Version \<Rightarrow> 'm entry \<Rightarrow> bool" where
  "entry_wins sid v (Appended t s c evs r) \<longleftrightarrow> s = sid \<and> c = CheckExact v \<and> evs \<noteq> [] \<and> snd r = None"
| "entry_wins sid v (Opened t s sel evs) \<longleftrightarrow> False"

definition return_wins :: "StreamID \<Rightarrow> Version \<Rightarrow> 'm returned \<Rightarrow> bool" where
  "return_wins sid v r \<longleftrightarrow> (\<exists>evs w. ret_request r = AppendRequest sid (CheckExact v) evs \<and> evs \<noteq> [] \<and>
     ret_outcome r = AppendReturned (w, None))"

lemma replayed_results:
  "replay_history h es = Some es' \<Longrightarrow>
   fst (append_results InMemoryStore_Append Background (map fst (appends_of h)) es) = map snd (appends_of h)"
  by (induction h arbitrary: es rule: appends_of.induct) (fastforce split: prod.splits if_splits)+

lemma winners_of_history:
  "length (filter (entry_wins sid v) h) = length (winners sid v (map fst (appends_of h)) (map snd (appends_of h)))"
  by (induction h rule: appends_of.induct) (auto simp: winners_def)

lemma length_filter_effects:
  assumes "distinct (map f xs)" and "\<And>x. x \<in> set xs \<Longrightarrow> P x \<Longrightarrow> f x < length h \<and> Q (h ! f x)"
  shows "length (filter P xs) \<le> length (filter Q h)"
proof -
  have "distinct (map f (filter P xs))" using assms(1) by (rule distinct_map_filter)
  then have "length (filter P xs) = card (f ` set (filter P xs))"
    by (metis distinct_card length_map set_map)
  also have "\<dots> \<le> card {i. i < length h \<and> Q (h ! i)}" using assms(2) by (intro card_mono) auto
  finally show ?thesis by (simp add: length_filter_conv_card)
qed

text \<open>C6: However the goroutines interleave, of all the calls of \<open>Append\<close> with some events that expect a given version of a given
  stream at most one ever returns successfully, as long as fewer than \<open>2 ^ 32\<close> events were sent to the store: concurrent writers
  that read the same version never both commit.\<close>

theorem InMemoryStore_concurrent_winner:
  assumes "reachable s" and "events_in (history s) < 2 ^ 32"
  shows "length (filter (return_wins sid v) (finished s)) \<le> 1"
proof -
  note inv = reachable_invs(3) [OF assms(1)]
  then have h: "replay_history (history s) NewInMemoryStore = Some (store s)" by (simp add: history_inv_def)
  have "ret_effect r < length (history s) \<and> entry_wins sid v (history s ! ret_effect r)"
    if "r \<in> set (finished s)" "return_wins sid v r" for r
    using inv that
    by (cases "history s ! ret_effect r") (fastforce simp: history_inv_def list_all_iff returned_ok_def return_wins_def)+
  then have "length (filter (return_wins sid v) (finished s)) \<le> length (filter (entry_wins sid v) (history s))"
    by (rule length_filter_effects [OF finished_effects [OF reachable_sys_inv [OF assms(1)]]])
  also have "\<dots> \<le> 1"
    using mem.append_results_winner [OF TrueI, where st = NewInMemoryStore and sid = sid and v = v and ctx = Background
        and ops = "map fst (appends_of (history s))"] assms(2)
    unfolding winners_of_history replayed_results [OF h] by (simp add: events_in_def NewInMemoryStore_def)
  finally show ?thesis .
qed

text \<open>Two goroutines that both expect the empty stream: the second to get the lock conflicts.\<close>

definition racing_run :: "(tid \<times> nat choice) list" where
  "racing_run = [(0, CallAppend ''a'' (CheckExact 0) [ToEnvelope 1]), (1, CallAppend ''a'' (CheckExact 0) [ToEnvelope 2]),
     (1, Go), (1, Go), (1, Go), (1, Go), (1, Go), (1, Go), (0, Go), (0, Go), (0, Go), (0, Go)]"

lemma racing_run_state:
  "turns racing_run start_sys = Some (the (turns racing_run start_sys))"
  "events_in (history (the (turns racing_run start_sys))) < 2 ^ 32"
  "length (filter (return_wins ''a'' 0) (finished (the (turns racing_run start_sys)))) = 1"
  by (simp_all add: racing_run_def run_simps events_in_def return_wins_def)

theorem InMemoryStore_concurrent_winner_witness:
  "length (filter (return_wins ''a'' 0) (finished (the (turns racing_run start_sys)))) \<le> 1 \<and>
   length (finished (the (turns racing_run start_sys))) = 2"
  using InMemoryStore_concurrent_winner [OF reachable_turns [OF racing_run_state(1)] racing_run_state(2)]
  by (simp add: racing_run_def run_simps)

section \<open>Appending inside a loop over a stream\<close>

lemma nested_append_step:
  assumes "step s s'" and inv: "sys_inv s"
    and top: "stacks s t = AppendCalled b sid c evs # f # fs \<or> stacks s t = AppendWaiting b sid c evs # f # fs"
  shows "stacks s' t = stacks s t \<or> stacks s' t = AppendWaiting b sid c evs # f # fs"
  using assms(1)
proof cases
  case (call u)
  then show ?thesis
  proof (cases "u = t")
    case True
    with call top show ?thesis by (auto elim!: call_step.cases)
  next
    case False
    with call_step_other [OF call] show ?thesis by simp
  qed
next
  case (run u)
  show ?thesis
  proof (cases "u = t")
    case True
    have "reading f" using top inv by (auto simp: sys_inv_def shape_inv_def dest: spec [of _ t])
    moreover have "f \<in> set (stacks s t)" using top by auto
    ultimately have "readers (mutex s) \<noteq> []" using inv reading_count by (auto simp: sys_inv_def)
    with run True top show ?thesis by (auto elim!: run_step.cases)
  next
    case False
    with run_step_other [OF run] show ?thesis by simp
  qed
qed

lemma nested_append_steps:
  assumes "step\<^sup>*\<^sup>* s s'" and "reachable s"
    and "stacks s t = AppendCalled b sid c evs # f # fs \<or> stacks s t = AppendWaiting b sid c evs # f # fs"
  shows "stacks s' t = stacks s t \<or> stacks s' t = AppendWaiting b sid c evs # f # fs"
  using assms(1)
proof (induction rule: rtranclp_induct)
  case base
  then show ?case by simp
next
  case (step s1 s2)
  have "sys_inv s1" by (rule reachable_sys_inv [OF reachable_steps [OF step.hyps(1) assms(2)]])
  with nested_append_step [OF step.hyps(2), of t b sid c evs f fs] step.IH assms(3) show ?case by auto
qed

lemma nested_append_waits:
  assumes "step\<^sup>*\<^sup>* s s'" and "reachable s" and "stacks s t = AppendWaiting b sid c evs # f # fs"
  shows "stacks s' t = AppendWaiting b sid c evs # f # fs"
  using nested_append_steps [OF assms(1,2), of t b sid c evs f fs] assms(3) by auto

fun wants_lock :: "'m frame \<Rightarrow> bool" where
  "wants_lock (AppendCalled b sid c evs) = True"
| "wants_lock (StreamCalled b sid sel) = True"
| "wants_lock _ = False"

lemma announced_blocks_step:
  assumes "step s s'" and "holder (mutex s) \<noteq> None" and "stacks s u = g # gs" and "wants_lock g"
  shows "stacks s' u = g # gs"
  using assms(1)
proof cases
  case (call v)
  with assms(3,4) show ?thesis by (cases g) (auto elim!: call_step.cases)
next
  case (run v)
  show ?thesis
  proof (cases "v = u")
    case True
    with run assms(2-4) show ?thesis by (cases g; auto elim!: run_step.cases)
  next
    case False
    with run_step_other [OF run] assms(3) show ?thesis by simp
  qed
qed

lemma nested_append_blocks:
  assumes "step\<^sup>*\<^sup>* s s'" and "reachable s" and "stacks s t = AppendWaiting b sid c evs # f # fs"
    and "stacks s u = g # gs" and "wants_lock g"
  shows "stacks s' u = g # gs"
  using assms(1)
proof (induction rule: rtranclp_induct)
  case base
  from assms(4) show ?case .
next
  case (step s1 s2)
  have "lock_inv s1" by (rule reachable_invs(2) [OF reachable_steps [OF step.hyps(1) assms(2)]])
  moreover have "stacks s1 t = AppendWaiting b sid c evs # f # fs" by (rule nested_append_waits [OF step.hyps(1) assms(2,3)])
  ultimately have "holder (mutex s1) = Some t" using lock_exclusive(1) by fastforce
  with announced_blocks_step [OF step.hyps(2) _ step.IH assms(5)] show ?case by simp
qed

text \<open>C8: An \<open>Append\<close> called inside a loop over a stream of the same store never returns: it waits for the
  read lock of its own goroutine's loop. Once it has announced itself, no call that still asks for the lock, on any
  goroutine and for any stream, ever gets it.\<close>

theorem InMemoryStore_append_in_loop_deadlocks:
  assumes "reachable s" and "stacks s t = AppendCalled b sid c evs # f # fs" and "step\<^sup>*\<^sup>* s s'"
  shows "(stacks s' t = stacks s t \<or> stacks s' t = AppendWaiting b sid c evs # f # fs) \<and>
    (\<forall>s'' u g gs. stacks s' t = AppendWaiting b sid c evs # f # fs \<and> step\<^sup>*\<^sup>* s' s'' \<and>
       stacks s' u = g # gs \<and> wants_lock g \<longrightarrow> stacks s'' u = g # gs)"
proof
  show "stacks s' t = stacks s t \<or> stacks s' t = AppendWaiting b sid c evs # f # fs"
    by (rule nested_append_steps [OF assms(3,1)]) (simp add: assms(2))
  have "reachable s'" by (rule reachable_steps [OF assms(3,1)])
  then show "\<forall>s'' u g gs. stacks s' t = AppendWaiting b sid c evs # f # fs \<and> step\<^sup>*\<^sup>* s' s'' \<and>
       stacks s' u = g # gs \<and> wants_lock g \<longrightarrow> stacks s'' u = g # gs"
    by (blast intro: nested_append_blocks)
qed

definition nested_run :: "(tid \<times> nat choice) list" where
  "nested_run = [(0, CallAppend ''a'' CheckAny [ToEnvelope 1]), (0, Go), (0, Go), (0, Go), (0, Go), (0, Go), (0, Go),
     (0, CallStream ''a'' SelectFromBeginning), (0, Go), (0, Go), (0, Go), (0, CallAppend ''a'' CheckAny [ToEnvelope 2])]"

text \<open>The rest of the run lets another goroutine ask for another stream.\<close>

definition blocked_run :: "(tid \<times> nat choice) list" where
  "blocked_run = [(0, Go), (1, CallStream ''b'' SelectFromBeginning)]"

lemma nested_run_state:
  "turns nested_run start_sys = Some (the (turns nested_run start_sys))"
  "stacks (the (turns nested_run start_sys)) 0 =
     [AppendCalled 2 ''a'' CheckAny [ToEnvelope 2],
      StreamYielding 1 1 ''a'' SelectFromBeginning [ToEnvelope 1] 0 [\<lparr>StreamID = ''a'', Version = 1, Envelope = ToEnvelope 1\<rparr>]]"
  "turns blocked_run (the (turns nested_run start_sys)) = Some (the (turns blocked_run (the (turns nested_run start_sys))))"
  "stacks (the (turns blocked_run (the (turns nested_run start_sys)))) 0 =
     [AppendWaiting 2 ''a'' CheckAny [ToEnvelope 2],
      StreamYielding 1 1 ''a'' SelectFromBeginning [ToEnvelope 1] 0 [\<lparr>StreamID = ''a'', Version = 1, Envelope = ToEnvelope 1\<rparr>]]"
  "stacks (the (turns blocked_run (the (turns nested_run start_sys)))) 1 = [StreamCalled 2 ''b'' SelectFromBeginning]"
  by (simp_all add: nested_run_def blocked_run_def run_simps SelectFromBeginning_def)

theorem InMemoryStore_append_in_loop_deadlocks_witness:
  "{s. step\<^sup>*\<^sup>* (the (turns blocked_run (the (turns nested_run start_sys)))) s \<and>
       stacks s 1 \<noteq> [StreamCalled 2 ''b'' SelectFromBeginning]} = {}"
proof -
  note reach = reachable_turns [OF nested_run_state(1)] and more = turns_steps [OF nested_run_state(3)]
  note InMemoryStore_append_in_loop_deadlocks [OF reach nested_run_state(2) more, THEN conjunct2, rule_format,
      of _ 1 "StreamCalled 2 ''b'' SelectFromBeginning" "[]"]
  then show ?thesis using nested_run_state(4,5) by simp
qed

section \<open>Termination\<close>

text \<open>
  The steps a call still has to make: first those until its stream has been looked up, since the length
  of the log that is looped over is only known then.
\<close>

fun to_open :: "'m frame \<Rightarrow> nat" where
  "to_open (StreamCalled b sid sel) = 1"
| "to_open (StreamLocked b sid sel) = 1"
| "to_open _ = 0"

fun remaining :: "'m frame \<Rightarrow> nat" where
  "remaining (AppendCalled b sid c evs) = 6"
| "remaining (AppendWaiting b sid c evs) = 5"
| "remaining (AppendLocked b sid c evs) = 4"
| "remaining (AppendChecked b sid c evs) = 3"
| "remaining (AppendWritten b p sid c evs) = 2"
| "remaining (AppendDone b p sid c evs r) = 1"
| "remaining (StreamCalled b sid sel) = 1"
| "remaining (StreamLocked b sid sel) = 0"
| "remaining (StreamAt b p sid sel evs i seen) = 2 * (length evs - i) + 2"
| "remaining (StreamYielding b p sid sel evs i seen) = 2 * (length evs - i) + 1"
| "remaining (StreamDone b p sid sel left seen e) = 1"

definition busy :: "'m sys \<Rightarrow> tid set" where
  "busy s = {t. stacks s t \<noteq> []}"

definition total :: "('m frame \<Rightarrow> nat) \<Rightarrow> 'm sys \<Rightarrow> nat" where
  "total w s = (\<Sum>t \<in> busy s. sum_list (map w (stacks s t)))"

lemma total_change:
  assumes "finite (busy s)" and "stacks s t = f # fs" and "stacks s' = (stacks s)(t := fs')"
  shows "total w s' + sum_list (map w (f # fs)) = total w s + sum_list (map w fs')"
proof -
  have t: "t \<in> busy s" using assms(2) by (simp add: busy_def)
  have rest: "(\<Sum>u \<in> busy s - {t}. sum_list (map w (stacks s' u))) = (\<Sum>u \<in> busy s - {t}. sum_list (map w (stacks s u)))"
    using assms(3) by (intro sum.cong) auto
  have "total w s' = (\<Sum>u \<in> busy s. sum_list (map w (stacks s' u)))"
    unfolding total_def using assms t by (intro sum.mono_neutral_left) (auto simp: busy_def split: if_splits)
  with rest assms(2,3) show ?thesis
    unfolding total_def by (simp add: sum.remove [OF assms(1) t])
qed

lemma run_step_stacks: "run_step t s s' \<Longrightarrow> stacks s' = (stacks s)(t := stacks s' t)"
  by (induction rule: run_step.induct) auto

lemma yielding_within: "history_inv s \<Longrightarrow> stacks s t = StreamYielding b p sid sel evs i seen # fs \<Longrightarrow> i < length evs"
  using history_frame(1) by fastforce

lemma run_step_frame:
  "run_step t s s' \<Longrightarrow> history_inv s \<Longrightarrow> \<exists>f fs. stacks s t = f # fs \<and>
    sum_list (map to_open (stacks s' t)) \<le> sum_list (map to_open (f # fs)) \<and>
    (sum_list (map to_open (stacks s' t)) = sum_list (map to_open (f # fs)) \<longrightarrow>
       sum_list (map remaining (stacks s' t)) < sum_list (map remaining (f # fs)))"
proof (induction rule: run_step.induct)
  case (resume s b p sid sel evs i seen fs)
  with yielding_within [OF resume.prems resume.hyps] show ?case by auto
qed (auto dest: yielding_within)

lemma run_step_decreases:
  assumes "run_step t s s'" and "history_inv s" and "finite (busy s)"
  shows "total to_open s' < total to_open s \<or> total to_open s' = total to_open s \<and> total remaining s' < total remaining s"
proof -
  from run_step_frame [OF assms(1,2)] obtain f fs where fr: "stacks s t = f # fs"
    "sum_list (map to_open (stacks s' t)) \<le> sum_list (map to_open (f # fs))"
    "sum_list (map to_open (stacks s' t)) = sum_list (map to_open (f # fs)) \<longrightarrow>
       sum_list (map remaining (stacks s' t)) < sum_list (map remaining (f # fs))"
    by blast
  note total_change [OF assms(3) fr(1) run_step_stacks [OF assms(1)]]
  from this [of to_open] this [of remaining] fr(2,3) show ?thesis by linarith
qed

lemma step_busy: "step s s' \<Longrightarrow> finite (busy s) \<Longrightarrow> finite (busy s')"
proof -
  assume "step s s'" "finite (busy s)"
  then obtain u where "\<And>v. v \<noteq> u \<Longrightarrow> stacks s' v = stacks s v"
    by (cases rule: step.cases) (metis call_step_other run_step_other)+
  then have "busy s' \<subseteq> insert u (busy s)" by (auto simp: busy_def)
  with \<open>finite (busy s)\<close> show "finite (busy s')" by (meson finite.insertI finite_subset)
qed

lemma reachable_busy: "reachable s \<Longrightarrow> finite (busy s)"
  by (induction rule: reachable.induct) (simp add: busy_def start_sys_def, rule step_busy)

lemma run_steps_wf: "wf {(s', s). reachable s \<and> (\<exists>t. run_step t s s')}"
proof (rule wf_subset)
  show "wf (inv_image (less_than <*lex*> less_than) (\<lambda>s. (total to_open s, total remaining s)))"
    by (rule wf_inv_image [OF wf_lex_prod [OF wf_less_than wf_less_than]])
  show "{(s', s). reachable s \<and> (\<exists>t. run_step t s s')} \<subseteq> inv_image (less_than <*lex*> less_than) (\<lambda>s. (total to_open s, total remaining s))"
    using run_step_decreases reachable_invs(3) reachable_busy by (fastforce simp: in_inv_image)
qed

text \<open>C9: Without new calls the goroutines cannot go on forever: every run of steps from a reachable state is finite,
  whatever the schedule, the cancellations and the consumers' answers.\<close>

theorem InMemoryStore_runs_terminate:
  "wf {(s', s). reachable s \<and> (\<exists>t. run_step t s s')}"
  by (rule run_steps_wf)

section \<open>Liveness\<close>

text \<open>Every schedule of the goroutines leads to a state in which all are idle.\<close>

inductive completes :: "'m sys \<Rightarrow> bool" where
  idle: "(\<And>t. stacks s t = []) \<Longrightarrow> completes s"
| runs: "run_step u s s0 \<Longrightarrow> (\<And>v s'. run_step v s s' \<Longrightarrow> completes s') \<Longrightarrow> completes s"

lemma run_step_flat: "run_step u s s' \<Longrightarrow> length (stacks s t) \<le> 1 \<Longrightarrow> length (stacks s' t) \<le> 1"
  by (induction rule: run_step.induct) (auto split: if_splits)

text \<open>C7: When no goroutine calls the store inside a loop over a stream, every call in progress returns: however the
  goroutines are scheduled, some goroutine can go on until all are idle, and they are after finitely many steps.\<close>

theorem InMemoryStore_calls_complete:
  assumes "reachable s" and "\<And>t. length (stacks s t) \<le> 1"
  shows "completes s"
  using run_steps_wf assms
proof (induction s rule: wf_induct_rule)
  case (less s)
  show ?case
  proof (cases "\<forall>t. stacks s t = []")
    case True
    then show ?thesis by (blast intro: completes.idle)
  next
    case False
    with progress [OF reachable_sys_inv] less.prems obtain u s0 where "run_step u s s0" by blast
    moreover have "completes s'" if "run_step v s s'" for v s'
      using that less.prems run_step_flat reachable.next_state [OF _ step.run] by (intro less.IH) blast+
    ultimately show ?thesis by (rule completes.runs)
  qed
qed

definition flat_run :: "(tid \<times> nat choice) list" where
  "flat_run = [(0, CallAppend ''a'' CheckAny [ToEnvelope 1]), (1, CallStream ''a'' SelectFromBeginning)]"

lemma flat_run_state:
  "turns flat_run start_sys = Some (start_sys\<lparr>
     stacks := (\<lambda>_. [])(0 := [AppendCalled 0 ''a'' CheckAny [ToEnvelope 1]], 1 := [StreamCalled 0 ''a'' SelectFromBeginning])\<rparr>)"
  by (simp add: flat_run_def run_simps)

theorem InMemoryStore_calls_complete_witness: "completes (the (turns flat_run start_sys))"
  unfolding flat_run_state option.sel
  by (rule InMemoryStore_calls_complete [OF reachable_turns [OF flat_run_state, unfolded option.sel]]) (simp add: start_sys_def)

end
