(* ===== verification/Tracking_Locks.thy ===== *)
theory Tracking_Locks
  imports Tracking_Store Locked_Object
begin

text \<open>
  \<open>event/store_tracking.go\<close> under concurrent goroutines: \<open>Append\<close> under the write lock in its single steps, the append to the
  wrapped store (a step of its own: the wrapped store is safe for concurrent use) and one iteration of the
  recording loop at a time, and \<open>Recorded\<close> under the read lock. \<open>Stream\<close> is the wrapped store's and takes no lock of the wrapper.
\<close>

datatype 'm tracking_op =
    TrackAppend ctx StreamID Check "'m Envelope list"
  | TrackRecorded

datatype 'm tracking_result =
    TrackAppended "Version \<times> error option"
  | TrackRead "'m Persisted list"

datatype 'm tracking_point =
    AtAppend ctx StreamID Check "'m Envelope list"
  | AtRecord StreamID Version Version nat "'m Envelope list"
  | AtRecorded

fun tracking_writer :: "'m tracking_op \<Rightarrow> bool" where
  "tracking_writer (TrackAppend ctx sid expected evts) = True"
| "tracking_writer TrackRecorded = False"

fun tracking_enter :: "'m tracking_op \<Rightarrow> 'm tracking_point" where
  "tracking_enter (TrackAppend ctx sid expected evts) = AtAppend ctx sid expected evts"
| "tracking_enter TrackRecorded = AtRecorded"

fun tracking_micro ::
  "('m, 'st) Appender \<Rightarrow> 'm tracking_point \<Rightarrow> ('m, 'st) TrackingStore \<Rightarrow>
   ('m tracking_point + 'm tracking_result) \<times> ('m, 'st) TrackingStore" where
  "tracking_micro store_append (AtAppend ctx sid expected evts) es =
     (let ((v, err), st) = store_append ctx sid expected evts (inner es);
          es' = es\<lparr>inner := st\<rparr>
      in case err of
           Some e \<Rightarrow> (Inr (TrackAppended (v, Some e)), es')
         | None \<Rightarrow> (Inl (AtRecord sid v (v - version_of evts) 0 evts), es'))"
| "tracking_micro store_append (AtRecord sid v previousVersion i []) es = (Inr (TrackAppended (v, None)), es)"
| "tracking_micro store_append (AtRecord sid v previousVersion i (evt # evts)) es =
     (Inl (AtRecord sid v previousVersion (Suc i) evts),
      es\<lparr>recorded := recorded es @ [\<lparr>StreamID = sid, Version = previousVersion + word_of_nat i + 1, Envelope = evt\<rparr>]\<rparr>)"
| "tracking_micro store_append AtRecorded es = (Inr (TrackRead (recorded es)), es)"

text \<open>The same operations one after the other.\<close>

fun tracking_seq ::
  "('m, 'st) Appender \<Rightarrow> 'm tracking_op \<Rightarrow> ('m, 'st) TrackingStore \<Rightarrow> 'm tracking_result \<times> ('m, 'st) TrackingStore" where
  "tracking_seq store_append (TrackAppend ctx sid expected evts) es =
     (let (r, es') = TrackingStore_Append store_append ctx sid expected evts es in (TrackAppended r, es'))"
| "tracking_seq store_append TrackRecorded es = (TrackRead (Recorded es), es)"

lemma record_runs:
  "runs_body (tracking_micro store_append) (AtRecord sid v previousVersion i evts) es (TrackAppended (v, None))
     (es\<lparr>recorded := TrackingStore_record_loop sid previousVersion i evts (recorded es)\<rparr>)"
proof (induction evts arbitrary: i es)
  case Nil
  then show ?case by (auto intro: runs_body.last_step)
next
  case (Cons evt evts)
  let ?es = "es\<lparr>recorded := recorded es @ [\<lparr>StreamID = sid, Version = previousVersion + word_of_nat i + 1, Envelope = evt\<rparr>]\<rparr>"
  have "runs_body (tracking_micro store_append) (AtRecord sid v previousVersion i (evt # evts)) es (TrackAppended (v, None))
      (?es\<lparr>recorded := TrackingStore_record_loop sid previousVersion (Suc i) evts (recorded ?es)\<rparr>)"
    by (rule runs_body.more_steps [OF _ Cons.IH]) simp
  then show ?case by simp
qed

interpretation tracking_lock: locked_object tracking_writer tracking_enter "tracking_micro store_append" "tracking_seq store_append"
  "\<lambda>l. l = AtRecorded" for store_append :: "('m, 'st) Appender"
proof
  fix oper :: "'m tracking_op" and es :: "('m, 'st) TrackingStore"
  show "runs_body (tracking_micro store_append) (tracking_enter oper) es (fst (tracking_seq store_append oper es))
      (snd (tracking_seq store_append oper es))"
  proof (cases oper)
    case (TrackAppend ctx sid expected evts)
    obtain v err st where a: "store_append ctx sid expected evts (inner es) = ((v, err), st)" by (metis surj_pair)
    show ?thesis
    proof (cases err)
      case None
      with a TrackAppend record_runs [of store_append sid v "v - version_of evts" 0 evts "es\<lparr>inner := st\<rparr>"] show ?thesis
        by (auto simp: TrackingStore_Append_def Let_def intro: runs_body.more_steps)
    next
      case (Some e)
      with a TrackAppend show ?thesis
        by (auto simp: TrackingStore_Append_def Let_def intro: runs_body.last_step)
    qed
  next
    case TrackRecorded
    then show ?thesis by (auto simp: Recorded_def intro: runs_body.last_step)
  qed
next
  fix oper :: "'m tracking_op"
  show "\<not> tracking_writer oper \<Longrightarrow> tracking_enter oper = AtRecorded" by (cases oper) auto
qed auto

section \<open>Property\<close>

lemma tracking_replay_tracks:
  "replay_ops (tracking_seq InMemoryStore_Append) h es = Some es' \<Longrightarrow> tracks mem_log log0 es \<Longrightarrow> tracks mem_log log0 es'"
proof (induction h arbitrary: es)
  case (Cons x h)
  obtain t oper r where x: "x = (t, oper, r)" by (cases x)
  have "tracks mem_log log0 (snd (tracking_seq InMemoryStore_Append oper es))"
    using mem.tracking_append_log [OF TrueI Cons.prems(2)] Cons.prems(2) by (cases oper) (simp_all add: case_prod_beta)
  with Cons x show ?case by (auto split: prod.splits if_splits)
qed simp

text \<open>C19: However goroutines interleave, a tracking store around an in-memory store behaves as if its appends and reads came one after the other: in
  every reachable state the history, one entry for each call whose body is through, is a legal run of the sequential
  operations from the fresh wrapper; every call that returned has an entry of its own in it, made between its call and its
  return, with its arguments and its result; and whenever no \<open>Append\<close> is inside, the events recorded for a stream are those the wrapped store would replay
  beyond what it held at first, with the same versions.\<close>

theorem TrackingStore_linearizable:
  assumes "locked_reachable tracking_writer tracking_enter (tracking_micro InMemoryStore_Append) (NewTrackingStore es0) s"
  shows "(\<exists>es. replay_ops (tracking_seq InMemoryStore_Append) (lk_history s) (NewTrackingStore es0) = Some es \<and>
       ((\<forall>t. \<not> owns tracking_writer (lk_calls s t)) \<longrightarrow> lk_state s = es \<and>
          (\<forall>sid. persisted_from sid 0 (mem_log (inner es) sid) =
             persisted_from sid 0 (mem_log es0 sid) @ filter (\<lambda>p. StreamID p = sid) (Recorded es)))) \<and>
     (\<forall>r \<in> set (lk_finished s). lr_called r \<le> lr_effect r \<and> lr_effect r < lr_returned r \<and> lr_returned r \<le> length (lk_history s) \<and>
        lk_history s ! lr_effect r = (lr_tid r, lr_op r, lr_result r)) \<and>
     distinct (map lr_effect (lk_finished s))"
proof -
  note lin = tracking_lock.linearizable [OF assms]
  then obtain es where es: "replay_ops (tracking_seq InMemoryStore_Append) (lk_history s) (NewTrackingStore es0) = Some es"
    "(\<forall>t. \<not> owns tracking_writer (lk_calls s t)) \<longrightarrow> lk_state s = es" by blast
  from tracking_replay_tracks [OF es(1) tracks_New]
  have "persisted_from sid 0 (mem_log (inner es) sid) =
      persisted_from sid 0 (mem_log es0 sid) @ filter (\<lambda>p. StreamID p = sid) (Recorded es)" for sid
    by (auto simp: tracks_def Recorded_def persisted_from_append dest!: spec [of _ sid])
  with es lin show ?thesis by blast
qed

text \<open>A reader waits while an append is inside; then it reads what was recorded.\<close>

definition tracking_sched :: "(tid \<times> nat tracking_op option) list" where
  "tracking_sched = [(0, Some (TrackAppend Background ''a'' CheckAny [ToEnvelope 1, ToEnvelope 2])), (1, Some TrackRecorded)] @
     replicate 7 (0, None) @ replicate 3 (1, None)"

lemma tracking_sched_state:
  "locked_turns tracking_writer tracking_enter (tracking_micro InMemoryStore_Append) tracking_sched
     (locked_start (NewTrackingStore NewInMemoryStore)) = Some (the (locked_turns tracking_writer tracking_enter
       (tracking_micro InMemoryStore_Append) tracking_sched (locked_start (NewTrackingStore NewInMemoryStore))))"
  "map lr_result (lk_finished (the (locked_turns tracking_writer tracking_enter (tracking_micro InMemoryStore_Append) tracking_sched
     (locked_start (NewTrackingStore NewInMemoryStore))))) =
     [TrackAppended (2, None), TrackRead (persisted_from ''a'' 0 [ToEnvelope 1, ToEnvelope 2])]"
  by (simp_all add: tracking_sched_def locked_start_def free_mutex_def mutex_defs numeral_eq_Suc NewTrackingStore_def NewInMemoryStore_def
      InMemoryStore_Append_def Let_def)

theorem TrackingStore_linearizable_witness:
  "distinct (map lr_effect (lk_finished (the (locked_turns tracking_writer tracking_enter (tracking_micro InMemoryStore_Append)
     tracking_sched (locked_start (NewTrackingStore NewInMemoryStore)))))) \<and>
   map lr_result (lk_finished (the (locked_turns tracking_writer tracking_enter (tracking_micro InMemoryStore_Append) tracking_sched
     (locked_start (NewTrackingStore NewInMemoryStore))))) =
     [TrackAppended (2, None), TrackRead (persisted_from ''a'' 0 [ToEnvelope 1, ToEnvelope 2])]"
  using TrackingStore_linearizable [OF locked_turns_reachable [OF locked_reachable.start tracking_sched_state(1)]] tracking_sched_state(2)
  by blast

end
