(* ===== verification/Spec2Isabelle.thy ===== *)
theory Spec2Isabelle
  imports Event_Sourcing User_Locks User_Projection Todo_Main Todo_Concurrent Postgres_Suites Postgres_Migration Postgres_Container Telemetry_Recorded
    Concurrent_Correct Tracking_Locks
begin

text \<open>
  A model of go-eventually, a Go library for event sourcing and command-query separation, with its two example domains, and what makes it correct.

  \<^bold>\<open>The program.\<close> An aggregate root (package \<open>aggregate\<close>) records domain events by applying them to itself. A
  repository stores what was recorded as messages of an event stream (package \<open>event\<close>) under optimistic concurrency: the
  append carries the version the root was based on, and a stream that has moved on answers with \<open>version.ConflictError\<close>. Loading
  a root replays its stream. Event stores are in memory (\<open>event/store_inmemory.go\<close>) or on PostgreSQL (package \<open>postgres\<close>); stores and
  repositories can be wrapped to record what passes (\<open>event/store_tracking.go\<close>) or to trace and measure it (package \<open>opentelemetry\<close>).
  Commands and queries (packages \<open>command\<close>, \<open>query\<close>) are handled on repositories; scenarios test aggregates, command
  and query handlers. The examples are a todo list served over Connect (\<open>examples/todolist\<close>) and a user (\<open>internal/user\<close>), on which the repository's own executable suites run.

  \<^bold>\<open>How Go is rendered.\<close> A struct is a record, a closed set of types behind an interface a datatype, any other interface a record of
  functions or the parameters of a locale. An operation that changes state takes the state and returns it. A result with an
  error is a pair with an \<open>error option\<close> or a sum; a panic is the outcome \<open>None\<close> of an operation that can panic. Errors are trees of
  wrapped values with \<open>errors.Is\<close>, \<open>errors.As\<close> and \<open>errors.Join\<close> (\<open>Go_Errors\<close>); of a format string only its verbs and the errors it wraps matter, but for the text of \<open>ConflictError\<close>. Versions are
  32-bit words and wrap. A context is the function from the number of the check to what \<open>ctx.Err()\<close> reports. Metadata
  maps are references into a heap where aliasing matters (\<open>Message\<close>) and values elsewhere. A stream is a producer: the tree of its \<open>yield\<close> calls, branching on the consumer's
  answer (\<open>Message_Stream\<close>); range-over-func loops run it against a loop body, with the runtime's panics.

  \<^bold>\<open>Theories and sources.\<close>
  \<^item> \<open>Prelude\<close>, \<open>Go_Errors\<close>, \<open>Go_Time\<close>, \<open>Go_Calendar\<close>, \<open>Go_Http\<close>, \<open>Go_Sync\<close>: shared facts, and errors, times, dates, HTTP routing and read-write mutexes of the standard library.
  \<^item> \<open>Version\<close>, \<open>Message\<close>, \<open>Message_Stream\<close>: packages \<open>version\<close> and \<open>message\<close>.
  \<^item> \<open>Event\<close>: \<open>event/event.go\<close>, \<open>store.go\<close>, \<open>processor.go\<close> and the contracts \<open>event_reader\<close> and \<open>event_store\<close>.
  \<^item> \<open>InMemory_Store\<close>, \<open>Tracking_Store\<close>: the two stores of package \<open>event\<close>, one operation at a time.
  \<^item> \<open>Concurrent_Store\<close>, \<open>Concurrent_Invariants\<close>, \<open>Concurrent_Correct\<close>: \<open>event/store_inmemory.go\<close> once more, step by step, under any interleaving of goroutines.
  \<^item> \<open>Locked_Object\<close>, \<open>Tracking_Locks\<close>, \<open>User_Locks\<close>: any object whose methods run under one read-write mutex, step by step; \<open>event/store_tracking.go\<close> and the handler of
    \<open>internal/user/user_by_email.go\<close> as such objects.
  \<^item> \<open>Aggregate\<close>, \<open>Repository\<close>, \<open>Aggregate_Scenario\<close>: package \<open>aggregate\<close>; the contracts \<open>aggregate_root\<close>, \<open>aggregate_type\<close> and \<open>repository_contract\<close>.
  \<^item> \<open>Event_Sourcing\<close>: what event sourcing promises for every aggregate type over an in-memory store.
  \<^item> \<open>Command\<close>, \<open>Query\<close>, \<open>Serde\<close>: the packages of these names.
  \<^item> \<open>Todo_List\<close>, \<open>Todo_Domain\<close>, \<open>Todo_Handlers\<close>, \<open>Todo_Service\<close>, \<open>Todo_Connect\<close>: \<open>examples/todolist/internal\<close> from the aggregate to the transport.
  \<^item> \<open>Todo_Concurrent\<close>: the handlers of \<open>examples/todolist/internal\<close> once more, many at a time, each interrupted between its \<open>Get\<close> and its \<open>Save\<close>.
  \<^item> \<open>Todo_Rpc\<close>, \<open>Todo_Remote\<close>, \<open>Todo_Main\<close>: the client and handler generated by the Connect plugin (\<open>examples/todolist/gen\<close>), remote calls end to end, and the process (\<open>examples/todolist/main.go\<close>).
  \<^item> \<open>User_Aggregate\<close>, \<open>User_By_Email\<close>, \<open>User_Serde\<close>, \<open>User_Suites\<close>, \<open>User_Projection\<close>: \<open>internal/user\<close>, the last one its write and read sides together.
  \<^item> \<open>Postgres_Driver\<close> (\<open>postgres/internal/transaction.go\<close> and the contract \<open>transactional\<close> of the driver), \<open>Postgres_Store\<close>
    (\<open>append_domain_events.go\<close>, \<open>event_store.go\<close>, \<open>aggregate_repository.go\<close>, \<open>option.go\<close>), \<open>Postgres_Schema\<close> (the tables of \<open>postgres/migrations\<close> and a database on
    them in which any call can fail), \<open>Postgres_Correct\<close>, \<open>Postgres_Outcome\<close>, \<open>Postgres_Sourced\<close>, \<open>Postgres_Samples\<close>, \<open>Postgres_Migration\<close> (\<open>migration.go\<close>), \<open>Postgres_Suites\<close> (the package's integration tests),
    \<open>Postgres_Container\<close> (\<open>internal/container.go\<close>).
  \<^item> \<open>Telemetry\<close>, \<open>Telemetry_Recorded\<close>: package \<open>opentelemetry\<close>, and a backend that records every call.

  \<^bold>\<open>What is proved.\<close>
  \<^item> Contracts and who keeps them. \<open>event_store\<close> (an append extends exactly its log or reports the versions, a stream replays its log) is kept by the in-memory store, the tracking
    store and any instrumented store; \<open>event_reader\<close> by PostgreSQL too. \<open>repository_contract\<close> follows from \<open>event_store\<close> and \<open>aggregate_type\<close> for the event-sourced repository,
    and is kept by instrumentation. \<open>transactional\<close> is kept by the database of \<open>Postgres_Schema\<close>.
  \<^item> Event sourcing: recording is folding, rehydrating inverts recording, what is saved is loaded, and of two writers that started from the same root the second
    conflicts; for every aggregate type in memory, and on PostgreSQL for events its serde knows.
  \<^item> Under concurrency: the in-memory store excludes writers, is linearizable with respect to the sequential model, lets one of several appends that expect the same version win, has finite runs, and completes all calls that are
    not nested in a loop over a stream; a nested append never returns. The tracking store and the read model by email are linearizable.
  \<^item> The read model agrees with the repository on every user, once it has processed what was recorded and if no two users shared an email. Versions count the events of a stream modulo \<open>2 ^ 32\<close>.
  \<^item> PostgreSQL: whatever call fails, a transaction, an append or a save happens as a whole or not at all, and the version of an aggregate stays that of its stream, and of
    appends that expect one version at most one succeeds; without failures, the exact outcome of each operation.
  \<^item> The todo list: its commands refine a map from identifiers to items and keep lists well formed, the wired service refines a map from lists to those, and remote calls, from the generated
    client over HTTP routing to the store, refine the same map with the documented status codes. Requests that run
    at the same time behave as some order of them: no acknowledged command is lost, and a conflict means that the list to create existed or that another command changed the list after it was read.
  \<^item> Scenarios, suites, serdes and telemetry: a scenario passes exactly when it should, the repository's suites pass in memory and on PostgreSQL, serdes round-trip, and instrumentation changes no result while every append, loop over a
    stream, load and save leaves one ended span and one measurement.
  \<^item> Streams: only the first of any number of loops over a stream runs its producer.
  \<^item> Behaviour that the comments or the intent of the code do not suggest is proved as well: the retried save that loses events, the read model that regresses, metadata that is written through, the deadlock above.

  \<^bold>\<open>Interleavings, bounds and termination.\<close> All functions are total; there is no fuel. The concurrent store is an inductive relation of single steps, with the executable function \<open>turn\<close> for schedules; its ghost
  state (the history, the calls that returned, the positions in calls) is only written. Its mutex is weaker than the runtime's, which lets waiting readers go first when a writer leaves: it allows
  more schedules. A consumer's loop body may call the store again or answer, and does nothing else that blocks. Statements about versions carry the bound \<open>2 ^ 32\<close> on the length of a stream. The other components with a lock
  run as \<open>Locked_Object\<close>s: a call waits for the lock and takes its steps on the state one by one. In \<open>TrackingStore\<close> the append to the wrapped store is one step, since that store is linearizable, and \<open>Stream\<close>, which takes no lock, goes to the
  wrapped store. In \<open>Todo_Concurrent\<close> a step is one operation on that store, which is linearizable and whose calls complete; waiting for its lock is not part of that theory.
  The statements on PostgreSQL are about one transaction after the other, as serializable isolation presents them.

  \<^bold>\<open>Parameters.\<close> Identifiers (package \<open>uuid\<close>), protobuf timestamps, \<open>encoding/json\<close>, \<open>proto\<close> and \<open>protojson\<close>, the driver pgx, golang-migrate, testcontainers, the OpenTelemetry API, the clock, the Connect runtime and the network between client and handler (contract \<open>api_contract\<close> in \<open>Todo_Rpc\<close>), and in \<open>Todo_Main\<close> the environment, the HTTP server and the health and reflection handlers. A statement
  that needs more of them than their type has it as a hypothesis, with an instance among the witnesses.

  \<^bold>\<open>Not modelled.\<close> Code generated by the protobuf plugin (its messages appear as records of their fields); rendering of most error texts and logging; the wire protocols; the Go memory model below the mutex. A nil slice is an empty one, so what tells them apart (\<open>assert.Equal\<close> in scenarios, NOT NULL columns of the tables) is left out, as is the
  refusal of NUL characters by PostgreSQL's text types.
\<close>

end
